theory Spec2Isabelle
  imports Complex_Main
begin

section \<open>Data model\<close>

text \<open>
  The engine is the Python class \<open>AudioGenerationEngine\<close> of RFC-002, section 4.4.
  Buffers (\<open>np.ndarray\<close>, mono) are lists, Python integers are \<open>int\<close>, every exception
  the code can raise is a value of \<open>error\<close>. The samples of the pipeline are real numbers,
  which gives the structure of every stage. Where the rounding of IEEE doubles decides
  what the code does, it is modelled (section Double precision): the number of samples
  \<open>int(duration * sr)\<close>, and the normalisation, the limiter and the fade of the
  post-processor, which are given a second time on doubles with their infinities and NaN.
\<close>

datatype error =
    ValueError
  | ZeroDivisionError
  | KeyError
  | OverflowError
  | LibraryError
  | MissingAssetError
  | TransformInstabilityError

text \<open>
  \<open>LibraryError\<close> stands for whatever librosa, scipy or \<open>np.fft\<close> raise on their own.
  \<open>MissingAssetError\<close> and \<open>TransformInstabilityError\<close> are the two error names of the
  specification; no line of the engine constructs them.
\<close>

datatype fart_type = squeaker | rumbler | stutterer | classic | wet

record AudioParameters =
  duration :: real
  wetness :: int
  pitch :: int
  ptype :: fart_type
  reverb_amount :: real
  distortion :: real
  randomness_seed :: int
  sample_rate :: int

text \<open>The \<open>Field\<close> constraints of the pydantic model (\<open>sample_rate\<close> has none).\<close>

definition valid_params :: "AudioParameters \<Rightarrow> bool" where
  "valid_params p \<longleftrightarrow>
     1 / 2 \<le> duration p \<and> duration p \<le> 10 \<and>
     0 \<le> wetness p \<and> wetness p \<le> 10 \<and>
     0 \<le> pitch p \<and> pitch p \<le> 10 \<and>
     0 \<le> reverb_amount p \<and> reverb_amount p \<le> 1 \<and>
     0 \<le> distortion p \<and> distortion p \<le> 1"

type_synonym audio = "real list"

section \<open>Python and NumPy primitives\<close>

text \<open>\<open>int(x)\<close> truncates towards zero.\<close>

definition py_int :: "real \<Rightarrow> int" where
  "py_int x = (if 0 \<le> x then \<lfloor>x\<rfloor> else \<lceil>x\<rceil>)"

text \<open>\<open>round(x)\<close> rounds to the nearest integer, ties to the even one.\<close>

definition py_round :: "real \<Rightarrow> int" where
  "py_round x =
     (let f = \<lfloor>x\<rfloor>; d = x - of_int f
      in if d < 1 / 2 then f else if 1 / 2 < d then f + 1
         else if even f then f else f + 1)"

text \<open>\<open>np.linspace(start, stop, num)\<close> for \<open>num \<ge> 0\<close>, end point included.\<close>

definition linspace :: "real \<Rightarrow> real \<Rightarrow> nat \<Rightarrow> real list" where
  "linspace start stop num =
     (if num = 1 then [start]
      else map (\<lambda>i. start + real i * ((stop - start) / real (num - 1))) [0..<num])"

text \<open>A slice bound \<open>i\<close> of a sequence of length \<open>n\<close>, as Python normalises it.\<close>

definition slice_index :: "int \<Rightarrow> nat \<Rightarrow> nat" where
  "slice_index i n = (if i < 0 then nat (max 0 (i + int n)) else min (nat i) n)"

text \<open>\<open>xs[:j]\<close>\<close>

definition py_prefix :: "int \<Rightarrow> 'a list \<Rightarrow> 'a list" where
  "py_prefix j xs = take (slice_index j (length xs)) xs"

text \<open>
  \<open>a[s:e] op= rhs\<close> on a one-dimensional array: the slice has \<open>k\<close> elements, and NumPy
  accepts a right-hand side of \<open>k\<close> elements or of one element (broadcast over the
  slice); any other shape raises \<open>ValueError\<close>.
\<close>

definition inplace_slice ::
  "('a \<Rightarrow> 'a \<Rightarrow> 'a) \<Rightarrow> 'a list \<Rightarrow> int \<Rightarrow> int \<Rightarrow> 'a list \<Rightarrow> error + 'a list" where
  "inplace_slice f a i j rhs =
     (let s = slice_index i (length a); e = slice_index j (length a); k = e - s
      in if length rhs = k then
           Inr (take s a @ map2 f (take k (drop s a)) rhs @ drop (s + k) a)
         else if length rhs = 1 then
           Inr (take s a @ map (\<lambda>x. f x (hd rhs)) (take k (drop s a)) @ drop (s + k) a)
         else Inl ValueError)"

text \<open>\<open>np.abs(audio).max()\<close>: the reduction raises \<open>ValueError\<close> on an empty array.\<close>

definition abs_max :: "audio \<Rightarrow> error + real" where
  "abs_max a = (if a = [] then Inl ValueError else Inr (Max (set (map abs a))))"

section \<open>Double precision\<close>

text \<open>
  The value of the double nearest to a real number: 53 significant bits, rounded to
  nearest with ties to even (the rounding of \<open>py_round\<close>), the spacing of the
  subnormal numbers below \<open>2 ** -1022\<close>. The exponent is not bounded above:
  overflow is what exceeds \<open>f64_max\<close>, the largest finite double, after rounding.
\<close>

definition f64_exponent :: "real \<Rightarrow> int" where
  "f64_exponent x = max \<lfloor>log 2 \<bar>x\<bar>\<rfloor> (- 1022)"

definition fl64 :: "real \<Rightarrow> real" where
  "fl64 x =
     (if x = 0 then 0
      else let u = 2 powr (real_of_int (f64_exponent x) - 52)
           in real_of_int (py_round (x / u)) * u)"

definition f64_max :: real where
  "f64_max = (2 - 1 / 2 ^ 52) * 2 ^ 1023"

text \<open>
  \<open>d * i\<close> for a float \<open>d\<close> and an integer \<open>i\<close>: Python converts \<open>i\<close> to a double, which
  raises \<open>OverflowError\<close> when \<open>i\<close> is too large, and rounds the product; the product
  is infinite when it overflows, and \<open>int\<close> of an infinity raises \<open>OverflowError\<close>.
\<close>

definition double_product :: "real \<Rightarrow> int \<Rightarrow> real" where
  "double_product d i = fl64 (d * fl64 (real_of_int i))"

definition product_overflows :: "real \<Rightarrow> int \<Rightarrow> bool" where
  "product_overflows d i \<longleftrightarrow>
     f64_max < \<bar>fl64 (real_of_int i)\<bar> \<or> f64_max < \<bar>double_product d i\<bar>"

text \<open>
  A double: a finite value, an infinity or NaN. The two zeros are not distinguished
  (the engine divides by a positive peak only).
\<close>

datatype fsample = Finite real | PosInf | NegInf | NaN

fun is_finite :: "fsample \<Rightarrow> bool" where
  "is_finite (Finite x) = True"
| "is_finite PosInf = False"
| "is_finite NegInf = False"
| "is_finite NaN = False"

definition f64_of_real :: "real \<Rightarrow> fsample" where
  "f64_of_real x =
     (if f64_max < fl64 x then PosInf else if fl64 x < - f64_max then NegInf
      else Finite (fl64 x))"

fun f64_sign :: "fsample \<Rightarrow> int" where
  "f64_sign (Finite x) = (if x = 0 then 0 else if 0 < x then 1 else - 1)"
| "f64_sign PosInf = 1"
| "f64_sign NegInf = - 1"
| "f64_sign NaN = 0"

text \<open>
  The product: with an infinite operand it is NaN when the other operand is zero, and
  the infinity of the product of the signs otherwise.
\<close>

definition f64_mul :: "fsample \<Rightarrow> fsample \<Rightarrow> fsample" where
  "f64_mul a b =
     (case (a, b) of
        (Finite x, Finite y) \<Rightarrow> f64_of_real (x * y)
      | _ \<Rightarrow>
          if a = NaN \<or> b = NaN \<or> f64_sign a * f64_sign b = 0 then NaN
          else if 0 < f64_sign a * f64_sign b then PosInf else NegInf)"

text \<open>
  The quotient: a finite value over an infinity is zero, an infinity over an infinity
  and \<open>0 / 0\<close> are NaN, a non-zero value over zero is infinite.
\<close>

definition f64_div :: "fsample \<Rightarrow> fsample \<Rightarrow> fsample" where
  "f64_div a b =
     (case (a, b) of
        (Finite x, Finite y) \<Rightarrow>
          if y \<noteq> 0 then f64_of_real (x / y)
          else if x = 0 then NaN else if 0 < x then PosInf else NegInf
      | (Finite x, PosInf) \<Rightarrow> Finite 0
      | (Finite x, NegInf) \<Rightarrow> Finite 0
      | (PosInf, Finite y) \<Rightarrow> if 0 \<le> y then PosInf else NegInf
      | (NegInf, Finite y) \<Rightarrow> if 0 \<le> y then NegInf else PosInf
      | _ \<Rightarrow> NaN)"

fun f64_abs :: "fsample \<Rightarrow> fsample" where
  "f64_abs (Finite x) = Finite \<bar>x\<bar>"
| "f64_abs PosInf = PosInf"
| "f64_abs NegInf = PosInf"
| "f64_abs NaN = NaN"

text \<open>\<open>a < b\<close>: false when an operand is NaN.\<close>

fun f64_less :: "fsample \<Rightarrow> fsample \<Rightarrow> bool" where
  "f64_less NaN b = False"
| "f64_less a NaN = False"
| "f64_less (Finite x) (Finite y) = (x < y)"
| "f64_less PosInf b = False"
| "f64_less a PosInf = True"
| "f64_less a NegInf = False"
| "f64_less NegInf b = True"

text \<open>The maximum of two values as \<open>np.max\<close> reduces: NaN propagates.\<close>

definition f64_maximum :: "fsample \<Rightarrow> fsample \<Rightarrow> fsample" where
  "f64_maximum a b = (if a = NaN \<or> b = NaN then NaN else if f64_less a b then b else a)"

text \<open>
  \<open>np.tanh\<close>, taken as correctly rounded: the hyperbolic tangent of an infinity is 1
  or -1, and the rounding takes a value close enough to 1 to 1.
\<close>

fun f64_tanh :: "fsample \<Rightarrow> fsample" where
  "f64_tanh (Finite x) = Finite (fl64 (tanh x))"
| "f64_tanh PosInf = Finite 1"
| "f64_tanh NegInf = Finite (- 1)"
| "f64_tanh NaN = NaN"

text \<open>
  \<open>np.linspace(start, stop, num)\<close> as NumPy computes it on doubles, for fewer than \<open>2
  ** 53\<close> points (the indices are doubles, and the step is not zero): \<open>step = (stop -
  start) / (num - 1)\<close>, the points \<open>i * step + start\<close>, the last one set to \<open>stop\<close>.
\<close>

definition linspace_f64 :: "real \<Rightarrow> real \<Rightarrow> nat \<Rightarrow> real list" where
  "linspace_f64 start stop num =
     (if num = 1 then [start]
      else
        let step = fl64 (fl64 (stop - start) / real (num - 1))
        in map (\<lambda>i. if i = num - 1 then stop else fl64 (fl64 (real i * step) + start)) [0..<num])"

section \<open>The libraries, as parameters\<close>

text \<open>
  Python's \<open>random\<close> module: a generator state \<open>'r\<close>, \<open>random.seed\<close> (which is given
  the state it finds) and the three draws the engine uses. \<open>py_sample r n k\<close> gives the
  positions of the \<open>k\<close> elements that \<open>random.sample\<close> picks out of a population of
  \<open>n\<close>.
\<close>

record 'r py_random =
  py_seed :: "int \<Rightarrow> 'r \<Rightarrow> 'r"
  py_randint :: "'r \<Rightarrow> int \<Rightarrow> int \<Rightarrow> int \<times> 'r"
  py_uniform :: "'r \<Rightarrow> real \<Rightarrow> real \<Rightarrow> real \<times> 'r"
  py_sample :: "'r \<Rightarrow> nat \<Rightarrow> nat \<Rightarrow> nat list \<times> 'r"

text \<open>
  NumPy: the legacy global generator (state \<open>'n\<close>, \<open>np.random.seed\<close> on the state it
  finds, one standard normal draw at a time, uniform draws) and the two transforms of
  \<open>np.fft\<close>.
\<close>

record 'n numpy =
  np_seed :: "int \<Rightarrow> 'n \<Rightarrow> 'n"
  np_gauss :: "'n \<Rightarrow> real \<times> 'n"
  np_uniform :: "'n \<Rightarrow> real \<Rightarrow> real \<Rightarrow> real \<times> 'n"
  np_fft :: "complex list \<Rightarrow> complex list option"
  np_ifft :: "complex list \<Rightarrow> complex list option"

text \<open>
  librosa and scipy on a buffer of samples \<open>'s\<close>: \<open>librosa.effects.time_stretch(y, rate)\<close>,
  \<open>librosa.effects.pitch_shift(y, sr, n_steps)\<close>, and \<open>signal.butter(order, wn,
  btype='low', output='sos')\<close> followed by \<open>signal.sosfilt\<close>. \<open>None\<close> is a call that
  raises.
\<close>

record 's dsp =
  time_stretch :: "'s list \<Rightarrow> real \<Rightarrow> 's list option"
  pitch_shift :: "'s list \<Rightarrow> int \<Rightarrow> int \<Rightarrow> 's list option"
  butter_sosfilt :: "nat \<Rightarrow> real \<Rightarrow> 's list \<Rightarrow> 's list option"

text \<open>
  The engine object: \<open>sample_cache\<close> as \<open>_load_samples\<close> leaves it (a list of
  \<open>(audio, sr)\<close> pairs per type), and the method \<open>_overlap_samples\<close>, which the engine
  calls and the document does not define. It is given the selected samples and the
  states of the two global generators, from which it may draw, and returns its buffer
  and the states it leaves.
\<close>

record ('s, 'r, 'n) engine =
  sample_cache :: "fart_type \<rightharpoonup> ('s list \<times> int) list"
  overlap_samples :: "('s list \<times> int) list \<Rightarrow> 'r \<times> 'n \<Rightarrow> error + 's list \<times> 'r \<times> 'n"

text \<open>
  What the documentation of the libraries promises about seeding: the state after
  \<open>seed(s)\<close> is a function of \<open>s\<close> alone.
\<close>

definition seeding_resets :: "'r py_random \<Rightarrow> 'n numpy \<Rightarrow> bool" where
  "seeding_resets P N \<longleftrightarrow>
     (\<forall>s r r'. py_seed P s r = py_seed P s r') \<and> (\<forall>s n n'. np_seed N s n = np_seed N s n')"

text \<open>What it promises about the draws.\<close>

definition randint_ok :: "'r py_random \<Rightarrow> bool" where
  "randint_ok P \<longleftrightarrow>
     (\<forall>r a b. a \<le> b \<longrightarrow> a \<le> fst (py_randint P r a b) \<and> fst (py_randint P r a b) \<le> b)"

definition uniform_ok :: "'r py_random \<Rightarrow> bool" where
  "uniform_ok P \<longleftrightarrow>
     (\<forall>r a b. a \<le> b \<longrightarrow> a \<le> fst (py_uniform P r a b) \<and> fst (py_uniform P r a b) \<le> b)"

definition sample_ok :: "'r py_random \<Rightarrow> bool" where
  "sample_ok P \<longleftrightarrow>
     (\<forall>r n k. k \<le> n \<longrightarrow>
        length (fst (py_sample P r n k)) = k \<and> distinct (fst (py_sample P r n k)) \<and>
        (\<forall>i \<in> set (fst (py_sample P r n k)). i < n))"

text \<open>
  What librosa and scipy promise about lengths: \<open>time_stretch\<close> returns
  \<open>round(len(y) / rate)\<close> samples (a rate above 1 speeds the signal up), \<open>pitch_shift\<close>
  and \<open>sosfilt\<close> keep the length.
\<close>

definition dsp_lengths :: "'s dsp \<Rightarrow> bool" where
  "dsp_lengths D \<longleftrightarrow>
     (\<forall>y rate y'. time_stretch D y rate = Some y' \<longrightarrow>
        int (length y') = py_round (real (length y) / rate)) \<and>
     (\<forall>y sr n y'. pitch_shift D y sr n = Some y' \<longrightarrow> length y' = length y) \<and>
     (\<forall>ord wn y y'. butter_sosfilt D ord wn y = Some y' \<longrightarrow> length y' = length y)"

section \<open>Draws\<close>

text \<open>\<open>random.randint(a, b)\<close> raises \<open>ValueError\<close> on an empty range.\<close>

definition randint :: "'r py_random \<Rightarrow> 'r \<Rightarrow> int \<Rightarrow> int \<Rightarrow> error + int \<times> 'r" where
  "randint P r a b = (if b < a then Inl ValueError else Inr (py_randint P r a b))"

fun gauss_draws :: "'n numpy \<Rightarrow> 'n \<Rightarrow> nat \<Rightarrow> real list \<times> 'n" where
  "gauss_draws N n 0 = ([], n)"
| "gauss_draws N n (Suc k) =
     (let (z, n1) = np_gauss N n; (zs, n2) = gauss_draws N n1 k in (z # zs, n2))"

text \<open>
  \<open>np.random.normal(loc, scale, num)\<close>: \<open>num\<close> draws \<open>loc + scale * z\<close> with \<open>z\<close>
  standard normal; a negative size raises \<open>ValueError\<close>.
\<close>

definition np_normal ::
  "'n numpy \<Rightarrow> 'n \<Rightarrow> real \<Rightarrow> real \<Rightarrow> int \<Rightarrow> error + audio \<times> 'n" where
  "np_normal N n loc scale num =
     (if num < 0 then Inl ValueError
      else let (zs, n') = gauss_draws N n (nat num)
           in Inr (map (\<lambda>z. loc + scale * z) zs, n'))"

text \<open>\<open>np.fft.fftfreq(n, d)\<close> for \<open>n \<ge> 1\<close>.\<close>

definition fftfreq :: "nat \<Rightarrow> real \<Rightarrow> real list" where
  "fftfreq n d =
     map (\<lambda>i. (if i \<le> (n - 1) div 2 then real i else real i - real n) / (real n * d)) [0..<n]"

section \<open>Procedural generators\<close>

text \<open>
  \<open>_generate_noise\<close>. \<open>np.fft.fft\<close> raises \<open>ValueError\<close> on an empty array, and
  \<open>1/sr\<close> raises \<open>ZeroDivisionError\<close> for \<open>sr = 0\<close>.
\<close>

definition generate_noise ::
  "'n numpy \<Rightarrow> 'n \<Rightarrow> int \<Rightarrow> int \<Rightarrow> string \<Rightarrow> error + audio \<times> 'n" where
  "generate_noise N n len sr noise_type =
     (if noise_type = ''white'' then np_normal N n 0 (1 / 10) len
      else
        case np_normal N n 0 1 len of
          Inl e \<Rightarrow> Inl e
        | Inr (white, n') \<Rightarrow>
            if white = [] then Inl ValueError
            else
              (case np_fft N (map complex_of_real white) of
                 None \<Rightarrow> Inl LibraryError
               | Some fft \<Rightarrow>
                   if sr = 0 then Inl ZeroDivisionError
                   else
                     let freqs = fftfreq (nat len) (1 / real_of_int sr);
                         fft' = map2 (\<lambda>c f. c / complex_of_real (sqrt (\<bar>f\<bar> + 1))) fft freqs
                     in (case np_ifft N fft' of
                           None \<Rightarrow> Inl LibraryError
                         | Some pink \<Rightarrow> Inr (map (\<lambda>c. Re c * (1 / 10)) pink, n'))))"

text \<open>The \<open>for i in range(3)\<close> loop of \<open>_generate_rumble\<close>, over the remaining values of \<open>i\<close>.\<close>

fun rumble_loop ::
  "'n numpy \<Rightarrow> real \<Rightarrow> real list \<Rightarrow> nat list \<Rightarrow> audio \<times> 'n \<Rightarrow> audio \<times> 'n" where
  "rumble_loop N base_freq t [] st = st"
| "rumble_loop N base_freq t (i # is) (rumble, n) =
     (let freq = base_freq * (95 / 100 + real i * (5 / 100));
          (phase, n') = np_uniform N n 0 (2 * pi)
      in rumble_loop N base_freq t is
           (map2 (+) rumble (map (\<lambda>x. sin (2 * pi * freq * x + phase) / 3) t), n'))"

definition generate_rumble ::
  "'n numpy \<Rightarrow> 'r py_random \<Rightarrow> 'n \<Rightarrow> 'r \<Rightarrow> int \<Rightarrow> int \<Rightarrow> real \<Rightarrow> error + audio \<times> 'n \<times> 'r" where
  "generate_rumble N P n r len sr base_freq =
     (if sr = 0 then Inl ZeroDivisionError
      else if len < 0 then Inl ValueError
      else
        let t = linspace 0 (real_of_int len / real_of_int sr) (nat len);
            (rumble, n') = rumble_loop N base_freq t [0, 1, 2] (replicate (nat len) 0, n);
            (mod_freq, r') = py_uniform P r 5 15;
            modulator = map (\<lambda>x. 1 / 2 + 1 / 2 * sin (2 * pi * mod_freq * x)) t;
            rumble = map2 (*) rumble modulator
        in Inr (map (\<lambda>x. x * (3 / 10)) rumble, n', r'))"

text \<open>One bubble of \<open>_generate_bubbling\<close>: the sine, times its envelope.\<close>

definition bubble_wave :: "int \<Rightarrow> int \<Rightarrow> real \<Rightarrow> audio" where
  "bubble_wave sr bubble_length freq =
     (let t = linspace 0 (real_of_int bubble_length / real_of_int sr) (nat bubble_length);
          bubble = map (\<lambda>x. sin (2 * pi * freq * x)) t;
          envelope = map (\<lambda>x. exp (- x * 50)) t
      in map2 (*) bubble envelope)"

text \<open>The body of the loop over the bubbles.\<close>

definition bubble_step ::
  "'r py_random \<Rightarrow> int \<Rightarrow> int \<Rightarrow> audio \<times> 'r \<Rightarrow> error + audio \<times> 'r" where
  "bubble_step P len sr st =
     (case randint P (snd st) 0 (len - 1000) of
        Inl e \<Rightarrow> Inl e
      | Inr (pos, r1) \<Rightarrow>
          (case randint P r1 100 500 of
             Inl e \<Rightarrow> Inl e
           | Inr (bubble_length, r2) \<Rightarrow>
               let (freq, r3) = py_uniform P r2 300 1000
               in if sr = 0 then Inl ZeroDivisionError
                  else if bubble_length < 0 then Inl ValueError
                  else
                    let bubble = bubble_wave sr bubble_length freq;
                        end_pos = min (pos + bubble_length) len
                    in (case inplace_slice (+) (fst st) pos end_pos
                               (map (\<lambda>x. x * (1 / 10)) (py_prefix (end_pos - pos) bubble)) of
                          Inl e \<Rightarrow> Inl e
                        | Inr audio' \<Rightarrow> Inr (audio', r3))))"

fun bubbling_loop ::
  "'r py_random \<Rightarrow> int \<Rightarrow> int \<Rightarrow> nat \<Rightarrow> audio \<times> 'r \<Rightarrow> error + audio \<times> 'r" where
  "bubbling_loop P len sr 0 st = Inr st"
| "bubbling_loop P len sr (Suc k) st =
     (case bubble_step P len sr st of
        Inl e \<Rightarrow> Inl e
      | Inr st' \<Rightarrow> bubbling_loop P len sr k st')"

text \<open>\<open>_generate_bubbling\<close>; \<open>np.zeros\<close> raises \<open>ValueError\<close> on a negative length.\<close>

definition generate_bubbling ::
  "'r py_random \<Rightarrow> 'r \<Rightarrow> int \<Rightarrow> int \<Rightarrow> int \<Rightarrow> error + audio \<times> 'r" where
  "generate_bubbling P r len sr wetness_v =
     (if len < 0 then Inl ValueError
      else
        let audio = replicate (nat len) 0;
            num_bubbles = py_int (real_of_int (wetness_v * 5))
        in bubbling_loop P len sr (nat num_bubbles) (audio, r))"

text \<open>
  The position, length and frequency that the loop draws for each of \<open>k\<close> bubbles,
  from the generator state \<open>r\<close> on.
\<close>

fun bubble_draws :: "'r py_random \<Rightarrow> int \<Rightarrow> nat \<Rightarrow> 'r \<Rightarrow> (int \<times> int \<times> real) list" where
  "bubble_draws P len 0 r = []"
| "bubble_draws P len (Suc k) r =
     (let (pos, r1) = py_randint P r 0 (len - 1000);
          (bubble_length, r2) = py_randint P r1 100 500;
          (freq, r3) = py_uniform P r2 300 1000
      in (pos, bubble_length, freq) # bubble_draws P len k r3)"

text \<open>What one bubble, placed at \<open>pos\<close>, contributes to the sample at index \<open>i\<close>.\<close>

definition bubble_at :: "int \<Rightarrow> nat \<Rightarrow> int \<times> int \<times> real \<Rightarrow> real" where
  "bubble_at sr i b =
     (case b of (pos, bubble_length, freq) \<Rightarrow>
        if pos \<le> int i \<and> int i < pos + bubble_length
        then bubble_wave sr bubble_length freq ! nat (int i - pos) * (1 / 10) else 0)"

definition pitch_to_freq :: "int \<Rightarrow> real" where
  "pitch_to_freq pitch_v = 40 * 2 powr (real_of_int pitch_v / 5)"

text \<open>
  \<open>_generate_synthesis_layers\<close>: the layer set is a dictionary keyed by name. The
  number of samples is \<open>int(params.duration * sr)\<close>, the product of a float and an
  integer: a double.
\<close>

definition generate_synthesis_layers ::
  "'n numpy \<Rightarrow> 'r py_random \<Rightarrow> 'n \<Rightarrow> 'r \<Rightarrow> AudioParameters \<Rightarrow>
     error + (string \<rightharpoonup> audio) \<times> 'n \<times> 'r" where
  "generate_synthesis_layers N P n r p =
     (let sr = sample_rate p
      in if product_overflows (duration p) sr then Inl OverflowError
         else
           let duration_samples = py_int (double_product (duration p) sr);
               noise_type = (if wetness p > 5 then ''pink'' else ''white'')
           in case generate_noise N n duration_samples sr noise_type of
                Inl e \<Rightarrow> Inl e
              | Inr (noise, n1) \<Rightarrow>
                  (case generate_rumble N P n1 r duration_samples sr (pitch_to_freq (pitch p)) of
                     Inl e \<Rightarrow> Inl e
                   | Inr (rumble, n2, r1) \<Rightarrow>
                       let layers = [''noise'' \<mapsto> noise, ''rumble'' \<mapsto> rumble]
                       in if wetness p > 5 then
                            (case generate_bubbling P r1 duration_samples sr (wetness p) of
                               Inl e \<Rightarrow> Inl e
                             | Inr (bubbling, r2) \<Rightarrow>
                                 Inr (layers(''bubbling'' \<mapsto> bubbling), n2, r2))
                          else Inr (layers, n2, r1)))"

section \<open>Sample selection\<close>

text \<open>
  \<open>_select_and_load_samples\<close>, first three lines: the assets that are selected.
  \<open>random.randint\<close> raises \<open>ValueError\<close> on the empty range, \<open>random.sample\<close> when asked
  for more elements than the population has, or for a negative number of them.
\<close>

definition select_samples ::
  "'r py_random \<Rightarrow> ('s, 'r, 'n) engine \<Rightarrow> 'r \<Rightarrow> fart_type \<Rightarrow>
     error + ('s list \<times> int) list \<times> 'r" where
  "select_samples P E r t =
     (case sample_cache E t of
        None \<Rightarrow> Inl KeyError
      | Some samples \<Rightarrow>
          (case randint P r 1 (min 3 (int (length samples))) of
             Inl e \<Rightarrow> Inl e
           | Inr (num_samples, r1) \<Rightarrow>
               if num_samples < 0 \<or> int (length samples) < num_samples then Inl ValueError
               else
                 let (positions, r2) = py_sample P r1 (length samples) (nat num_samples)
                 in Inr (map (\<lambda>i. samples ! i) positions, r2)))"

text \<open>
  \<open>_select_and_load_samples\<close>: one selected sample is returned as it is, several are
  overlapped. The argument \<open>g\<close> holds the states of the two global generators.
\<close>

definition select_and_load_samples ::
  "'r py_random \<Rightarrow> ('s, 'r, 'n) engine \<Rightarrow> 'r \<times> 'n \<Rightarrow> fart_type \<Rightarrow>
     error + 's list \<times> 'r \<times> 'n" where
  "select_and_load_samples P E g t =
     (case select_samples P E (fst g) t of
        Inl e \<Rightarrow> Inl e
      | Inr (selected, r') \<Rightarrow>
          if length selected = 1 then Inr (fst (hd selected), r', snd g)
          else overlap_samples E selected (r', snd g))"

section \<open>Transform stage\<close>

text \<open>\<open>_apply_lowpass_filter\<close>: \<open>cutoff / nyquist\<close> divides by zero for \<open>sr = 0\<close>.\<close>

definition apply_lowpass_filter :: "'s dsp \<Rightarrow> 's list \<Rightarrow> real \<Rightarrow> int \<Rightarrow> error + 's list" where
  "apply_lowpass_filter D a cutoff sr =
     (let nyquist = real_of_int sr / 2
      in if nyquist = 0 then Inl ZeroDivisionError
         else
           let normalized_cutoff = cutoff / nyquist
           in (case butter_sosfilt D 4 normalized_cutoff a of
                 None \<Rightarrow> Inl LibraryError
               | Some a' \<Rightarrow> Inr a'))"

text \<open>
  \<open>_apply_transformations\<close>. The two divisions are Python divisions: \<open>len(audio) /
  sample_rate\<close> raises for a zero sample rate, \<open>duration / current_duration\<close> for an
  empty buffer.
\<close>

definition apply_transformations :: "'s dsp \<Rightarrow> 's list \<Rightarrow> AudioParameters \<Rightarrow> error + 's list" where
  "apply_transformations D a p =
     (if sample_rate p = 0 then Inl ZeroDivisionError
      else
        let current_duration = real (length a) / real_of_int (sample_rate p)
        in if current_duration = 0 then Inl ZeroDivisionError
           else
             let stretch_factor = duration p / current_duration
             in (case time_stretch D a stretch_factor of
                   None \<Rightarrow> Inl LibraryError
                 | Some a1 \<Rightarrow>
                     let pitch_shift_semitones = (pitch p - 5) * 2
                     in (case pitch_shift D a1 (sample_rate p) pitch_shift_semitones of
                           None \<Rightarrow> Inl LibraryError
                         | Some a2 \<Rightarrow>
                             if wetness p > 5 then
                               let cutoff_freq = 800 + (10 - wetness p) * 200
                               in apply_lowpass_filter D a2 (real_of_int cutoff_freq) (sample_rate p)
                             else Inr a2)))"

section \<open>Mixer\<close>

definition resize_audio :: "audio \<Rightarrow> nat \<Rightarrow> audio" where
  "resize_audio a target_length =
     (if length a = target_length then a
      else if length a < target_length then a @ replicate (target_length - length a) 0
      else take target_length a)"

text \<open>
  \<open>_mix_layers\<close>: every layer of the dictionary is resized, then the weighted sum.
  \<open>layers["noise"]\<close> raises \<open>KeyError\<close> when the key is missing. The method
  does not read its argument \<open>params\<close>, which is left out.
\<close>

definition mix_layers :: "audio \<Rightarrow> (string \<rightharpoonup> audio) \<Rightarrow> error + audio" where
  "mix_layers base layers =
     (let target_length = length base;
          layers' = (\<lambda>key. map_option (\<lambda>a. resize_audio a target_length) (layers key));
          mixed = map (\<lambda>x. x * (6 / 10)) base
      in case layers' ''noise'' of
           None \<Rightarrow> Inl KeyError
         | Some noise \<Rightarrow>
             let mixed = map2 (+) mixed (map (\<lambda>x. x * (15 / 100)) noise)
             in (case layers' ''rumble'' of
                   None \<Rightarrow> Inl KeyError
                 | Some rumble \<Rightarrow>
                     let mixed = map2 (+) mixed (map (\<lambda>x. x * (20 / 100)) rumble)
                     in (case layers' ''bubbling'' of
                           None \<Rightarrow> Inr mixed
                         | Some bubbling \<Rightarrow>
                             let mixed = map2 (+) mixed (map (\<lambda>x. x * (15 / 100)) bubbling)
                             in Inr (map (\<lambda>x. x * (8 / 10)) mixed))))"

section \<open>Post-processor\<close>

definition normalize :: "audio \<Rightarrow> real \<Rightarrow> error + audio" where
  "normalize a target_peak =
     (case abs_max a of
        Inl e \<Rightarrow> Inl e
      | Inr peak \<Rightarrow> if peak > 0 then Inr (map (\<lambda>x. x * (target_peak / peak)) a) else Inr a)"

text \<open>The soft limiter, \<open>np.tanh(audio * 1.2) * 0.9\<close>.\<close>

definition soft_limiter :: "audio \<Rightarrow> audio" where
  "soft_limiter a = map (\<lambda>x. tanh (x * (12 / 10)) * (9 / 10)) a"

text \<open>
  \<open>_apply_fade\<close>: \<open>audio[:fade_samples] *= fade_in\<close>, then \<open>audio[-fade_samples:] *=
  fade_out\<close>. \<open>np.linspace\<close> raises \<open>ValueError\<close> on a negative count.
\<close>

definition apply_fade :: "audio \<Rightarrow> int \<Rightarrow> error + audio" where
  "apply_fade a fade_samples =
     (if fade_samples < 0 then Inl ValueError
      else
        let fade_in = linspace 0 1 (nat fade_samples);
            fade_out = linspace 1 0 (nat fade_samples)
        in case inplace_slice (*) a 0 fade_samples fade_in of
             Inl e \<Rightarrow> Inl e
           | Inr a' \<Rightarrow> inplace_slice (*) a' (- fade_samples) (int (length a')) fade_out)"

text \<open>
  \<open>signal.convolve(a, v, mode='same')\<close>: the full convolution, of which the centred
  \<open>len(a)\<close> samples are kept.
\<close>

definition convolve_full :: "audio \<Rightarrow> audio \<Rightarrow> audio" where
  "convolve_full a v =
     map (\<lambda>j. \<Sum>k\<leftarrow>[0..<length a]. if k \<le> j \<and> j - k < length v then a ! k * v ! (j - k) else 0)
       [0..<length a + length v - 1]"

definition convolve_same :: "audio \<Rightarrow> audio \<Rightarrow> audio" where
  "convolve_same a v = take (length a) (drop ((length v - 1) div 2) (convolve_full a v))"

text \<open>
  \<open>_apply_reverb\<close>. The behaviour of scipy on an empty operand is not modelled: it is
  reported as a library failure. The post-processor never gets there, its buffer is
  not empty after \<open>_normalize\<close> and the fade has failed unless \<open>int(0.05 * sr) \<ge> 1\<close>.
\<close>

definition apply_reverb ::
  "'n numpy \<Rightarrow> 'n \<Rightarrow> audio \<Rightarrow> real \<Rightarrow> int \<Rightarrow> error + audio \<times> 'n" where
  "apply_reverb N n a amount sr =
     (let ir_length = py_int (5 / 10 * real_of_int sr)
      in case np_normal N n 0 1 ir_length of
           Inl e \<Rightarrow> Inl e
         | Inr (ir, n') \<Rightarrow>
             let decay = map (\<lambda>k. exp (- real k / (real_of_int sr * (2 / 10)))) [0..<nat ir_length];
                 ir = map2 (*) ir decay
             in if a = [] \<or> ir = [] then Inl LibraryError
                else
                  let reverb = map (\<lambda>x. x * amount) (convolve_same a ir)
                  in Inr (map2 (+) (map (\<lambda>x. x * (1 - amount)) a) (map (\<lambda>x. x * amount) reverb), n'))"

definition post_process ::
  "'n numpy \<Rightarrow> 'n \<Rightarrow> audio \<Rightarrow> AudioParameters \<Rightarrow> error + audio \<times> 'n" where
  "post_process N n a p =
     (case normalize a (95 / 100) of
        Inl e \<Rightarrow> Inl e
      | Inr a1 \<Rightarrow>
          let a2 = soft_limiter a1;
              fade_samples = py_int (5 / 100 * real_of_int (sample_rate p))
          in (case apply_fade a2 fade_samples of
                Inl e \<Rightarrow> Inl e
              | Inr a3 \<Rightarrow>
                  if reverb_amount p > 0 then apply_reverb N n a3 (reverb_amount p) (sample_rate p)
                  else Inr (a3, n)))"

section \<open>The post-processor in double precision\<close>

text \<open>\<open>np.abs(audio).max()\<close> on doubles.\<close>

definition abs_max_f64 :: "fsample list \<Rightarrow> error + fsample" where
  "abs_max_f64 a =
     (if a = [] then Inl ValueError
      else Inr (foldl f64_maximum (f64_abs (hd a)) (map f64_abs (tl a))))"

text \<open>\<open>_normalize\<close>: \<open>peak > 0\<close> is false for a NaN peak.\<close>

definition normalize_f64 :: "fsample list \<Rightarrow> real \<Rightarrow> error + fsample list" where
  "normalize_f64 a target_peak =
     (case abs_max_f64 a of
        Inl e \<Rightarrow> Inl e
      | Inr peak \<Rightarrow>
          if f64_less (Finite 0) peak
          then Inr (map (\<lambda>x. f64_mul x (f64_div (Finite target_peak) peak)) a)
          else Inr a)"

text \<open>The soft limiter, \<open>np.tanh(audio * 1.2) * 0.9\<close>, with the doubles 1.2 and 0.9.\<close>

definition soft_limiter_f64 :: "fsample list \<Rightarrow> fsample list" where
  "soft_limiter_f64 a =
     map (\<lambda>x. f64_mul (f64_tanh (f64_mul x (Finite (fl64 (12 / 10))))) (Finite (fl64 (9 / 10)))) a"

definition apply_fade_f64 :: "fsample list \<Rightarrow> int \<Rightarrow> error + fsample list" where
  "apply_fade_f64 a fade_samples =
     (if fade_samples < 0 then Inl ValueError
      else
        let fade_in = map Finite (linspace_f64 0 1 (nat fade_samples));
            fade_out = map Finite (linspace_f64 1 0 (nat fade_samples))
        in case inplace_slice f64_mul a 0 fade_samples fade_in of
             Inl e \<Rightarrow> Inl e
           | Inr a' \<Rightarrow> inplace_slice f64_mul a' (- fade_samples) (int (length a')) fade_out)"

text \<open>
  \<open>_post_process\<close> on doubles. The reverb, which draws from NumPy's generator, is the
  parameter \<open>reverb\<close>; \<open>int(0.05 * params.sample_rate)\<close> is the product of the double
  0.05 and an integer.
\<close>

definition post_process_f64 ::
  "(fsample list \<Rightarrow> real \<Rightarrow> int \<Rightarrow> error + fsample list) \<Rightarrow> fsample list \<Rightarrow> AudioParameters \<Rightarrow>
     error + fsample list" where
  "post_process_f64 reverb a p =
     (case normalize_f64 a (fl64 (95 / 100)) of
        Inl e \<Rightarrow> Inl e
      | Inr a1 \<Rightarrow>
          let a2 = soft_limiter_f64 a1
          in if product_overflows (fl64 (5 / 100)) (sample_rate p) then Inl OverflowError
             else
               let fade_samples = py_int (double_product (fl64 (5 / 100)) (sample_rate p))
               in (case apply_fade_f64 a2 fade_samples of
                     Inl e \<Rightarrow> Inl e
                   | Inr a3 \<Rightarrow>
                       if reverb_amount p > 0 then reverb a3 (reverb_amount p) (sample_rate p)
                       else Inr a3))"

text \<open>
  A sample is within the peak \<open>c\<close> when it is finite and its absolute value is at most
  \<open>c\<close>; NaN, which compares with nothing, is not counted against the peak.
\<close>

fun peak_within :: "real \<Rightarrow> fsample \<Rightarrow> bool" where
  "peak_within c (Finite x) = (\<bar>x\<bar> \<le> c)"
| "peak_within c NaN = True"
| "peak_within c PosInf = False"
| "peak_within c NegInf = False"

section \<open>The pipeline\<close>

text \<open>
  \<open>generate\<close>. The two generators are global objects of the process: the call receives
  them in the state \<open>g\<close> in which earlier calls have left them, and its first two
  statements seed them, \<open>np.random.seed\<close> on the state of NumPy's generator and
  \<open>random.seed\<close> on the state of Python's. \<open>np.random.seed\<close> accepts the seeds from 0
  to \<open>2**32 - 1\<close> and raises \<open>ValueError\<close> on any other. Every draw of the stages that
  follow starts from the two seeded states. No statement of the engine writes to the
  arrays of the cache: the transforms, the mixer and the limiter allocate their
  results, and \<open>_apply_fade\<close> writes to the array that the limiter has just allocated;
  the calls to librosa, scipy and \<open>np.fft\<close> are functions of their arguments. The
  result carries the states of the generators after a render that returns.
\<close>

definition generate ::
  "'r py_random \<Rightarrow> 'n numpy \<Rightarrow> real dsp \<Rightarrow> (real, 'r, 'n) engine \<Rightarrow> 'r \<times> 'n \<Rightarrow>
     AudioParameters \<Rightarrow> error + (audio \<times> int) \<times> 'r \<times> 'n" where
  "generate P N D E g p =
     (if randomness_seed p < 0 \<or> 2 ^ 32 \<le> randomness_seed p then Inl ValueError
      else
        let n = np_seed N (randomness_seed p) (snd g);
            r = py_seed P (randomness_seed p) (fst g)
        in case select_and_load_samples P E (r, n) (ptype p) of
             Inl e \<Rightarrow> Inl e
           | Inr (base_audio, r1, n0) \<Rightarrow>
               (case generate_synthesis_layers N P n0 r1 p of
                  Inl e \<Rightarrow> Inl e
                | Inr (synthesis_layers, n1, r2) \<Rightarrow>
                    (case apply_transformations D base_audio p of
                       Inl e \<Rightarrow> Inl e
                     | Inr base_audio' \<Rightarrow>
                         (case mix_layers base_audio' synthesis_layers of
                            Inl e \<Rightarrow> Inl e
                          | Inr mixed_audio \<Rightarrow>
                              (case post_process N n1 mixed_audio p of
                                 Inl e \<Rightarrow> Inl e
                               | Inr (final_audio, n2) \<Rightarrow>
                                   Inr ((final_audio, sample_rate p), r2, n2))))))"

section \<open>Instances of the libraries and inputs\<close>

text \<open>
  A generator whose state counts the draws made since it was seeded: \<open>seed\<close> sets the
  count from the seed, \<open>randint\<close> walks through its range, \<open>uniform\<close> gives the
  midpoint, \<open>sample\<close> gives \<open>k\<close> successive positions from the one the count points
  to, around the population.
\<close>

definition counter_random :: "nat py_random" where
  "counter_random =
     \<lparr>py_seed = (\<lambda>s r. nat \<bar>s\<bar>),
      py_randint = (\<lambda>r a b. (a + int r mod (b - a + 1), Suc r)),
      py_uniform = (\<lambda>r a b. ((a + b) / 2, Suc r)),
      py_sample = (\<lambda>r n k. (map (\<lambda>i. (i + r) mod n) [0..<k], Suc r))\<rparr>"

text \<open>
  A NumPy whose every standard normal draw is \<open>z\<close> and whose transforms return their
  argument (only the values of the normal draws matter where it is used).
\<close>

definition constant_numpy :: "real \<Rightarrow> nat numpy" where
  "constant_numpy z =
     \<lparr>np_seed = (\<lambda>s n. nat \<bar>s\<bar>),
      np_gauss = (\<lambda>n. (z, Suc n)),
      np_uniform = (\<lambda>n a b. ((a + b) / 2, Suc n)),
      np_fft = (\<lambda>xs. Some xs),
      np_ifft = (\<lambda>xs. Some xs)\<rparr>"

text \<open>
  A NumPy whose standard normal draws are the first five that \<open>np.random.seed(42)\<close>
  gives, to four decimal places, over and over; its state is the number of draws made
  since it was seeded, and its transforms return their argument.
\<close>

definition seed_42_draws :: "real list" where
  "seed_42_draws = [4967 / 10000, - (1383 / 10000), 6477 / 10000, 15230 / 10000, - (2342 / 10000)]"

definition table_numpy :: "nat numpy" where
  "table_numpy =
     \<lparr>np_seed = (\<lambda>s n. 0),
      np_gauss = (\<lambda>n. (seed_42_draws ! (n mod 5), Suc n)),
      np_uniform = (\<lambda>n a b. ((a + b) / 2, Suc n)),
      np_fft = (\<lambda>xs. Some xs),
      np_ifft = (\<lambda>xs. Some xs)\<rparr>"

text \<open>
  A signal library that has the documented lengths and nothing else: stretching
  truncates or pads with silence, shifting and filtering return the buffer.
\<close>

definition plain_dsp :: "real dsp" where
  "plain_dsp =
     \<lparr>time_stretch = (\<lambda>y rate.
        if rate \<le> 0 then None
        else Some (resize_audio y (nat (py_round (real (length y) / rate))))),
      pitch_shift = (\<lambda>y sr n. Some y),
      butter_sosfilt = (\<lambda>ord wn y. if 0 < wn \<and> wn < 1 then Some y else None)\<rparr>"

text \<open>A signal library on doubles whose pitch shift overflows.\<close>

definition overflowing_dsp :: "fsample dsp" where
  "overflowing_dsp =
     \<lparr>time_stretch = (\<lambda>y rate. if rate \<le> 0 then None else Some y),
      pitch_shift = (\<lambda>y sr n. Some (map (\<lambda>x. PosInf) y)),
      butter_sosfilt = (\<lambda>ord wn y. Some y)\<rparr>"

text \<open>
  An engine whose cache holds two samples, one short sample, one sample of a second and
  no sample under four of the types, with an overlap that follows the specification
  (section 4.3, step 1: aligned at time 0, summed, scaled by \<open>1/count\<close>), shorter
  samples counting as silence past their end.
\<close>

definition mean_overlap :: "(audio \<times> int) list \<Rightarrow> error + audio" where
  "mean_overlap selected =
     (if selected = [] then Inl ValueError
      else Inr (map (\<lambda>i. (\<Sum>s\<leftarrow>selected. if i < length (fst s) then fst s ! i else 0)
                           / real (length selected))
                  [0..<Max (set (map (\<lambda>s. length (fst s)) selected))]))"

definition small_engine :: "(real, nat, nat) engine" where
  "small_engine =
     \<lparr>sample_cache =
        [classic \<mapsto> [([1, -1, 1, -1], 44100), ([1 / 2, 1 / 2], 44100)],
         wet \<mapsto> [([1, 0, -1], 44100)],
         rumbler \<mapsto> [(replicate 44100 (1 / 2), 44100)],
         squeaker \<mapsto> []],
      overlap_samples =
        (\<lambda>selected g. case mean_overlap selected of Inl e \<Rightarrow> Inl e | Inr a \<Rightarrow> Inr (a, g))\<rparr>"

text \<open>Scenarios A and C of the specification (section 8), at the default sample rate.\<close>

definition scenario_a :: AudioParameters where
  "scenario_a =
     \<lparr>duration = 45 / 10, wetness = 3, pitch = 2, ptype = rumbler, reverb_amount = 0,
      distortion = 0, randomness_seed = 42, sample_rate = 44100\<rparr>"

definition scenario_c :: AudioParameters where
  "scenario_c =
     \<lparr>duration = 3, wetness = 9, pitch = 4, ptype = wet, reverb_amount = 0,
      distortion = 0, randomness_seed = 1, sample_rate = 44100\<rparr>"

text \<open>
  Parameters at the threshold of the bubbling generator: the duration is the double
  \<open>0x1.3fccd4fca4609p-1\<close> (0.6246096189881324), whose exact product with 1601 is just
  below 1000 and whose product in double precision is 1000.
\<close>

definition threshold_params :: AudioParameters where
  "threshold_params =
     \<lparr>duration = 5625983294653961 / 2 ^ 53, wetness = 10, pitch = 5, ptype = rumbler,
      reverb_amount = 0, distortion = 0, randomness_seed = 7, sample_rate = 1601\<rparr>"

text \<open>A reverb that is never reached on a dry render.\<close>

definition no_reverb :: "fsample list \<Rightarrow> real \<Rightarrow> int \<Rightarrow> error + fsample list" where
  "no_reverb a amount sr = Inl LibraryError"

section \<open>Rounding to double precision\<close>

lemma py_round_of_int: "py_round (real_of_int k) = k"
  by (simp add: py_round_def)

lemma py_round_numeral: "py_round (numeral k) = numeral k"
  using py_round_of_int [of "numeral k"] by simp

lemma py_round_near: "real_of_int (py_round a) - 1 / 2 \<le> a \<and> a \<le> real_of_int (py_round a) + 1 / 2"
  unfolding py_round_def Let_def by (auto; linarith)

lemma py_round_mono: "a \<le> b \<Longrightarrow> py_round a \<le> py_round b"
proof (rule ccontr)
  assume ab: "a \<le> b" and "\<not> py_round a \<le> py_round b"
  then have gt: "py_round b + 1 \<le> py_round a" by simp
  then have r: "real_of_int (py_round b) + 1 \<le> real_of_int (py_round a)"
    by (metis of_int_1 of_int_add of_int_le_iff)
  have "a = b" and h: "a = real_of_int (py_round b) + 1 / 2"
    using py_round_near [of a] py_round_near [of b] ab r by linarith+
  then have "py_round a = py_round b" by simp
  with gt show False by simp
qed

lemma py_round_minus: "py_round (- a) = - py_round a"
proof (cases "a = real_of_int \<lfloor>a\<rfloor>")
  case True
  then have "py_round (- a) = py_round (real_of_int (- \<lfloor>a\<rfloor>))" by simp
  also have "\<dots> = - \<lfloor>a\<rfloor>" by (simp only: py_round_of_int)
  also have "\<dots> = - py_round (real_of_int \<lfloor>a\<rfloor>)" by (simp only: py_round_of_int)
  finally show ?thesis using True by simp
next
  case False
  then have c: "\<lceil>a\<rceil> = \<lfloor>a\<rfloor> + 1"
    by (metis ceiling_altdef)
  have f: "\<lfloor>- a\<rfloor> = - \<lfloor>a\<rfloor> - 1"
    using c by (simp add: ceiling_def)
  show ?thesis
    unfolding py_round_def Let_def f
    by (auto simp: algebra_simps) 
qed

lemma fl64_alt:
  "x \<noteq> 0 \<Longrightarrow> fl64 x = real_of_int (py_round (x / 2 powr (real_of_int (f64_exponent x) - 52)))
      * 2 powr (real_of_int (f64_exponent x) - 52)"
  by (simp add: fl64_def f64_exponent_def Let_def)

lemma fl64_minus: "fl64 (- x) = - fl64 x"
  by (simp add: fl64_def f64_exponent_def Let_def py_round_minus)

lemma fl64_eval:
  assumes "2 powr real_of_int e \<le> \<bar>x\<bar>" and "\<bar>x\<bar> < 2 powr (real_of_int e + 1)" and "- 1022 \<le> e"
  shows "fl64 x = real_of_int (py_round (x / 2 powr (real_of_int e - 52))) * 2 powr (real_of_int e - 52)"
proof -
  have pos: "0 < \<bar>x\<bar>" using assms(1) by (smt (verit) powr_gt_zero)
  then have x: "x \<noteq> 0" by auto
  have "\<lfloor>log 2 \<bar>x\<bar>\<rfloor> = e"
    using assms(1,2) pos by (simp add: floor_log_eq_powr_iff)
  then have "f64_exponent x = e" using assms(3) by (simp add: f64_exponent_def)
  then show ?thesis using fl64_alt [OF x] by simp
qed

lemma fl64_nonneg: "0 \<le> x \<Longrightarrow> 0 \<le> fl64 x"
proof (cases "x = 0")
  case True then show ?thesis by (simp add: fl64_def)
next
  case False
  assume "0 \<le> x"
  then have "0 \<le> x / 2 powr (real_of_int (f64_exponent x) - 52)" by simp
  then have "py_round 0 \<le> py_round (x / 2 powr (real_of_int (f64_exponent x) - 52))"
    by (rule py_round_mono)
  moreover have "py_round 0 = 0" using py_round_of_int [of 0] by simp
  ultimately show ?thesis using fl64_alt [OF False] by simp
qed

lemma f64_exponent_mono:
  assumes "0 < x" and "x \<le> y"
  shows "f64_exponent x \<le> f64_exponent y"
proof -
  have "log 2 \<bar>x\<bar> \<le> log 2 \<bar>y\<bar>" using assms by simp
  then have "\<lfloor>log 2 \<bar>x\<bar>\<rfloor> \<le> \<lfloor>log 2 \<bar>y\<bar>\<rfloor>" by (rule floor_mono)
  then show ?thesis by (simp add: f64_exponent_def)
qed

lemma f64_exponent_upper:
  assumes "0 < x"
  shows "x < 2 powr (real_of_int (f64_exponent x) + 1)"
proof -
  have "x < 2 powr (real_of_int \<lfloor>log 2 \<bar>x\<bar>\<rfloor> + 1)"
    using assms floor_log_eq_powr_iff [of "\<bar>x\<bar>" 2 "\<lfloor>log 2 \<bar>x\<bar>\<rfloor>"] by simp
  also have "\<dots> \<le> 2 powr (real_of_int (f64_exponent x) + 1)"
    by (simp add: f64_exponent_def)
  finally show ?thesis .
qed

lemma f64_exponent_lower:
  assumes "0 < x" and "- 1022 < f64_exponent x"
  shows "2 powr real_of_int (f64_exponent x) \<le> x"
proof -
  from assms(2) have "f64_exponent x = \<lfloor>log 2 \<bar>x\<bar>\<rfloor>"
    by (auto simp: f64_exponent_def max_def split: if_splits)
  then show ?thesis
    using assms(1) floor_log_eq_powr_iff [of "\<bar>x\<bar>" 2 "\<lfloor>log 2 \<bar>x\<bar>\<rfloor>"] by simp
qed

lemma py_round_le_int: "a \<le> real_of_int k \<Longrightarrow> py_round a \<le> k"
  using py_round_mono [of a "real_of_int k"] by (simp add: py_round_of_int)

lemma py_round_ge_int: "real_of_int k \<le> a \<Longrightarrow> k \<le> py_round a"
  using py_round_mono [of "real_of_int k" a] by (simp add: py_round_of_int)

lemma fl64_upper:
  assumes "0 < x"
  shows "fl64 x \<le> 2 powr (real_of_int (f64_exponent x) + 1)"
proof -
  let ?e = "real_of_int (f64_exponent x)"
  have "x / 2 powr (?e - 52) \<le> 2 powr (?e + 1) / 2 powr (?e - 52)"
    using f64_exponent_upper [OF assms] by (simp add: divide_right_mono)
  also have "\<dots> = 2 powr 53" by (simp add: powr_diff [symmetric])
  also have "\<dots> = real_of_int (2 ^ 53)" by simp
  finally have "py_round (x / 2 powr (?e - 52)) \<le> 2 ^ 53" by (rule py_round_le_int)
  then have "real_of_int (py_round (x / 2 powr (?e - 52))) \<le> 2 powr 53"
    by (metis of_int_le_iff of_int_numeral of_int_power powr_numeral zero_le_numeral)
  then have "real_of_int (py_round (x / 2 powr (?e - 52))) * 2 powr (?e - 52)
      \<le> 2 powr 53 * 2 powr (?e - 52)"
    by (intro mult_right_mono) auto
  also have "\<dots> = 2 powr (?e + 1)" by (subst powr_add [symmetric]) (simp add: add.commute)
  finally show ?thesis using fl64_alt [of x] assms by simp
qed

lemma fl64_lower:
  assumes "0 < x" and "- 1022 < f64_exponent x"
  shows "2 powr real_of_int (f64_exponent x) \<le> fl64 x"
proof -
  let ?e = "real_of_int (f64_exponent x)"
  have "2 powr ?e / 2 powr (?e - 52) \<le> x / 2 powr (?e - 52)"
    using f64_exponent_lower [OF assms] by (simp add: divide_right_mono)
  moreover have "2 powr ?e / 2 powr (?e - 52) = 2 powr 52" by (simp add: powr_diff [symmetric])
  moreover have "2 powr 52 = real_of_int (2 ^ 52)" by simp
  ultimately have "real_of_int (2 ^ 52) \<le> x / 2 powr (?e - 52)" by simp
  then have "2 ^ 52 \<le> py_round (x / 2 powr (?e - 52))" by (rule py_round_ge_int)
  then have A: "2 powr 52 \<le> real_of_int (py_round (x / 2 powr (?e - 52)))"
    by (metis of_int_le_iff of_int_numeral of_int_power powr_numeral zero_le_numeral)
  have "2 powr ?e = 2 powr 52 * 2 powr (?e - 52)"
    by (subst powr_add [symmetric]) simp
  also have "\<dots> \<le> real_of_int (py_round (x / 2 powr (?e - 52))) * 2 powr (?e - 52)"
    using A by (intro mult_right_mono) auto
  also have "\<dots> = fl64 x"
    using fl64_alt [of x] assms by simp
  finally show ?thesis .
qed

lemma fl64_mono_pos:
  assumes "0 < x" and "x \<le> y"
  shows "fl64 x \<le> fl64 y"
proof (cases "f64_exponent x = f64_exponent y")
  case True
  let ?u = "2 powr (real_of_int (f64_exponent y) - 52)"
  have "x / ?u \<le> y / ?u" using assms by (simp add: divide_right_mono)
  then have "py_round (x / ?u) \<le> py_round (y / ?u)" by (rule py_round_mono)
  then have "real_of_int (py_round (x / ?u)) * ?u \<le> real_of_int (py_round (y / ?u)) * ?u"
    by (intro mult_right_mono) auto
  then show ?thesis using fl64_alt [of x] fl64_alt [of y] assms True by simp
next
  case False
  with f64_exponent_mono [OF assms] have lt: "f64_exponent x < f64_exponent y" by simp
  have y: "0 < y" using assms by simp
  have "- 1022 \<le> f64_exponent x" by (simp add: f64_exponent_def)
  with lt have ny: "- 1022 < f64_exponent y" by simp
  have "fl64 x \<le> 2 powr (real_of_int (f64_exponent x) + 1)" by (rule fl64_upper [OF assms(1)])
  also have "\<dots> \<le> 2 powr real_of_int (f64_exponent y)"
    using lt by (intro powr_mono) auto
  also have "\<dots> \<le> fl64 y" by (rule fl64_lower [OF y ny])
  finally show ?thesis .
qed

lemma fl64_mono: "x \<le> y \<Longrightarrow> fl64 x \<le> fl64 y"
proof -
  assume xy: "x \<le> y"
  consider "0 < x" | "x \<le> 0" "0 \<le> y" | "y < 0" by linarith
  then show ?thesis
  proof cases
    case 1
    then show ?thesis using xy by (rule fl64_mono_pos)
  next
    case 2
    have "fl64 (- x) \<ge> 0" using 2 by (intro fl64_nonneg) simp
    then have "fl64 x \<le> 0" by (simp add: fl64_minus)
    also have "0 \<le> fl64 y" using 2 by (intro fl64_nonneg)
    finally show ?thesis .
  next
    case 3
    then have "fl64 (- y) \<le> fl64 (- x)" using xy by (intro fl64_mono_pos) auto
    then show ?thesis by (simp add: fl64_minus)
  qed
qed

lemma fl64_0: "fl64 0 = 0" by (simp add: fl64_def)

lemma fl64_1: "fl64 1 = 1"
  using fl64_eval [of 0 1] by (simp add: powr_neg_numeral py_round_numeral)

lemma fl64_9_10: "fl64 (9 / 10) = 8106479329266893 / 2 ^ 53"
  using fl64_eval [of "- 1" "9 / 10"] by (simp add: powr_neg_numeral py_round_def)

lemma fl64_12_10: "fl64 (12 / 10) = 5404319552844595 / 2 ^ 52"
  using fl64_eval [of 0 "12 / 10"] by (simp add: powr_neg_numeral py_round_def)

lemma fl64_95_100: "fl64 (95 / 100) = 8556839292003942 / 2 ^ 53"
  using fl64_eval [of "- 1" "95 / 100"] by (simp add: powr_neg_numeral py_round_def)

lemma fl64_5_100: "fl64 (5 / 100) = 3602879701896397 / 2 ^ 56"
  using fl64_eval [of "- 5" "5 / 100"] by (simp add: powr_neg_numeral py_round_def)

lemma fl64_c09_fix: "fl64 (8106479329266893 / 2 ^ 53) = 8106479329266893 / 2 ^ 53"
  using fl64_eval [of "- 1" "8106479329266893 / 2 ^ 53"] by (simp add: powr_neg_numeral py_round_numeral)

lemma fl64_1601: "fl64 1601 = 1601"
  using fl64_eval [of 10 1601] by (simp add: powr_neg_numeral py_round_numeral)

lemma fl64_20: "fl64 20 = 20"
  using fl64_eval [of 4 20] by (simp add: powr_neg_numeral py_round_numeral)

lemma fl64_44100: "fl64 44100 = 44100"
  using fl64_eval [of 15 44100] by (simp add: powr_neg_numeral py_round_numeral)

lemma py_round_unique:
  assumes "real_of_int k - 1 / 2 < a" and "a < real_of_int k + 1 / 2"
  shows "py_round a = k"
proof -
  have "real_of_int (py_round a) < real_of_int k + 1" "real_of_int k - 1 < real_of_int (py_round a)"
    using py_round_near [of a] assms by linarith+
  then have "py_round a < k + 1" "k - 1 < py_round a"
    by linarith+
  then show ?thesis by simp
qed

lemma square_step:
  fixes a b x :: real
  assumes "a \<le> x ^ n" and "b \<le> a * a" and "0 \<le> a"
  shows "b \<le> x ^ (2 * n)"
proof -
  have "a * a \<le> x ^ n * x ^ n" using assms(1,3) by (intro mult_mono) auto
  also have "\<dots> = x ^ (2 * n)" by (simp add: power_add [symmetric] mult_2)
  finally show ?thesis using assms(2) by simp
qed

lemma pow_bound: "(2 :: real) ^ 55 \<le> (1161135 / 1000000) ^ 256"
proof -
  let ?c = "1161135 / 1000000 :: real"
  have 0: "?c \<le> ?c ^ 1" by simp
  have 1: "134823448 / 100000000 \<le> ?c ^ (2 * 1)" by (rule square_step [OF 0]) simp_all
  have 2: "181773621 / 100000000 \<le> ?c ^ (2 * (2 * 1))" by (rule square_step [OF 1]) simp_all
  have 3: "330416492 / 100000000 \<le> ?c ^ (2 * (2 * (2 * 1)))" by (rule square_step [OF 2]) simp_all
  have 4: "109175058 / 10000000 \<le> ?c ^ (2 * (2 * (2 * (2 * 1))))"
    by (rule square_step [OF 3]) simp_all
  have 5: "119191932 / 1000000 \<le> ?c ^ (2 * (2 * (2 * (2 * (2 * 1)))))"
    by (rule square_step [OF 4]) simp_all
  have 6: "142067166 / 10000 \<le> ?c ^ (2 * (2 * (2 * (2 * (2 * (2 * 1))))))"
    by (rule square_step [OF 5]) simp_all
  have 7: "201830796 \<le> ?c ^ (2 * (2 * (2 * (2 * (2 * (2 * (2 * 1)))))))"
    by (rule square_step [OF 6]) simp_all
  have 8: "2 ^ 55 \<le> ?c ^ (2 * (2 * (2 * (2 * (2 * (2 * (2 * (2 * 1))))))))"
    by (rule square_step [OF 7]) simp_all
  then show ?thesis by simp
qed

lemma exp_38_lower: "2 ^ 55 \<le> exp (5404319552844595 / 2 ^ 47 :: real)"
proof -
  have c: "(1161135 / 1000000 :: real) \<le> exp (1499 / 10000)"
    using exp_lower_Taylor_quadratic [of "1499 / 10000 :: real"] by (simp add: power2_eq_square)
  have "(2 :: real) ^ 55 \<le> (1161135 / 1000000) ^ 256" by (rule pow_bound)
  also have "\<dots> \<le> exp (1499 / 10000) ^ 256"
    using c by (intro power_mono) auto
  also have "\<dots> = exp (of_nat 256 * (1499 / 10000))"
    by (simp only: exp_of_nat_mult)
  also have "\<dots> \<le> exp (5404319552844595 / 2 ^ 47)"
    by simp
  finally show ?thesis .
qed

lemma tanh_saturates: "fl64 (tanh (5404319552844595 / 2 ^ 48)) = 1"
proof -
  define y :: real where "y = 5404319552844595 / 2 ^ 48"
  define u :: real where "u = exp (- (2 * y))"
  have "2 ^ 55 \<le> exp (2 * y)" using exp_38_lower by (simp add: y_def)
  then have "inverse (exp (2 * y)) \<le> inverse (2 ^ 55)"
    by (intro le_imp_inverse_le) auto
  then have u: "u \<le> 1 / 2 ^ 55" by (simp add: u_def exp_minus inverse_eq_divide)
  have u0: "0 < u" by (simp add: u_def)
  have t: "tanh y = (1 - u) / (1 + u)" by (simp add: tanh_real_altdef u_def)
  have lo: "1 - 1 / 2 ^ 54 < tanh y"
  proof -
    have "(1 - 2 * u) * (1 + u) < 1 - u" using u0 by (simp add: algebra_simps)
    then have a: "1 - 2 * u < (1 - u) / (1 + u)" using u0 by (simp add: pos_less_divide_eq)
    have "(1 :: real) - 1 / 2 ^ 54 \<le> 1 - 2 * u" using u by simp
    with a show ?thesis unfolding t by linarith
  qed
  have hi: "tanh y < 1" by (rule tanh_real_lt_1)
  have r: "py_round (tanh y * 2 ^ 53) = 2 ^ 53"
  proof (rule py_round_unique)
    have "(1 - 1 / 2 ^ 54) * 2 ^ 53 < tanh y * 2 ^ 53"
      using lo by (intro mult_strict_right_mono) auto
    then show "real_of_int (2 ^ 53) - 1 / 2 < tanh y * 2 ^ 53" by simp
    have "tanh y * 2 ^ 53 < 1 * 2 ^ 53"
      using hi by (intro mult_strict_right_mono) auto
    then show "tanh y * 2 ^ 53 < real_of_int (2 ^ 53) + 1 / 2" by simp
  qed
  have "(1 :: real) / 2 \<le> 1 - 1 / 2 ^ 54" by simp
  with lo have h: "1 / 2 \<le> tanh y" by linarith
  have "fl64 (tanh y) = real_of_int (py_round (tanh y / 2 powr (real_of_int (- 1) - 52)))
      * 2 powr (real_of_int (- 1) - 52)"
    using h hi by (intro fl64_eval) (simp_all add: powr_neg_numeral)
  also have "tanh y / 2 powr (real_of_int (- 1) - 52) = tanh y * 2 ^ 53"
    by (simp add: powr_neg_numeral)
  finally have "fl64 (tanh y) = real_of_int (2 ^ 53) * 2 powr (real_of_int (- 1) - 52)"
    unfolding r .
  then have "fl64 (tanh y) = 1" by (simp add: powr_neg_numeral)
  then show ?thesis unfolding y_def .
qed

section \<open>The mixer\<close>

lemma length_resize_audio: "length (resize_audio a n) = n"
  by (simp add: resize_audio_def)

lemma resize_audio_pad_truncate: "resize_audio a n = take n a @ replicate (n - length a) 0"
  by (simp add: resize_audio_def)

lemma nth_resize_audio:
  "i < n \<Longrightarrow> resize_audio a n ! i = (if i < length a then a ! i else 0)"
  by (auto simp: resize_audio_def nth_append)

lemma mix_layers_dry:
  assumes "layers ''noise'' = Some noise" and "layers ''rumble'' = Some rumble"
    and "layers ''bubbling'' = None"
  shows "mix_layers base layers =
     Inr (map (\<lambda>i. 6 / 10 * base ! i + 15 / 100 * resize_audio noise (length base) ! i
                   + 20 / 100 * resize_audio rumble (length base) ! i) [0..<length base])"
  using assms
  by (auto simp: mix_layers_def Let_def length_resize_audio intro!: nth_equalityI)

lemma mix_layers_wet:
  assumes "layers ''noise'' = Some noise" and "layers ''rumble'' = Some rumble"
    and "layers ''bubbling'' = Some bubbling"
  shows "mix_layers base layers =
     Inr (map (\<lambda>i. (6 / 10 * base ! i + 15 / 100 * resize_audio noise (length base) ! i
                   + 20 / 100 * resize_audio rumble (length base) ! i
                   + 15 / 100 * resize_audio bubbling (length base) ! i) * (8 / 10))
            [0..<length base])"
  using assms
  by (auto simp: mix_layers_def Let_def length_resize_audio intro!: nth_equalityI)

text \<open>
  C5. The mixer resizes every procedural layer to the length of the transformed base
  (a shorter buffer is padded with zeros at its tail, a longer one is truncated) and
  returns \<open>0.60 base + 0.15 noise + 0.20 rumble\<close> when the layer set has no bubbling
  layer, and \<open>(0.60 base + 0.15 noise + 0.20 rumble + 0.15 bubbling) * 0.8\<close> when it
  has one.
\<close>

theorem mix_layers_weights:
  assumes "layers ''noise'' = Some noise" and "layers ''rumble'' = Some rumble"
  shows "length (resize_audio a (length base)) = length base
    \<and> resize_audio a (length base) = take (length base) a @ replicate (length base - length a) 0
    \<and> mix_layers base layers =
        Inr (map (\<lambda>i.
               case layers ''bubbling'' of
                 None \<Rightarrow>
                   6 / 10 * base ! i + 15 / 100 * resize_audio noise (length base) ! i
                   + 20 / 100 * resize_audio rumble (length base) ! i
               | Some bubbling \<Rightarrow>
                   (6 / 10 * base ! i + 15 / 100 * resize_audio noise (length base) ! i
                    + 20 / 100 * resize_audio rumble (length base) ! i
                    + 15 / 100 * resize_audio bubbling (length base) ! i) * (8 / 10))
             [0..<length base])"
proof (cases "layers ''bubbling''")
  case None
  then show ?thesis
    using mix_layers_dry [OF assms None, of base]
    by (simp add: length_resize_audio resize_audio_pad_truncate)
next
  case (Some bubbling)
  then show ?thesis
    using mix_layers_wet [OF assms Some, of base]
    by (simp add: length_resize_audio resize_audio_pad_truncate)
qed

theorem mix_layers_weights_witness:
  "mix_layers [10, 20] [''noise'' \<mapsto> [1, 2, 3], ''rumble'' \<mapsto> [1]] = Inr [127 / 20, 123 / 10]
   \<and> mix_layers [10, 20] [''noise'' \<mapsto> [1, 2, 3], ''rumble'' \<mapsto> [1], ''bubbling'' \<mapsto> [2]]
       = Inr [133 / 25, 246 / 25]
   \<and> resize_audio [1, 2, 3] (length [10, 20 :: real]) = [1, 2]
   \<and> resize_audio [1] (length [10, 20 :: real]) = [1, 0]"
  using mix_layers_weights [of "[''noise'' \<mapsto> [1, 2, 3], ''rumble'' \<mapsto> [1]]"
      "[1, 2, 3]" "[1]" "[1, 2, 3]" "[10, 20]"]
    mix_layers_weights [of
      "[''noise'' \<mapsto> [1, 2, 3], ''rumble'' \<mapsto> [1], ''bubbling'' \<mapsto> [2]]"
      "[1, 2, 3]" "[1]" "[1]" "[10, 20]"]
  by (simp add: resize_audio_def)

section \<open>The bubbling generator\<close>

lemma py_int_of_int: "py_int (real_of_int k) = k"
  by (simp add: py_int_def)

lemma py_int_times5: "py_int (real_of_int w * 5) = w * 5"
  using py_int_of_int [of "w * 5"] by simp

lemma length_linspace: "length (linspace a b k) = k"
  by (simp add: linspace_def)

lemma length_bubble_wave: "length (bubble_wave sr bl f) = nat bl"
  by (simp add: bubble_wave_def Let_def length_linspace)

lemma bubble_step_short: "len < 1000 \<Longrightarrow> bubble_step P len sr st = Inl ValueError"
  by (simp add: bubble_step_def randint_def)

lemma generate_bubbling_short:
  assumes "len < 1000" and "0 < w"
  shows "generate_bubbling P r len sr w = Inl ValueError"
proof -
  from assms(2) obtain k where k: "nat (w * 5) = Suc k"
    by (cases "nat (w * 5)") auto
  show ?thesis
    using assms(1) by (simp add: generate_bubbling_def py_int_times5 k bubble_step_short)
qed

lemma layers_short:
  assumes "5 < wetness p" and "py_int (double_product (duration p) (sample_rate p)) < 1000"
  shows "isl (generate_synthesis_layers N P n r p)"
  using assms
  by (auto simp: generate_synthesis_layers_def Let_def generate_bubbling_short split: sum.splits)

lemma generate_short:
  assumes "5 < wetness p" and "py_int (double_product (duration p) (sample_rate p)) < 1000"
  shows "isl (generate P N D E g p)"
proof (cases "randomness_seed p < 0 \<or> 2 ^ 32 \<le> randomness_seed p")
  case True
  then show ?thesis by (simp add: generate_def)
next
  case seed: False
  let ?g = "(py_seed P (randomness_seed p) (fst g), np_seed N (randomness_seed p) (snd g))"
  show ?thesis
  proof (cases "select_and_load_samples P E ?g (ptype p)")
    case (Inl e)
    with seed show ?thesis by (simp add: generate_def)
  next
    case (Inr x)
    obtain base r1 n0 where x: "x = (base, r1, n0)" by (cases x)
    obtain e where "generate_synthesis_layers N P n0 r1 p = Inl e"
      using layers_short [OF assms, of N P n0 r1] by (auto simp: isl_def)
    with seed Inr x show ?thesis by (simp add: generate_def)
  qed
qed

lemma inplace_add_in_range:
  fixes a rhs :: audio
  assumes "0 \<le> pos" and "0 \<le> bl" and "pos + bl \<le> int (length a)" and "length rhs = nat bl"
  shows "inplace_slice (+) a pos (pos + bl) rhs =
     Inr (map (\<lambda>i. a ! i + (if pos \<le> int i \<and> int i < pos + bl then rhs ! nat (int i - pos) else 0))
            [0..<length a])"
proof -
  define s where "s = nat pos"
  define k where "k = nat bl"
  have pos: "pos = int s" and bl: "bl = int k" using assms by (auto simp: s_def k_def)
  have sk: "s + k \<le> length a" using assms(3) unfolding pos bl by simp
  have lr: "length rhs = k" using assms(4) by (simp add: k_def)
  have si: "slice_index (int s) (length a) = s"
    and e: "slice_index (int s + int k) (length a) = s + k"
    using sk by (auto simp: slice_index_def)
  have f: "(if int s \<le> int i \<and> int i < int s + int k then rhs ! nat (int i - int s) else 0)
      = (if s \<le> i \<and> i < s + k then rhs ! (i - s) else 0)" for i
    by (auto simp: nat_diff_distrib')
  have "take s a @ map2 (+) (take k (drop s a)) rhs @ drop (s + k) a
      = map (\<lambda>i. a ! i + (if s \<le> i \<and> i < s + k then rhs ! (i - s) else 0)) [0..<length a]"
  proof (rule nth_equalityI)
    show "length (take s a @ map2 (+) (take k (drop s a)) rhs @ drop (s + k) a)
        = length (map (\<lambda>i. a ! i + (if s \<le> i \<and> i < s + k then rhs ! (i - s) else 0)) [0..<length a])"
      using sk lr by simp
  next
    fix i assume "i < length (take s a @ map2 (+) (take k (drop s a)) rhs @ drop (s + k) a)"
    then have i: "i < length a" using sk lr by simp
    consider "i < s" | "s \<le> i" "i < s + k" | "s + k \<le> i" by linarith
    then show "(take s a @ map2 (+) (take k (drop s a)) rhs @ drop (s + k) a) ! i
        = map (\<lambda>i. a ! i + (if s \<le> i \<and> i < s + k then rhs ! (i - s) else 0)) [0..<length a] ! i"
    proof cases
      case 1
      then show ?thesis using i sk by (simp add: nth_append)
    next
      case 2
      then have "i - s < k" by linarith
      with 2 show ?thesis using i sk lr by (simp add: nth_append)
    next
      case 3
      then have "\<not> i < s" "\<not> i - s < k" "s + k + (i - s - k) = i" by linarith+
      with 3 show ?thesis using i sk lr by (simp add: nth_append)
    qed
  qed
  then show ?thesis
    unfolding pos bl f by (simp add: inplace_slice_def si e lr)
qed

lemma randint_okD:
  "randint_ok P \<Longrightarrow> a \<le> b \<Longrightarrow> a \<le> fst (py_randint P r a b) \<and> fst (py_randint P r a b) \<le> b"
  by (simp add: randint_ok_def)

lemma uniform_okD:
  "uniform_ok P \<Longrightarrow> a \<le> b \<Longrightarrow> a \<le> fst (py_uniform P r a b) \<and> fst (py_uniform P r a b) \<le> b"
  by (simp add: uniform_ok_def)

lemma length_bubble_draws: "length (bubble_draws P len k r) = k"
  by (induction k arbitrary: r) (auto simp: Let_def split: prod.splits)

lemma bubble_draws_ranges:
  assumes "randint_ok P" and "uniform_ok P" and "1000 \<le> len"
    and "(pos, bl, f) \<in> set (bubble_draws P len k r)"
  shows "0 \<le> pos \<and> pos \<le> len - 1000 \<and> 100 \<le> bl \<and> bl \<le> 500 \<and> 300 \<le> f \<and> f \<le> 1000"
  using assms(4)
proof (induction k arbitrary: r)
  case 0
  then show ?case by simp
next
  case (Suc k)
  obtain p1 r1 where d1: "py_randint P r 0 (len - 1000) = (p1, r1)" by (cases "py_randint P r 0 (len - 1000)")
  obtain b1 r2 where d2: "py_randint P r1 100 500 = (b1, r2)" by (cases "py_randint P r1 100 500")
  obtain f1 r3 where d3: "py_uniform P r2 300 1000 = (f1, r3)" by (cases "py_uniform P r2 300 1000")
  have "0 \<le> p1 \<and> p1 \<le> len - 1000"
    using randint_okD [OF assms(1), of 0 "len - 1000" r] assms(3) by (simp add: d1)
  moreover have "100 \<le> b1 \<and> b1 \<le> 500"
    using randint_okD [OF assms(1), of 100 500 r1] by (simp add: d2)
  moreover have "300 \<le> f1 \<and> f1 \<le> 1000"
    using uniform_okD [OF assms(2), of 300 1000 r2] by (simp add: d3)
  ultimately show ?case
    using Suc by (auto simp: d1 d2 d3)
qed

lemma bubble_step_in_range:
  assumes "randint_ok P" and "1000 \<le> len" and "sr \<noteq> 0" and "length a = nat len"
  shows "\<exists>r'. bubble_step P len sr (a, r) =
      Inr (map (\<lambda>i. a ! i + bubble_at sr i (hd (bubble_draws P len (Suc 0) r))) [0..<nat len], r')
      \<and> bubble_draws P len (Suc k) r = hd (bubble_draws P len (Suc 0) r) # bubble_draws P len k r'"
proof -
  obtain p1 r1 where d1: "py_randint P r 0 (len - 1000) = (p1, r1)" by (cases "py_randint P r 0 (len - 1000)")
  obtain b1 r2 where d2: "py_randint P r1 100 500 = (b1, r2)" by (cases "py_randint P r1 100 500")
  obtain f1 r3 where d3: "py_uniform P r2 300 1000 = (f1, r3)" by (cases "py_uniform P r2 300 1000")
  have p1: "0 \<le> p1 \<and> p1 \<le> len - 1000"
    using randint_okD [OF assms(1), of 0 "len - 1000" r] assms(2) by (simp add: d1)
  have b1: "100 \<le> b1 \<and> b1 \<le> 500"
    using randint_okD [OF assms(1), of 100 500 r1] by (simp add: d2)
  have e: "min (p1 + b1) len = p1 + b1" using p1 b1 by simp
  have pre: "py_prefix b1 (bubble_wave sr b1 f1) = bubble_wave sr b1 f1"
    using b1 by (simp add: py_prefix_def slice_index_def length_bubble_wave)
  have add: "inplace_slice (+) a p1 (p1 + b1) (map (\<lambda>x. x * (1 / 10)) (bubble_wave sr b1 f1)) =
     Inr (map (\<lambda>i. a ! i + (if p1 \<le> int i \<and> int i < p1 + b1
                 then map (\<lambda>x. x * (1 / 10)) (bubble_wave sr b1 f1) ! nat (int i - p1) else 0))
            [0..<length a])"
    using p1 b1 assms(4) by (intro inplace_add_in_range) (auto simp: length_bubble_wave)
  have at: "(if p1 \<le> int i \<and> int i < p1 + b1
                 then map (\<lambda>x. x * (1 / 10)) (bubble_wave sr b1 f1) ! nat (int i - p1) else 0)
      = bubble_at sr i (p1, b1, f1)" for i
    using b1 by (auto simp: bubble_at_def length_bubble_wave)
  show ?thesis
    using assms(2,3) b1 add
    by (simp add: bubble_step_def randint_def d1 d2 d3 e pre at assms(4))
qed

lemma bubbling_loop_superposes:
  assumes "randint_ok P" and "1000 \<le> len" and "sr \<noteq> 0"
  shows "length a = nat len \<Longrightarrow> \<exists>r'. bubbling_loop P len sr k (a, r) =
      Inr (map (\<lambda>i. a ! i + (\<Sum>b\<leftarrow>bubble_draws P len k r. bubble_at sr i b)) [0..<nat len], r')"
proof (induction k arbitrary: a r)
  case 0
  then show ?case using map_nth [of a] by simp
next
  case (Suc k)
  let ?b = "hd (bubble_draws P len (Suc 0) r)"
  let ?a1 = "map (\<lambda>i. a ! i + bubble_at sr i ?b) [0..<nat len]"
  obtain r1 where st: "bubble_step P len sr (a, r) = Inr (?a1, r1)"
    and dr: "bubble_draws P len (Suc k) r = ?b # bubble_draws P len k r1"
    using bubble_step_in_range [OF assms Suc.prems, of r k] by blast
  have "length ?a1 = nat len" by simp
  from Suc.IH [OF this, of r1] obtain r' where
    "bubbling_loop P len sr k (?a1, r1) =
      Inr (map (\<lambda>i. ?a1 ! i + (\<Sum>b\<leftarrow>bubble_draws P len k r1. bubble_at sr i b)) [0..<nat len], r')"
    by blast
  then show ?case
    by (simp add: st dr add.assoc del: bubble_draws.simps)
qed


lemma generate_bubbling_superposes:
  assumes "randint_ok P" and "1000 \<le> len" and "sr \<noteq> 0"
  shows "\<exists>r'. generate_bubbling P r len sr w =
      Inr (map (\<lambda>i. \<Sum>b\<leftarrow>bubble_draws P len (nat (w * 5)) r. bubble_at sr i b) [0..<nat len], r')"
proof -
  have z: "map (\<lambda>i. replicate (nat len) 0 ! i + f i) [0..<nat len] = map f [0..<nat len]"
    for f :: "nat \<Rightarrow> real"
    by (rule map_cong) auto
  show ?thesis
    using bubbling_loop_superposes [OF assms, of "replicate (nat len) 0" "nat (w * 5)" r] assms(2)
    by (simp add: generate_bubbling_def py_int_times5 z)
qed

lemma bubble_positions:
  assumes "randint_ok P" and "1000 \<le> len"
    and "(pos, bl, f) \<in> set (bubble_draws P len k r)"
  shows "0 \<le> pos \<and> pos \<le> len - 1000 \<and> 100 \<le> bl \<and> bl \<le> 500"
  using assms(3)
proof (induction k arbitrary: r)
  case 0
  then show ?case by simp
next
  case (Suc k)
  obtain p1 r1 where d1: "py_randint P r 0 (len - 1000) = (p1, r1)" by (cases "py_randint P r 0 (len - 1000)")
  obtain b1 r2 where d2: "py_randint P r1 100 500 = (b1, r2)" by (cases "py_randint P r1 100 500")
  obtain f1 r3 where d3: "py_uniform P r2 300 1000 = (f1, r3)" by (cases "py_uniform P r2 300 1000")
  have "0 \<le> p1 \<and> p1 \<le> len - 1000"
    using randint_okD [OF assms(1), of 0 "len - 1000" r] assms(2) by (simp add: d1)
  moreover have "100 \<le> b1 \<and> b1 \<le> 500"
    using randint_okD [OF assms(1), of 100 500 r1] by (simp add: d2)
  ultimately show ?case
    using Suc by (auto simp: d1 d2 d3)
qed

lemma counter_randint_ok: "randint_ok counter_random"
  by (auto simp: randint_ok_def counter_random_def intro: pos_mod_sign)
     (smt (verit) pos_mod_bound)

lemma counter_uniform_ok: "uniform_ok counter_random"
  by (auto simp: uniform_ok_def counter_random_def)

lemma rotate_inj_le:
  fixes i j r n :: nat
  assumes "i \<le> j" and "j < n" and "(i + r) mod n = (j + r) mod n"
  shows "i = j"
proof (rule ccontr)
  assume "i \<noteq> j"
  with assms(1) have pos: "0 < j - i" by simp
  have le: "i + r \<le> j + r" using assms(1) by simp
  have "n dvd (j + r) - (i + r)"
    using assms(3) by (simp only: mod_eq_dvd_iff_nat [OF le, symmetric])
  moreover have "(j + r) - (i + r) = j - i" by simp
  ultimately have "n dvd j - i" by (simp only:)
  moreover have "j - i < n" using assms(2) by simp
  ultimately show False using pos nat_dvd_not_less [of "j - i" n] by simp
qed

lemma rotate_inj:
  fixes i j r n :: nat
  assumes "i < n" and "j < n" and "(i + r) mod n = (j + r) mod n"
  shows "i = j"
proof (cases "i \<le> j")
  case True
  from rotate_inj_le [OF True assms(2,3)] show ?thesis .
next
  case False
  then have le: "j \<le> i" by simp
  from rotate_inj_le [OF le assms(1) assms(3) [symmetric]] show ?thesis by simp
qed

lemma rotate_positions:
  assumes "k \<le> n"
  shows "distinct (map (\<lambda>i. (i + r) mod n) [0..<k])
    \<and> (\<forall>i\<in>set (map (\<lambda>i. (i + r) mod n) [0..<k]). i < n)"
proof (cases "n = 0")
  case True
  with assms show ?thesis by simp
next
  case False
  have "inj_on (\<lambda>i. (i + r) mod n) (set [0..<k])"
  proof (rule inj_onI)
    fix i j assume "i \<in> set [0..<k]" and "j \<in> set [0..<k]"
      and e: "(i + r) mod n = (j + r) mod n"
    then have "i < n" and "j < n" using assms by simp_all
    then show "i = j" using e by (rule rotate_inj)
  qed
  then show ?thesis using False by (simp add: distinct_map)
qed

lemma counter_sample_ok: "sample_ok counter_random"
  using rotate_positions by (simp add: sample_ok_def counter_random_def)

lemma length_gauss_draws: "length (fst (gauss_draws N n k)) = k"
proof (induction k arbitrary: n)
  case 0
  then show ?case by simp
next
  case (Suc k)
  obtain z n1 where g: "np_gauss N n = (z, n1)" by (cases "np_gauss N n")
  obtain zs n2 where d: "gauss_draws N n1 k = (zs, n2)" by (cases "gauss_draws N n1 k")
  from Suc [of n1] show ?case by (simp add: g d)
qed

lemma np_normal_succeeds:
  "0 \<le> len \<Longrightarrow> \<exists>xs n'. np_normal N n loc scale len = Inr (xs, n') \<and> length xs = nat len"
  using length_gauss_draws [of N n "nat len"]
  by (auto simp: np_normal_def Let_def split: prod.splits)

lemma generate_noise_succeeds:
  assumes "1 \<le> len" and "sr \<noteq> 0" and "\<forall>x. np_fft N x \<noteq> None" and "\<forall>x. np_ifft N x \<noteq> None"
  shows "\<exists>xs n'. generate_noise N n len sr t = Inr (xs, n')"
proof (cases "t = ''white''")
  case True
  then show ?thesis
    using np_normal_succeeds [of len N n 0 "1 / 10"] assms(1) by (auto simp: generate_noise_def)
next
  case False
  obtain xs n' where w: "np_normal N n 0 1 len = Inr (xs, n')" and l: "length xs = nat len"
    using np_normal_succeeds [of len N n 0 1] assms(1) by auto
  from l assms(1) have ne: "xs \<noteq> []" by auto
  obtain f where f: "np_fft N (map complex_of_real xs) = Some f" using assms(3) by auto
  show ?thesis
    using False assms(2,4) ne
    by (auto simp: generate_noise_def w f Let_def split: option.splits)
qed

lemma generate_rumble_succeeds:
  assumes "0 \<le> len" and "sr \<noteq> 0"
  shows "\<exists>xs n' r'. generate_rumble N P n r len sr bf = Inr (xs, n', r')"
  using assms by (auto simp: generate_rumble_def Let_def split: prod.splits)

lemma layers_succeed:
  assumes "randint_ok P" and "sample_rate p \<noteq> 0"
    and "\<not> product_overflows (duration p) (sample_rate p)"
    and "1000 \<le> py_int (double_product (duration p) (sample_rate p))"
    and "\<forall>x. np_fft N x \<noteq> None" and "\<forall>x. np_ifft N x \<noteq> None"
  shows "\<exists>layers n' r'. generate_synthesis_layers N P n r p = Inr (layers, n', r')"
proof -
  let ?len = "py_int (double_product (duration p) (sample_rate p))"
  let ?t = "if wetness p > 5 then ''pink'' else ''white''"
  obtain noise n1 where a: "generate_noise N n ?len (sample_rate p) ?t = Inr (noise, n1)"
    using generate_noise_succeeds [of ?len "sample_rate p" N n ?t] assms by auto
  obtain rumble n2 r1 where
    b: "generate_rumble N P n1 r ?len (sample_rate p) (pitch_to_freq (pitch p)) = Inr (rumble, n2, r1)"
    using generate_rumble_succeeds [of ?len "sample_rate p" N P n1 r "pitch_to_freq (pitch p)"]
      assms(2,4) by auto
  obtain bub r2 where
    c: "generate_bubbling P r1 ?len (sample_rate p) (wetness p) = Inr (bub, r2)"
    using generate_bubbling_superposes [OF assms(1,4,2), of r1 "wetness p"] by auto
  show ?thesis
    using a b c assms(3) by (auto simp: generate_synthesis_layers_def Let_def)
qed

lemma nth_bubble_wave:
  "j < nat bl \<Longrightarrow> bubble_wave sr bl f ! j =
     sin (2 * pi * f * (linspace 0 (real_of_int bl / real_of_int sr) (nat bl) ! j))
     * exp (- (linspace 0 (real_of_int bl / real_of_int sr) (nat bl) ! j) * 50)"
  by (simp add: bubble_wave_def Let_def length_linspace)

lemma layers_cases:
  assumes "generate_synthesis_layers N P n r p = Inr (layers, n', r')"
  shows "\<not> product_overflows (duration p) (sample_rate p) \<and>
    (\<exists>noise n1 rumble r1.
       generate_noise N n (py_int (double_product (duration p) (sample_rate p))) (sample_rate p)
         (if wetness p > 5 then ''pink'' else ''white'') = Inr (noise, n1)
       \<and> generate_rumble N P n1 r (py_int (double_product (duration p) (sample_rate p)))
           (sample_rate p) (pitch_to_freq (pitch p)) = Inr (rumble, n', r1)
       \<and> (if 5 < wetness p
          then \<exists>bub. generate_bubbling P r1 (py_int (double_product (duration p) (sample_rate p)))
                       (sample_rate p) (wetness p) = Inr (bub, r')
                 \<and> layers = [''noise'' \<mapsto> noise, ''rumble'' \<mapsto> rumble, ''bubbling'' \<mapsto> bub]
          else layers = [''noise'' \<mapsto> noise, ''rumble'' \<mapsto> rumble]))"
proof -
  let ?len = "py_int (double_product (duration p) (sample_rate p))"
  let ?sr = "sample_rate p"
  let ?t = "if wetness p > 5 then ''pink'' else ''white''"
  have no: "\<not> product_overflows (duration p) (sample_rate p)"
    using assms by (auto simp: generate_synthesis_layers_def Let_def split: if_splits)
  obtain noise n1 where a: "generate_noise N n ?len ?sr ?t = Inr (noise, n1)"
    using assms no
    by (cases "generate_noise N n ?len ?sr ?t") (auto simp: generate_synthesis_layers_def Let_def)
  obtain rumble n2 r1 where
    b: "generate_rumble N P n1 r ?len ?sr (pitch_to_freq (pitch p)) = Inr (rumble, n2, r1)"
    using assms no a
    by (cases "generate_rumble N P n1 r ?len ?sr (pitch_to_freq (pitch p))")
      (auto simp: generate_synthesis_layers_def Let_def)
  have "n2 = n' \<and> (if 5 < wetness p
          then \<exists>bub. generate_bubbling P r1 ?len ?sr (wetness p) = Inr (bub, r')
                 \<and> layers = [''noise'' \<mapsto> noise, ''rumble'' \<mapsto> rumble, ''bubbling'' \<mapsto> bub]
          else layers = [''noise'' \<mapsto> noise, ''rumble'' \<mapsto> rumble])"
  proof (cases "5 < wetness p")
    case True
    then obtain bub r2 where
      c: "generate_bubbling P r1 ?len ?sr (wetness p) = Inr (bub, r2)"
      using assms no a b
      by (cases "generate_bubbling P r1 ?len ?sr (wetness p)")
        (auto simp: generate_synthesis_layers_def Let_def)
    with True assms no a b
    have "layers = [''noise'' \<mapsto> noise, ''rumble'' \<mapsto> rumble, ''bubbling'' \<mapsto> bub]"
      and "r' = r2" and "n2 = n'"
      by (auto simp: generate_synthesis_layers_def Let_def)
    with True c show ?thesis by auto
  next
    case False
    with assms no a b have "layers = [''noise'' \<mapsto> noise, ''rumble'' \<mapsto> rumble]" and "n2 = n'"
      by (auto simp: generate_synthesis_layers_def Let_def)
    with False show ?thesis by simp
  qed
  with no a b show ?thesis by blast
qed

lemma layers_bubbling:
  assumes "generate_synthesis_layers N P n r p = Inr (layers, n', r')"
  shows "if 5 < wetness p
     then \<exists>r1 bub. generate_bubbling P r1 (py_int (double_product (duration p) (sample_rate p)))
              (sample_rate p) (wetness p) = Inr (bub, r') \<and> layers ''bubbling'' = Some bub
              \<and> sample_rate p \<noteq> 0
     else layers ''bubbling'' = None"
proof -
  let ?len = "py_int (double_product (duration p) (sample_rate p))"
  from layers_cases [OF assms] obtain noise n1 rumble r1 where
    b: "generate_rumble N P n1 r ?len (sample_rate p) (pitch_to_freq (pitch p)) = Inr (rumble, n', r1)"
    and c: "if 5 < wetness p
          then \<exists>bub. generate_bubbling P r1 ?len (sample_rate p) (wetness p) = Inr (bub, r')
                 \<and> layers = [''noise'' \<mapsto> noise, ''rumble'' \<mapsto> rumble, ''bubbling'' \<mapsto> bub]
          else layers = [''noise'' \<mapsto> noise, ''rumble'' \<mapsto> rumble]"
    by blast
  have sr: "sample_rate p \<noteq> 0"
    using b by (auto simp: generate_rumble_def split: if_splits)
  show ?thesis
  proof (cases "5 < wetness p")
    case True
    with c obtain bub where
      "generate_bubbling P r1 ?len (sample_rate p) (wetness p) = Inr (bub, r')"
      and "layers = [''noise'' \<mapsto> noise, ''rumble'' \<mapsto> rumble, ''bubbling'' \<mapsto> bub]"
      by auto
    with True sr show ?thesis by auto
  next
    case False
    with c show ?thesis by simp
  qed
qed

lemma fl64_132300: "fl64 132300 = 132300"
  using fl64_eval [of 17 132300] by (simp add: powr_neg_numeral py_round_numeral)

lemma fl64_198450: "fl64 198450 = 198450"
  using fl64_eval [of 17 198450] by (simp add: powr_neg_numeral py_round_numeral)

lemma scenario_lengths:
  "py_int (double_product (duration scenario_c) (sample_rate scenario_c)) = 132300"
  "py_int (double_product (duration scenario_a) (sample_rate scenario_a)) = 198450"
  by (simp_all add: scenario_c_def scenario_a_def double_product_def fl64_44100 fl64_132300
      fl64_198450 py_int_def)

lemma scenario_no_overflow:
  "\<not> product_overflows (duration scenario_c) (sample_rate scenario_c)"
  "\<not> product_overflows (duration scenario_a) (sample_rate scenario_a)"
  by (simp_all add: scenario_c_def scenario_a_def product_overflows_def double_product_def
      fl64_44100 fl64_132300 fl64_198450 f64_max_def)

lemma constant_numpy_fft_total:
  "\<forall>x. np_fft (constant_numpy z) x \<noteq> None" "\<forall>x. np_ifft (constant_numpy z) x \<noteq> None"
  by (simp_all add: constant_numpy_def)

lemma table_numpy_fft_total:
  "\<forall>x. np_fft table_numpy x \<noteq> None" "\<forall>x. np_ifft table_numpy x \<noteq> None"
  by (simp_all add: table_numpy_def)

lemma fl64_300: "fl64 300 = 300"
  using fl64_eval [of 8 300] by (simp add: powr_neg_numeral py_round_numeral)

lemma fl64_900: "fl64 900 = 900"
  using fl64_eval [of 9 900] by (simp add: powr_neg_numeral py_round_numeral)

text \<open>
  C10, as the engine has it. The bubbling generator needs a buffer of at least 1000
  samples: the start of every bubble is \<open>random.randint(0, length - 1000)\<close>, which
  raises on a shorter buffer, so for valid parameters with \<open>wetness > 5\<close> and
  \<open>int(duration * sample_rate) < 1000\<close>, the product being the double that Python
  computes, the render fails. On a buffer of at least 1000 samples the generator returns
  the superposition of its bubbles; every bubble starts in \<open>[0, length - 1000]\<close>, is
  at most 500 samples long, ends at least 500 samples before the end of the buffer and
  is not truncated (\<open>end_pos\<close> is \<open>pos + bubble_length\<close>). The start, the length and the
  frequency of each bubble are what \<open>random.randint(0, length - 1000)\<close>,
  \<open>random.randint(100, 500)\<close> and \<open>random.uniform(300, 1000)\<close> return, in this order,
  from the state in which the bubble before has left the generator: the start is drawn
  as the library draws from the integers of \<open>[0, length - 1000]\<close>, which is uniformly.
\<close>

theorem bubbling_needs_1000_samples:
  "(len < 1000 \<longrightarrow> 5 < w \<longrightarrow> generate_bubbling P r len sr w = Inl ValueError)
   \<and> (valid_params p \<longrightarrow> 5 < wetness p \<longrightarrow> 0 < sample_rate p
        \<longrightarrow> py_int (double_product (duration p) (sample_rate p)) < 1000
        \<longrightarrow> isl (generate P N D E g p))
   \<and> (randint_ok P \<longrightarrow> 1000 \<le> len \<longrightarrow> sr \<noteq> 0 \<longrightarrow>
        (\<exists>r'. generate_bubbling P r len sr w =
           Inr (map (\<lambda>i. \<Sum>b\<leftarrow>bubble_draws P len (nat (w * 5)) r. bubble_at sr i b) [0..<nat len], r'))
        \<and> (\<forall>(pos, bubble_length, freq) \<in> set (bubble_draws P len (nat (w * 5)) r).
              0 \<le> pos \<and> pos \<le> len - 1000 \<and> bubble_length \<le> 500
              \<and> pos + bubble_length \<le> len - 500
              \<and> min (pos + bubble_length) len = pos + bubble_length))
   \<and> bubble_draws P len (Suc k) r =
        (let (pos, r1) = py_randint P r 0 (len - 1000);
             (bubble_length, r2) = py_randint P r1 100 500;
             (freq, r3) = py_uniform P r2 300 1000
         in (pos, bubble_length, freq) # bubble_draws P len k r3)"
proof (intro conjI impI)
  assume "len < 1000" and "5 < w"
  then show "generate_bubbling P r len sr w = Inl ValueError"
    by (intro generate_bubbling_short) auto
next
  assume "5 < wetness p" and "py_int (double_product (duration p) (sample_rate p)) < 1000"
  then show "isl (generate P N D E g p)"
    by (rule generate_short)
next
  assume a: "randint_ok P" "1000 \<le> len" "sr \<noteq> 0"
  then show "\<exists>r'. generate_bubbling P r len sr w =
           Inr (map (\<lambda>i. \<Sum>b\<leftarrow>bubble_draws P len (nat (w * 5)) r. bubble_at sr i b) [0..<nat len], r')"
    by (rule generate_bubbling_superposes)
  show "\<forall>(pos, bubble_length, freq) \<in> set (bubble_draws P len (nat (w * 5)) r).
              0 \<le> pos \<and> pos \<le> len - 1000 \<and> bubble_length \<le> 500
              \<and> pos + bubble_length \<le> len - 500
              \<and> min (pos + bubble_length) len = pos + bubble_length"
  proof (clarify)
    fix pos bl f assume "(pos, bl, f) \<in> set (bubble_draws P len (nat (w * 5)) r)"
    then have "0 \<le> pos \<and> pos \<le> len - 1000 \<and> 100 \<le> bl \<and> bl \<le> 500"
      using bubble_positions [OF a(1,2)] by blast
    then show "0 \<le> pos \<and> pos \<le> len - 1000 \<and> bl \<le> 500 \<and> pos + bl \<le> len - 500
        \<and> min (pos + bl) len = pos + bl"
      by auto
  qed
next
  show "bubble_draws P len (Suc k) r =
        (let (pos, r1) = py_randint P r 0 (len - 1000);
             (bubble_length, r2) = py_randint P r1 100 500;
             (freq, r3) = py_uniform P r2 300 1000
         in (pos, bubble_length, freq) # bubble_draws P len k r3)"
    by simp
qed

theorem bubbling_needs_1000_samples_witness:
  "generate_bubbling counter_random 0 900 300 9 = Inl ValueError
   \<and> valid_params (scenario_c\<lparr>sample_rate := 300\<rparr>)
   \<and> 5 < wetness (scenario_c\<lparr>sample_rate := 300\<rparr>)
   \<and> 0 < sample_rate (scenario_c\<lparr>sample_rate := 300\<rparr>)
   \<and> py_int (double_product (duration (scenario_c\<lparr>sample_rate := 300\<rparr>))
               (sample_rate (scenario_c\<lparr>sample_rate := 300\<rparr>))) = 900
   \<and> isl (generate counter_random table_numpy plain_dsp small_engine (0, 0)
            (scenario_c\<lparr>sample_rate := 300\<rparr>))
   \<and> randint_ok counter_random
   \<and> (\<exists>r'. generate_bubbling counter_random 0 1200 300 9 =
         Inr (map (\<lambda>i. \<Sum>b\<leftarrow>bubble_draws counter_random 1200 (nat (9 * 5)) 0. bubble_at 300 i b)
               [0..<nat 1200], r'))
   \<and> list_all (\<lambda>(pos, bubble_length, freq). 0 \<le> pos \<and> pos + bubble_length \<le> 1200 - 500)
        (bubble_draws counter_random 1200 (nat (9 * 5)) 0)
   \<and> bubble_draws counter_random 1200 (Suc 0) 7 = [(7, 108, 650)]"
proof -
  let ?p = "scenario_c\<lparr>sample_rate := 300\<rparr>"
  have l: "py_int (double_product (duration ?p) (sample_rate ?p)) = 900"
    by (simp add: scenario_c_def double_product_def fl64_300 fl64_900 py_int_def)
  have v: "valid_params ?p" "5 < wetness ?p" "0 < sample_rate ?p"
    by (simp_all add: valid_params_def scenario_c_def)
  have s: "(900::int) < 1000" "(5::int) < 9" "(1000::int) \<le> 1200" "(300::int) \<noteq> 0" by simp_all
  from l have l': "py_int (double_product (duration ?p) (sample_rate ?p)) < 1000" by simp
  from bubbling_needs_1000_samples [of 900 9 counter_random 0 300 ?p table_numpy
      plain_dsp small_engine "(0, 0)" 0] s v l'
  have a: "generate_bubbling counter_random 0 900 300 9 = Inl ValueError"
    and b: "isl (generate counter_random table_numpy plain_dsp small_engine (0, 0) ?p)"
    by blast+
  from bubbling_needs_1000_samples [of 1200 9 counter_random 0 300 ?p table_numpy
      plain_dsp small_engine "(0, 0)" 0] s counter_randint_ok
  have c: "\<exists>r'. generate_bubbling counter_random 0 1200 300 9 =
         Inr (map (\<lambda>i. \<Sum>b\<leftarrow>bubble_draws counter_random 1200 (nat (9 * 5)) 0. bubble_at 300 i b)
               [0..<nat 1200], r')"
    and d: "\<forall>(pos, bubble_length, freq) \<in> set (bubble_draws counter_random 1200 (nat (9 * 5)) 0).
              0 \<le> pos \<and> pos \<le> 1200 - 1000 \<and> bubble_length \<le> 500
              \<and> pos + bubble_length \<le> 1200 - 500
              \<and> min (pos + bubble_length) 1200 = pos + bubble_length"
    by blast+
  from d have e: "list_all (\<lambda>(pos, bubble_length, freq). 0 \<le> pos \<and> pos + bubble_length \<le> 1200 - 500)
        (bubble_draws counter_random 1200 (nat (9 * 5)) 0)"
    unfolding list_all_iff by fast
  have f: "bubble_draws counter_random 1200 (Suc 0) 7 = [(7, 108, 650)]"
    by (simp add: counter_random_def)
  show ?thesis
    using a b c e f l v counter_randint_ok by (intro conjI)
qed

text \<open>
  C4. Whenever the layer set is produced, it has the key \<open>bubbling\<close> if and only if
  \<open>wetness > 5\<close>. When it has, the bubbling layer is the superposition of exactly
  \<open>5 * wetness\<close> bubbles, each with a carrier frequency in \<open>[300, 1000]\<close> Hz and a
  length in \<open>[100, 500]\<close> samples; sample \<open>j\<close> of a bubble is the sine of its carrier
  times the envelope \<open>exp(-t * 50)\<close>, at the time \<open>t\<close> of that sample.
\<close>

theorem bubbling_layer_iff_wet:
  assumes "randint_ok P" and "uniform_ok P"
    and "generate_synthesis_layers N P n r p = Inr (layers, n', r')"
  shows "(''bubbling'' \<in> dom layers \<longleftrightarrow> 5 < wetness p)
    \<and> (5 < wetness p \<longrightarrow>
         (\<exists>r1. let len = py_int (double_product (duration p) (sample_rate p));
                   draws = bubble_draws P len (nat (5 * wetness p)) r1
               in length draws = nat (5 * wetness p)
                  \<and> (\<forall>(pos, bubble_length, freq) \<in> set draws.
                        300 \<le> freq \<and> freq \<le> 1000 \<and> 100 \<le> bubble_length \<and> bubble_length \<le> 500)
                  \<and> layers ''bubbling'' =
                      Some (map (\<lambda>i. \<Sum>b\<leftarrow>draws. bubble_at (sample_rate p) i b) [0..<nat len])))
    \<and> (\<forall>j<nat bl. bubble_wave sr bl f ! j =
          sin (2 * pi * f * (linspace 0 (real_of_int bl / real_of_int sr) (nat bl) ! j))
          * exp (- (linspace 0 (real_of_int bl / real_of_int sr) (nat bl) ! j) * 50))"
proof (intro conjI impI)
  show "''bubbling'' \<in> dom layers \<longleftrightarrow> 5 < wetness p"
    using layers_bubbling [OF assms(3)] by (auto split: if_splits)
next
  let ?len = "py_int (double_product (duration p) (sample_rate p))"
  assume wet: "5 < wetness p"
  then obtain r1 bub where
    g: "generate_bubbling P r1 ?len (sample_rate p) (wetness p) = Inr (bub, r')"
    and l: "layers ''bubbling'' = Some bub" and sr: "sample_rate p \<noteq> 0"
    using layers_bubbling [OF assms(3)] by auto
  have len: "1000 \<le> ?len"
  proof (rule ccontr)
    assume "\<not> 1000 \<le> ?len"
    then have "generate_bubbling P r1 ?len (sample_rate p) (wetness p) = Inl ValueError"
      using wet by (intro generate_bubbling_short) auto
    with g show False by simp
  qed
  have bub: "bub = map (\<lambda>i. \<Sum>b\<leftarrow>bubble_draws P ?len (nat (5 * wetness p)) r1.
                bubble_at (sample_rate p) i b) [0..<nat ?len]"
    using generate_bubbling_superposes [OF assms(1) len sr, of r1 "wetness p"] g
    by (simp add: mult.commute)
  have rng: "\<forall>(pos, bubble_length, freq) \<in> set (bubble_draws P ?len (nat (5 * wetness p)) r1).
      300 \<le> freq \<and> freq \<le> 1000 \<and> 100 \<le> bubble_length \<and> bubble_length \<le> 500"
  proof (clarify)
    fix pos bl f
    assume "(pos, bl, f) \<in> set (bubble_draws P ?len (nat (5 * wetness p)) r1)"
    from bubble_draws_ranges [OF assms(1,2) len this]
    show "300 \<le> f \<and> f \<le> 1000 \<and> 100 \<le> bl \<and> bl \<le> 500" by simp
  qed
  have l': "layers ''bubbling'' =
      Some (map (\<lambda>i. \<Sum>b\<leftarrow>bubble_draws P ?len (nat (5 * wetness p)) r1.
                bubble_at (sample_rate p) i b) [0..<nat ?len])"
    using l bub by simp
  show "\<exists>r1. let len = ?len; draws = bubble_draws P len (nat (5 * wetness p)) r1
               in length draws = nat (5 * wetness p)
                  \<and> (\<forall>(pos, bubble_length, freq) \<in> set draws.
                        300 \<le> freq \<and> freq \<le> 1000 \<and> 100 \<le> bubble_length \<and> bubble_length \<le> 500)
                  \<and> layers ''bubbling'' =
                      Some (map (\<lambda>i. \<Sum>b\<leftarrow>draws. bubble_at (sample_rate p) i b) [0..<nat len])"
    unfolding Let_def
    by (intro exI [of _ r1] conjI length_bubble_draws rng l')
next
  show "\<forall>j<nat bl. bubble_wave sr bl f ! j =
          sin (2 * pi * f * (linspace 0 (real_of_int bl / real_of_int sr) (nat bl) ! j))
          * exp (- (linspace 0 (real_of_int bl / real_of_int sr) (nat bl) ! j) * 50)"
    using nth_bubble_wave by blast
qed

theorem bubbling_layer_iff_wet_witness:
  "randint_ok counter_random \<and> uniform_ok counter_random
   \<and> (\<exists>layers n' r' r1.
         generate_synthesis_layers (constant_numpy 1) counter_random 0 0 scenario_c = Inr (layers, n', r')
         \<and> ''bubbling'' \<in> dom layers \<and> 5 < wetness scenario_c
         \<and> length (bubble_draws counter_random 132300 45 r1) = 45
         \<and> layers ''bubbling'' =
             Some (map (\<lambda>i. \<Sum>b\<leftarrow>bubble_draws counter_random 132300 45 r1. bubble_at 44100 i b)
                     [0..<132300]))
   \<and> (\<exists>layers n' r'.
         generate_synthesis_layers (constant_numpy 1) counter_random 0 0 scenario_a = Inr (layers, n', r')
         \<and> ''bubbling'' \<notin> dom layers \<and> \<not> 5 < wetness scenario_a)"
proof -
  have "sample_rate scenario_c \<noteq> 0"
    by (simp add: scenario_c_def)
  moreover have "1000 \<le> py_int (double_product (duration scenario_c) (sample_rate scenario_c))"
    by (simp add: scenario_lengths)
  ultimately have "\<exists>layers n' r'.
      generate_synthesis_layers (constant_numpy 1) counter_random 0 0 scenario_c = Inr (layers, n', r')"
    by (intro layers_succeed counter_randint_ok constant_numpy_fft_total scenario_no_overflow)
  then obtain lc nc rc where
    c: "generate_synthesis_layers (constant_numpy 1) counter_random 0 0 scenario_c = Inr (lc, nc, rc)"
    by blast
  have "sample_rate scenario_a \<noteq> 0"
    by (simp add: scenario_a_def)
  moreover have "1000 \<le> py_int (double_product (duration scenario_a) (sample_rate scenario_a))"
    by (simp add: scenario_lengths)
  ultimately have "\<exists>layers n' r'.
      generate_synthesis_layers (constant_numpy 1) counter_random 0 0 scenario_a = Inr (layers, n', r')"
    by (intro layers_succeed counter_randint_ok constant_numpy_fft_total scenario_no_overflow)
  then obtain la na ra where
    a: "generate_synthesis_layers (constant_numpy 1) counter_random 0 0 scenario_a = Inr (la, na, ra)"
    by blast
  have wc: "5 < wetness scenario_c" and wa: "\<not> 5 < wetness scenario_a"
    by (simp_all add: scenario_c_def scenario_a_def)
  have ic: "''bubbling'' \<in> dom lc"
    using bubbling_layer_iff_wet [OF counter_randint_ok counter_uniform_ok c, THEN conjunct1] wc
    by simp
  have ia: "''bubbling'' \<notin> dom la"
    using bubbling_layer_iff_wet [OF counter_randint_ok counter_uniform_ok a, THEN conjunct1] wa
    by simp
  have v: "wetness scenario_c = 9" "sample_rate scenario_c = 44100"
    by (simp_all add: scenario_c_def)
  have v': "py_int (double_product (duration scenario_c) 44100) = 132300"
    using scenario_lengths(1) by (simp only: v)
  have "\<exists>r1. length (bubble_draws counter_random 132300 45 r1) = 45
         \<and> lc ''bubbling'' =
             Some (map (\<lambda>i. \<Sum>b\<leftarrow>bubble_draws counter_random 132300 45 r1. bubble_at 44100 i b)
                     [0..<132300])"
    using bubbling_layer_iff_wet [OF counter_randint_ok counter_uniform_ok c,
        THEN conjunct2, THEN conjunct1] wc
    by (simp add: Let_def v v' del: bubble_draws.simps) blast
  then show ?thesis
    using counter_randint_ok counter_uniform_ok c a wc wa ic ia by blast
qed

section \<open>Sample selection: count and failure\<close>

lemma sample_okD:
  "sample_ok P \<Longrightarrow> k \<le> n \<Longrightarrow>
     length (fst (py_sample P r n k)) = k \<and> distinct (fst (py_sample P r n k))
     \<and> (\<forall>i\<in>set (fst (py_sample P r n k)). i < n)"
  by (simp add: sample_ok_def)

lemma select_samples_empty:
  "sample_cache E t = Some [] \<Longrightarrow> select_samples P E r t = Inl ValueError"
  by (simp add: select_samples_def randint_def)

lemma select_samples_nonempty:
  assumes "randint_ok P" and "sample_ok P" and "sample_cache E t = Some samples" and "samples \<noteq> []"
  shows "\<exists>positions r'.
      select_samples P E r t = Inr (map (\<lambda>i. samples ! i) positions, r')
      \<and> 1 \<le> length positions \<and> length positions \<le> 3 \<and> length positions \<le> length samples
      \<and> distinct positions \<and> (\<forall>i\<in>set positions. i < length samples)
      \<and> int (length positions) = fst (py_randint P r 1 (min 3 (int (length samples))))
      \<and> positions = fst (py_sample P (snd (py_randint P r 1 (min 3 (int (length samples)))))
                           (length samples) (length positions))"
proof -
  let ?hi = "min 3 (int (length samples))"
  obtain num r1 where d: "py_randint P r 1 ?hi = (num, r1)" by (cases "py_randint P r 1 ?hi")
  have hi: "1 \<le> ?hi" using assms(4) by (cases samples) auto
  have num: "1 \<le> num \<and> num \<le> ?hi"
    using randint_okD [OF assms(1) hi, of r] by (simp add: d)
  obtain positions r2 where s: "py_sample P r1 (length samples) (nat num) = (positions, r2)"
    by (cases "py_sample P r1 (length samples) (nat num)")
  have k: "nat num \<le> length samples" using num by auto
  have p: "length positions = nat num \<and> distinct positions \<and> (\<forall>i\<in>set positions. i < length samples)"
    using sample_okD [OF assms(2) k, of r1] by (simp add: s)
  have "select_samples P E r t = Inr (map (\<lambda>i. samples ! i) positions, r2)"
  proof -
    have nhi: "\<not> ?hi < 1" using hi by linarith
    have nn: "\<not> (num < 0 \<or> int (length samples) < num)" using num by auto
    show ?thesis
      using nn by (simp add: select_samples_def randint_def assms(3) nhi d s)
  qed
  moreover have "1 \<le> length positions \<and> length positions \<le> 3 \<and> length positions \<le> length samples"
    using p num by auto
  moreover have "int (length positions) = fst (py_randint P r 1 ?hi)"
    using p num by (simp add: d)
  moreover have "positions = fst (py_sample P (snd (py_randint P r 1 ?hi)) (length samples)
      (length positions))"
    using p by (simp add: d s)
  ultimately show ?thesis using p by blast
qed

text \<open>
  C7, as the engine has it. Selection from a type with at least one registered asset
  returns between 1 and 3 assets, never more than are registered, taken at distinct
  positions of the registered list (without replacement): their number is what
  \<open>random.randint(1, min(3, len(samples)))\<close> returns and the assets are those that
  \<open>random.sample(samples, num_samples)\<close> picks, so that the choice is uniform among the
  registered assets as that of \<open>random.sample\<close> is. Selection from a type with no
  registered asset fails with the \<open>ValueError\<close> that \<open>random.randint(1, 0)\<close> raises.
\<close>

theorem selection_count_and_failure:
  assumes "randint_ok P" and "sample_ok P" and "sample_cache E t = Some samples"
  shows "(samples = [] \<longrightarrow>
           select_samples P E r t = Inl ValueError
           \<and> select_and_load_samples P E (r, n) t = Inl ValueError)
    \<and> (samples \<noteq> [] \<longrightarrow>
         (\<exists>positions r'.
            select_samples P E r t = Inr (map (\<lambda>i. samples ! i) positions, r')
            \<and> 1 \<le> length positions \<and> length positions \<le> 3
            \<and> length positions \<le> length samples
            \<and> distinct positions \<and> (\<forall>i\<in>set positions. i < length samples)
            \<and> int (length positions) = fst (py_randint P r 1 (min 3 (int (length samples))))
            \<and> positions = fst (py_sample P (snd (py_randint P r 1 (min 3 (int (length samples)))))
                                 (length samples) (length positions))))"
proof (intro conjI impI)
  assume "samples = []"
  with assms(3) have e: "select_samples P E r t = Inl ValueError"
    by (simp add: select_samples_empty)
  then show "select_samples P E r t = Inl ValueError"
    and "select_and_load_samples P E (r, n) t = Inl ValueError"
    by (simp_all add: select_and_load_samples_def)
next
  assume "samples \<noteq> []"
  with assms show "\<exists>positions r'.
            select_samples P E r t = Inr (map (\<lambda>i. samples ! i) positions, r')
            \<and> 1 \<le> length positions \<and> length positions \<le> 3
            \<and> length positions \<le> length samples
            \<and> distinct positions \<and> (\<forall>i\<in>set positions. i < length samples)
            \<and> int (length positions) = fst (py_randint P r 1 (min 3 (int (length samples))))
            \<and> positions = fst (py_sample P (snd (py_randint P r 1 (min 3 (int (length samples)))))
                                 (length samples) (length positions))"
    by (rule select_samples_nonempty)
qed

lemma small_engine_cache:
  "sample_cache small_engine squeaker = Some []"
  "sample_cache small_engine classic = Some [([1, -1, 1, -1], 44100), ([1 / 2, 1 / 2], 44100)]"
  by (simp_all add: small_engine_def)

lemma select_classic:
  "select_samples counter_random small_engine 0 classic = Inr ([([1 / 2, 1 / 2], 44100)], 2)"
  "select_samples counter_random small_engine 1 classic
     = Inr ([([1, -1, 1, -1], 44100), ([1 / 2, 1 / 2], 44100)], 3)"
  by (simp_all add: select_samples_def small_engine_def randint_def counter_random_def
      upt_rec [of _ "numeral k" for k] upt_rec [of _ "Suc k" for k] numeral_2_eq_2 [symmetric])

theorem selection_count_and_failure_witness:
  "randint_ok counter_random \<and> sample_ok counter_random
   \<and> sample_cache small_engine squeaker = Some []
   \<and> select_samples counter_random small_engine 1 squeaker = Inl ValueError
   \<and> select_and_load_samples counter_random small_engine (1, 0) squeaker = Inl ValueError
   \<and> sample_cache small_engine classic = Some [([1, -1, 1, -1], 44100), ([1 / 2, 1 / 2], 44100)]
   \<and> select_samples counter_random small_engine 0 classic = Inr ([([1 / 2, 1 / 2], 44100)], 2)
   \<and> select_samples counter_random small_engine 1 classic
       = Inr ([([1, -1, 1, -1], 44100), ([1 / 2, 1 / 2], 44100)], 3)
   \<and> (\<exists>positions r'.
         select_samples counter_random small_engine 1 classic
           = Inr (map (\<lambda>i. [([1, -1, 1, -1], 44100), ([1 / 2, 1 / 2], 44100)] ! i) positions, r')
         \<and> 1 \<le> length positions \<and> length positions \<le> 3 \<and> distinct positions
         \<and> int (length positions) = fst (py_randint counter_random 1 1 2))"
proof -
  have a: "select_samples counter_random small_engine 1 squeaker = Inl ValueError
      \<and> select_and_load_samples counter_random small_engine (1, 0) squeaker = Inl ValueError"
    using selection_count_and_failure [OF counter_randint_ok counter_sample_ok small_engine_cache(1),
        of 1 0, THEN conjunct1]
    by simp
  have b: "\<exists>positions r'.
         select_samples counter_random small_engine 1 classic
           = Inr (map (\<lambda>i. [([1, -1, 1, -1], 44100), ([1 / 2, 1 / 2], 44100)] ! i) positions, r')
         \<and> 1 \<le> length positions \<and> length positions \<le> 3 \<and> distinct positions
         \<and> int (length positions) = fst (py_randint counter_random 1 1 2)"
    using selection_count_and_failure [OF counter_randint_ok counter_sample_ok small_engine_cache(2),
        of 1, THEN conjunct2]
    by simp fast
  show ?thesis
    using a b counter_randint_ok counter_sample_ok small_engine_cache select_classic
    by (intro conjI) simp_all
qed

text \<open>
  C7 as stated fails: selection from a type with no asset does not fail with
  \<open>MissingAssetError\<close>.
\<close>

theorem selection_failure_is_value_error:
  "sample_cache small_engine squeaker = Some []
   \<and> select_and_load_samples counter_random small_engine (0, 0) squeaker = Inl ValueError
   \<and> select_and_load_samples counter_random small_engine (0, 0) squeaker \<noteq> Inl MissingAssetError"
  by (simp add: select_and_load_samples_def select_samples_def small_engine_def randint_def)

section \<open>The transform stage\<close>

lemma apply_lowpass_filter_cases:
  "apply_lowpass_filter D a cutoff sr = Inr out \<Longrightarrow>
     sr \<noteq> 0 \<and> butter_sosfilt D 4 (cutoff / (real_of_int sr / 2)) a = Some out"
  by (auto simp: apply_lowpass_filter_def Let_def split: if_splits option.splits)

lemma apply_transformations_cases:
  assumes "apply_transformations D a p = Inr out"
  shows "sample_rate p \<noteq> 0 \<and> a \<noteq> [] \<and>
    (\<exists>a1 a2.
       time_stretch D a (duration p / (real (length a) / real_of_int (sample_rate p))) = Some a1
       \<and> pitch_shift D a1 (sample_rate p) ((pitch p - 5) * 2) = Some a2
       \<and> (if 5 < wetness p
           then butter_sosfilt D 4
                  (real_of_int (800 + (10 - wetness p) * 200) / (real_of_int (sample_rate p) / 2)) a2
                = Some out
           else out = a2))"
proof -
  from assms have sr: "sample_rate p \<noteq> 0"
    by (auto simp: apply_transformations_def split: if_splits)
  from assms sr have ne: "a \<noteq> []"
    by (auto simp: apply_transformations_def Let_def split: if_splits)
  then have cd: "real (length a) / real_of_int (sample_rate p) \<noteq> 0" using sr by simp
  let ?rate = "duration p / (real (length a) / real_of_int (sample_rate p))"
  from assms sr cd obtain a1 where a1: "time_stretch D a ?rate = Some a1"
    by (cases "time_stretch D a ?rate") (auto simp: apply_transformations_def Let_def)
  from assms sr cd a1 obtain a2 where a2: "pitch_shift D a1 (sample_rate p) ((pitch p - 5) * 2) = Some a2"
    by (cases "pitch_shift D a1 (sample_rate p) ((pitch p - 5) * 2)")
      (auto simp: apply_transformations_def Let_def)
  have "if 5 < wetness p
           then butter_sosfilt D 4
                  (real_of_int (800 + (10 - wetness p) * 200) / (real_of_int (sample_rate p) / 2)) a2
                = Some out
           else out = a2"
  proof (cases "5 < wetness p")
    case True
    with assms sr cd a1 a2 have
      "apply_lowpass_filter D a2 (real_of_int (800 + (10 - wetness p) * 200)) (sample_rate p) = Inr out"
      by (simp add: apply_transformations_def Let_def)
    from apply_lowpass_filter_cases [OF this] True show ?thesis by simp
  next
    case False
    with assms sr cd a1 a2 show ?thesis
      by (simp add: apply_transformations_def Let_def)
  qed
  with sr ne a1 a2 show ?thesis by blast
qed

lemma apply_transformations_length:
  assumes "dsp_lengths D" and "apply_transformations D a p = Inr out"
  shows "int (length out) =
     py_round (real (length a) / (duration p / (real (length a) / real_of_int (sample_rate p))))"
proof -
  from apply_transformations_cases [OF assms(2)] obtain a1 a2 where
    a1: "time_stretch D a (duration p / (real (length a) / real_of_int (sample_rate p))) = Some a1"
    and a2: "pitch_shift D a1 (sample_rate p) ((pitch p - 5) * 2) = Some a2"
    and o: "if 5 < wetness p
           then butter_sosfilt D 4
                  (real_of_int (800 + (10 - wetness p) * 200) / (real_of_int (sample_rate p) / 2)) a2
                = Some out
           else out = a2"
    by blast
  from assms(1) a1 have l1: "int (length a1) =
      py_round (real (length a) / (duration p / (real (length a) / real_of_int (sample_rate p))))"
    unfolding dsp_lengths_def by blast
  from assms(1) a2 have l2: "length a2 = length a1"
    unfolding dsp_lengths_def by blast
  from assms(1) o have "length out = length a2"
    unfolding dsp_lengths_def by (auto split: if_splits)
  with l1 l2 show ?thesis by simp
qed

lemma py_round_nonneg: "0 \<le> x \<Longrightarrow> 0 \<le> py_round x"
proof -
  assume "0 \<le> x"
  then have "0 \<le> \<lfloor>x\<rfloor>" by simp
  then show ?thesis by (simp add: py_round_def Let_def)
qed

lemma plain_dsp_lengths: "dsp_lengths plain_dsp"
proof -
  have "int (length (resize_audio y (nat (py_round (real (length y) / rate)))))
      = py_round (real (length y) / rate)" if "\<not> rate \<le> 0" for y :: audio and rate :: real
    using that py_round_nonneg [of "real (length y) / rate"] by (simp add: length_resize_audio)
  then show ?thesis
    by (auto simp: dsp_lengths_def plain_dsp_def split: if_splits)
qed


text \<open>
  C2 at a base sample of one second (44100 samples) and scenario A, whose target is
  4.5 seconds: the stage passes \<open>rate = 4.5 / 1.0\<close> to \<open>time_stretch\<close>, for which a rate
  above 1 speeds the signal up, and returns 9800 samples, 0.22 seconds, which is not
  within 2% of the target, nor within one sample period.
\<close>

theorem time_stretch_rate_inverted:
  assumes "dsp_lengths D" and "length a = 44100"
    and "apply_transformations D a scenario_a = Inr out"
  shows "length out = 9800
    \<and> \<not> \<bar>real (length out) / real_of_int (sample_rate scenario_a) - duration scenario_a\<bar>
          \<le> max (2 / 100 * duration scenario_a) (1 / real_of_int (sample_rate scenario_a))"
proof -
  have "int (length out) = py_round 9800"
    using apply_transformations_length [OF assms(1,3)] by (simp add: assms(2) scenario_a_def)
  then have l: "length out = 9800" by (simp add: py_round_numeral)
  show ?thesis
    by (simp add: l scenario_a_def)
qed

lemma stretch_one_second:
  "apply_transformations plain_dsp (replicate 44100 0) scenario_a = Inr (replicate 9800 0)"
proof -
  show ?thesis
    by (simp add: apply_transformations_def plain_dsp_def scenario_a_def resize_audio_def
        py_round_numeral)
qed

theorem time_stretch_rate_inverted_witness:
  "dsp_lengths plain_dsp \<and> length (replicate 44100 (0::real)) = 44100
   \<and> apply_transformations plain_dsp (replicate 44100 0) scenario_a = Inr (replicate 9800 0)
   \<and> length (replicate 9800 (0::real)) = 9800
   \<and> \<not> \<bar>real (length (replicate 9800 (0::real))) / real_of_int (sample_rate scenario_a)
           - duration scenario_a\<bar>
          \<le> max (2 / 100 * duration scenario_a) (1 / real_of_int (sample_rate scenario_a))"
proof -
  have l: "length (replicate 44100 (0::real)) = 44100" by simp
  show ?thesis
    using time_stretch_rate_inverted [OF plain_dsp_lengths l stretch_one_second]
      plain_dsp_lengths stretch_one_second l
    by (intro conjI) simp_all
qed

lemma apply_lowpass_filter_error:
  "apply_lowpass_filter D a cutoff sr = Inl e \<Longrightarrow> e = ZeroDivisionError \<or> e = LibraryError"
  by (auto simp: apply_lowpass_filter_def Let_def split: if_splits option.splits)

lemma apply_transformations_error:
  "apply_transformations D a p = Inl e \<Longrightarrow> e = ZeroDivisionError \<or> e = LibraryError"
  by (auto simp: apply_transformations_def Let_def split: if_splits option.splits
      dest: apply_lowpass_filter_error)

text \<open>
  C8, as the engine has it. The transform stage has no finiteness check and never fails
  with \<open>TransformInstabilityError\<close>: when the stretch, the shift and (for \<open>wetness >
  5\<close>) the filter return, the stage returns the last buffer as it is, whatever its
  samples are.
\<close>

theorem transform_returns_library_output:
  "apply_transformations D a p \<noteq> Inl TransformInstabilityError
   \<and> (sample_rate p \<noteq> 0 \<longrightarrow> a \<noteq> []
        \<longrightarrow> time_stretch D a (duration p / (real (length a) / real_of_int (sample_rate p))) = Some a1
        \<longrightarrow> pitch_shift D a1 (sample_rate p) ((pitch p - 5) * 2) = Some a2
        \<longrightarrow> (if 5 < wetness p
             then butter_sosfilt D 4
                    (real_of_int (800 + (10 - wetness p) * 200) / (real_of_int (sample_rate p) / 2)) a2
                  = Some a3
             else a3 = a2)
        \<longrightarrow> apply_transformations D a p = Inr a3)"
proof (intro conjI impI)
  show "apply_transformations D a p \<noteq> Inl TransformInstabilityError"
    using apply_transformations_error [of D a p TransformInstabilityError] by auto
next
  assume "sample_rate p \<noteq> 0" and "a \<noteq> []"
    and "time_stretch D a (duration p / (real (length a) / real_of_int (sample_rate p))) = Some a1"
    and "pitch_shift D a1 (sample_rate p) ((pitch p - 5) * 2) = Some a2"
    and "if 5 < wetness p
             then butter_sosfilt D 4
                    (real_of_int (800 + (10 - wetness p) * 200) / (real_of_int (sample_rate p) / 2)) a2
                  = Some a3
             else a3 = a2"
  then show "apply_transformations D a p = Inr a3"
    by (auto simp: apply_transformations_def apply_lowpass_filter_def Let_def split: if_splits)
qed

theorem transform_returns_library_output_witness:
  "sample_rate scenario_a \<noteq> 0 \<and> [Finite 1, Finite (- 1)] \<noteq> []
   \<and> time_stretch overflowing_dsp [Finite 1, Finite (- 1)]
        (duration scenario_a / (real (length [Finite 1, Finite (- 1)]) / real_of_int (sample_rate scenario_a)))
       = Some [Finite 1, Finite (- 1)]
   \<and> pitch_shift overflowing_dsp [Finite 1, Finite (- 1)] (sample_rate scenario_a)
        ((pitch scenario_a - 5) * 2) = Some [PosInf, PosInf]
   \<and> \<not> 5 < wetness scenario_a
   \<and> apply_transformations overflowing_dsp [Finite 1, Finite (- 1)] scenario_a = Inr [PosInf, PosInf]
   \<and> apply_transformations overflowing_dsp [Finite 1, Finite (- 1)] scenario_a
       \<noteq> Inl TransformInstabilityError"
proof -
  have h: "sample_rate scenario_a \<noteq> 0" "[Finite 1, Finite (- 1)] \<noteq> []"
    "time_stretch overflowing_dsp [Finite 1, Finite (- 1)]
        (duration scenario_a / (real (length [Finite 1, Finite (- 1)]) / real_of_int (sample_rate scenario_a)))
       = Some [Finite 1, Finite (- 1)]"
    "pitch_shift overflowing_dsp [Finite 1, Finite (- 1)] (sample_rate scenario_a)
        ((pitch scenario_a - 5) * 2) = Some [PosInf, PosInf]"
    "\<not> 5 < wetness scenario_a"
    by (simp_all add: scenario_a_def overflowing_dsp_def)
  from transform_returns_library_output [of overflowing_dsp "[Finite 1, Finite (- 1)]" scenario_a
      "[Finite 1, Finite (- 1)]" "[PosInf, PosInf]" "[PosInf, PosInf]"] h
  have "apply_transformations overflowing_dsp [Finite 1, Finite (- 1)] scenario_a = Inr [PosInf, PosInf]"
    and "apply_transformations overflowing_dsp [Finite 1, Finite (- 1)] scenario_a
       \<noteq> Inl TransformInstabilityError"
    by simp_all
  with h show ?thesis by (intro conjI)
qed

text \<open>
  C8 as stated fails: with a pitch shift that overflows on a finite buffer, the stage
  returns the buffer of non-finite samples.
\<close>

theorem transform_returns_non_finite_buffer:
  "apply_transformations overflowing_dsp [Finite 1, Finite (- 1)] scenario_a = Inr [PosInf, PosInf]
   \<and> \<not> list_all is_finite [PosInf, PosInf]
   \<and> list_all is_finite [Finite 1, Finite (- 1)]"
  by (simp add: apply_transformations_def overflowing_dsp_def scenario_a_def)

section \<open>The reverb and the peak\<close>

lemma gauss_constant: "gauss_draws (constant_numpy z) n k = (replicate k z, n + k)"
  by (induction k arbitrary: n) (simp_all add: constant_numpy_def)

lemma exp_minus_lower: "1 - x \<le> exp (- x)" for x :: real
  using exp_ge_add_one_self [of "- x"] by simp

lemma tanh_57_50_lower: "57 / 107 \<le> tanh (57 / 50 :: real)"
proof -
  define u :: real where "u = exp (- (57 / 25))"
  have "82 / 25 \<le> exp (57 / 25 :: real)"
    using exp_ge_add_one_self [of "57 / 25 :: real"] by simp
  then have "inverse (exp (57 / 25 :: real)) \<le> inverse (82 / 25)"
    by (intro le_imp_inverse_le) auto
  then have u: "u \<le> 25 / 82" by (simp add: u_def exp_minus)
  have u0: "0 < u" by (simp add: u_def)
  have "tanh (57 / 50 :: real) = (1 - u) / (1 + u)"
    by (simp add: tanh_real_altdef u_def)
  also have "57 / 107 \<le> (1 - u) / (1 + u)"
    using u u0 by (simp add: field_simps)
  finally show ?thesis by simp
qed

lemma reverb_run:
  "post_process (constant_numpy 1) 0 [1, 1, 1, 1, 1, 1]
     (scenario_a\<lparr>sample_rate := 20, reverb_amount := 1\<rparr>)
   = Inr ([tanh (57 / 50) * 9 * exp (- (3 / 4)) / 10 +
      (tanh (57 / 50) * 9 * exp (- (1 / 2)) / 10 +
       (tanh (57 / 50) * 9 * exp (- (1 / 4)) / 10 +
        tanh (57 / 50) * 9 / 10)),
      tanh (57 / 50) * 9 * exp (- 1) / 10 +
      (tanh (57 / 50) * 9 * exp (- (3 / 4)) / 10 +
       (tanh (57 / 50) * 9 * exp (- (1 / 2)) / 10 +
        (tanh (57 / 50) * 9 * exp (- (1 / 4)) / 10 +
         tanh (57 / 50) * 9 / 10))),
      tanh (57 / 50) * 9 * exp (- (5 / 4)) / 10 +
      (tanh (57 / 50) * 9 * exp (- 1) / 10 +
       (tanh (57 / 50) * 9 * exp (- (3 / 4)) / 10 +
        (tanh (57 / 50) * 9 * exp (- (1 / 2)) / 10 +
         tanh (57 / 50) * 9 * exp (- (1 / 4)) / 10))),
      tanh (57 / 50) * 9 * exp (- (3 / 2)) / 10 +
      (tanh (57 / 50) * 9 * exp (- (5 / 4)) / 10 +
       (tanh (57 / 50) * 9 * exp (- 1) / 10 +
        (tanh (57 / 50) * 9 * exp (- (3 / 4)) / 10 +
         tanh (57 / 50) * 9 * exp (- (1 / 2)) / 10))),
      tanh (57 / 50) * 9 * exp (- (7 / 4)) / 10 +
      (tanh (57 / 50) * 9 * exp (- (3 / 2)) / 10 +
       (tanh (57 / 50) * 9 * exp (- (5 / 4)) / 10 +
        (tanh (57 / 50) * 9 * exp (- 1) / 10 +
         tanh (57 / 50) * 9 * exp (- (3 / 4)) / 10))),
      tanh (57 / 50) * 9 * exp (- 2) / 10 +
      (tanh (57 / 50) * 9 * exp (- (7 / 4)) / 10 +
       (tanh (57 / 50) * 9 * exp (- (3 / 2)) / 10 +
        (tanh (57 / 50) * 9 * exp (- (5 / 4)) / 10 +
         tanh (57 / 50) * 9 * exp (- 1) / 10)))], 10)"
  by (simp add: post_process_def normalize_def abs_max_def soft_limiter_def apply_fade_def
      py_int_def scenario_a_def inplace_slice_def slice_index_def linspace_def Let_def
      apply_reverb_def np_normal_def gauss_constant convolve_same_def convolve_full_def
      upt_rec [of _ "numeral k" for k] upt_rec [of _ "Suc k" for k])

lemma reverb_sample_lower:
  "119 / 100 < tanh (57 / 50) * 9 * exp (- 1) / 10 +
      (tanh (57 / 50) * 9 * exp (- (3 / 4)) / 10 +
       (tanh (57 / 50) * 9 * exp (- (1 / 2)) / 10 +
        (tanh (57 / 50) * 9 * exp (- (1 / 4)) / 10 +
         tanh (57 / 50 :: real) * 9 / 10)))"
proof -
  define T :: real where "T = tanh (57 / 50)"
  define S :: real where "S = exp (- 1) + exp (- (3 / 4)) + exp (- (1 / 2)) + exp (- (1 / 4)) + 1"
  have "0 \<le> exp (- 1 :: real)" by simp
  moreover have "1 / 4 \<le> exp (- (3 / 4) :: real)" using exp_minus_lower [of "3 / 4"] by simp
  moreover have "1 / 2 \<le> exp (- (1 / 2) :: real)" using exp_minus_lower [of "1 / 2"] by simp
  moreover have "3 / 4 \<le> exp (- (1 / 4) :: real)" using exp_minus_lower [of "1 / 4"] by simp
  ultimately have S: "5 / 2 \<le> S" unfolding S_def by linarith
  have T: "57 / 107 \<le> T" unfolding T_def by (rule tanh_57_50_lower)
  have "57 / 107 * (5 / 2) \<le> T * S"
    using T S by (intro mult_mono) auto
  then have "119 / 100 < 9 / 10 * (T * S)" by simp
  also have "9 / 10 * (T * S) = T * 9 * exp (- 1) / 10 + (T * 9 * exp (- (3 / 4)) / 10 +
       (T * 9 * exp (- (1 / 2)) / 10 + (T * 9 * exp (- (1 / 4)) / 10 + T * 9 / 10)))"
    unfolding S_def by (simp add: algebra_simps)
  finally show ?thesis unfolding T_def .
qed

text \<open>
  C3 at a reverb amount of 1, on a buffer of six equal samples at 20 Hz, with standard
  normal draws that are all 1: the impulse response is not normalised and the reverb is
  added after the limiter, so sample 1 of the output of the post-processor is above
  1.19, beyond full scale and the target peak of 0.95. \<open>generate\<close> returns the output
  of the post-processor as it is.
\<close>

theorem reverb_output_exceeds_full_scale:
  "valid_params (scenario_a\<lparr>sample_rate := 20, reverb_amount := 1\<rparr>)
   \<and> \<not> isl (post_process (constant_numpy 1) 0 [1, 1, 1, 1, 1, 1]
              (scenario_a\<lparr>sample_rate := 20, reverb_amount := 1\<rparr>))
   \<and> 119 / 100 < fst (projr (post_process (constant_numpy 1) 0 [1, 1, 1, 1, 1, 1]
                     (scenario_a\<lparr>sample_rate := 20, reverb_amount := 1\<rparr>))) ! 1"
  using reverb_sample_lower
  by (simp add: reverb_run) (simp add: valid_params_def scenario_a_def)

section \<open>The noise layer\<close>

lemma layers_noise:
  assumes "generate_synthesis_layers N P n r p = Inr (layers, n', r')"
  shows "\<exists>noise n1.
     generate_noise N n (py_int (double_product (duration p) (sample_rate p))) (sample_rate p)
       (if wetness p > 5 then ''pink'' else ''white'') = Inr (noise, n1)
     \<and> layers ''noise'' = Some noise"
proof -
  let ?len = "py_int (double_product (duration p) (sample_rate p))"
  from layers_cases [OF assms] obtain noise n1 rumble r1 where
    a: "generate_noise N n ?len (sample_rate p) (if wetness p > 5 then ''pink'' else ''white'')
          = Inr (noise, n1)"
    and c: "if 5 < wetness p
          then \<exists>bub. generate_bubbling P r1 ?len (sample_rate p) (wetness p) = Inr (bub, r')
                 \<and> layers = [''noise'' \<mapsto> noise, ''rumble'' \<mapsto> rumble, ''bubbling'' \<mapsto> bub]
          else layers = [''noise'' \<mapsto> noise, ''rumble'' \<mapsto> rumble]"
    by blast
  from c have "layers ''noise'' = Some noise"
    by (auto split: if_splits)
  with a show ?thesis by blast
qed

lemma generate_noise_white:
  "generate_noise N n len sr ''white'' = Inr (noise, n1) \<Longrightarrow>
     noise = map (\<lambda>z. z * (1 / 10)) (fst (gauss_draws N n (nat len)))"
  by (auto simp: generate_noise_def np_normal_def Let_def split: if_splits prod.splits)

lemma generate_noise_pink:
  assumes "generate_noise N n len sr ''pink'' = Inr (noise, n1)"
  shows "\<exists>spectrum pink.
     np_fft N (map complex_of_real (fst (gauss_draws N n (nat len)))) = Some spectrum
     \<and> np_ifft N (map2 (\<lambda>c f. c / complex_of_real (sqrt (\<bar>f\<bar> + 1))) spectrum
                    (fftfreq (nat len) (1 / real_of_int sr))) = Some pink
     \<and> noise = map (\<lambda>c. Re c * (1 / 10)) pink"
proof -
  obtain white n2 where gd: "gauss_draws N n (nat len) = (white, n2)"
    by (cases "gauss_draws N n (nat len)")
  from assms have len: "\<not> len < 0"
    by (auto simp: generate_noise_def np_normal_def split: if_splits)
  have w: "np_normal N n 0 1 len = Inr (white, n2)"
    using len by (simp add: np_normal_def gd)
  from assms w have ne: "white \<noteq> []"
    by (auto simp: generate_noise_def split: if_splits)
  from assms w ne obtain spectrum where f: "np_fft N (map complex_of_real white) = Some spectrum"
    by (cases "np_fft N (map complex_of_real white)") (auto simp: generate_noise_def)
  from assms w ne f have sr: "sr \<noteq> 0"
    by (auto simp: generate_noise_def split: if_splits)
  let ?shaped = "map2 (\<lambda>c f. c / complex_of_real (sqrt (\<bar>f\<bar> + 1))) spectrum
                    (fftfreq (nat len) (1 / real_of_int sr))"
  from assms w ne f sr obtain pink where i: "np_ifft N ?shaped = Some pink"
    by (cases "np_ifft N ?shaped") (auto simp: generate_noise_def Let_def)
  from assms w ne f sr i have "noise = map (\<lambda>c. Re c * (1 / 10)) pink"
    by (auto simp: generate_noise_def Let_def)
  with f i show ?thesis by (simp add: gd)
qed

text \<open>
  C6, as the engine has it. The noise layer is white noise exactly when \<open>wetness \<le>
  5\<close>: independent samples from a normal distribution, each sample being 0.1 times one
  standard normal draw of NumPy's generator, in the order of the draws. Otherwise it is
  pink noise: the white draws (scale 1) are transformed, the spectrum is divided by
  \<open>sqrt(|f| + 1)\<close> at each frequency of \<open>fftfreq\<close>, the result is transformed back, and
  each sample is 0.1 times the real part. The factor 0.1 scales the samples; no ceiling
  is applied to them.
\<close>

theorem noise_layer_white_or_pink:
  assumes "generate_synthesis_layers N P n r p = Inr (layers, n', r')"
  shows "let len = py_int (double_product (duration p) (sample_rate p));
             white = fst (gauss_draws N n (nat len))
         in (wetness p \<le> 5 \<longrightarrow> layers ''noise'' = Some (map (\<lambda>z. z * (1 / 10)) white))
          \<and> (5 < wetness p \<longrightarrow>
               (\<exists>spectrum pink.
                  np_fft N (map complex_of_real white) = Some spectrum
                  \<and> np_ifft N (map2 (\<lambda>c f. c / complex_of_real (sqrt (\<bar>f\<bar> + 1))) spectrum
                                 (fftfreq (nat len) (1 / real_of_int (sample_rate p)))) = Some pink
                  \<and> layers ''noise'' = Some (map (\<lambda>c. Re c * (1 / 10)) pink)))"
proof -
  from layers_noise [OF assms] obtain noise n1 where
    g: "generate_noise N n (py_int (double_product (duration p) (sample_rate p))) (sample_rate p)
       (if wetness p > 5 then ''pink'' else ''white'') = Inr (noise, n1)"
    and l: "layers ''noise'' = Some noise"
    by blast
  show ?thesis
  proof (cases "5 < wetness p")
    case True
    with g generate_noise_pink [of N n _ "sample_rate p" noise n1] l show ?thesis
      by (simp add: Let_def)
  next
    case False
    with g generate_noise_white [of N n _ "sample_rate p" noise n1] l show ?thesis
      by (simp add: Let_def)
  qed
qed

lemma gauss_table:
  "gauss_draws table_numpy n k = (map (\<lambda>i. seed_42_draws ! ((n + i) mod 5)) [0..<k], n + k)"
proof (induction k arbitrary: n)
  case 0
  then show ?case by simp
next
  case (Suc k)
  have u: "[0..<Suc k] = 0 # map Suc [0..<k]"
    by (simp add: map_Suc_upt upt_conv_Cons)
  have g: "np_gauss table_numpy n = (seed_42_draws ! (n mod 5), Suc n)"
    by (simp add: table_numpy_def)
  show ?case
    unfolding u by (simp add: g Suc)
qed

lemma table_noise_nth:
  "i < k \<Longrightarrow> fst (gauss_draws table_numpy n k) ! i = seed_42_draws ! ((n + i) mod 5)"
  by (simp add: gauss_table)

lemma scenario_a_layers:
  "\<exists>layers n' r'.
      generate_synthesis_layers table_numpy counter_random n r scenario_a = Inr (layers, n', r')"
proof -
  have "sample_rate scenario_a \<noteq> 0"
    by (simp add: scenario_a_def)
  moreover have "1000 \<le> py_int (double_product (duration scenario_a) (sample_rate scenario_a))"
    by (simp add: scenario_lengths)
  ultimately show ?thesis
    by (intro layers_succeed counter_randint_ok table_numpy_fft_total scenario_no_overflow)
qed

lemma scenario_c_layers:
  "\<exists>layers n' r'.
      generate_synthesis_layers table_numpy counter_random n r scenario_c = Inr (layers, n', r')"
proof -
  have "sample_rate scenario_c \<noteq> 0"
    by (simp add: scenario_c_def)
  moreover have "1000 \<le> py_int (double_product (duration scenario_c) (sample_rate scenario_c))"
    by (simp add: scenario_lengths)
  ultimately show ?thesis
    by (intro layers_succeed counter_randint_ok table_numpy_fft_total scenario_no_overflow)
qed

lemma scenario_a_noise:
  assumes "generate_synthesis_layers table_numpy counter_random n r scenario_a = Inr (layers, n', r')"
  shows "layers ''noise'' = Some (map (\<lambda>z. z * (1 / 10)) (fst (gauss_draws table_numpy n 198450)))"
proof -
  have wa: "\<not> 5 < wetness scenario_a"
    by (simp add: scenario_a_def)
  from layers_noise [OF assms] wa obtain noise n1 where
    g: "generate_noise table_numpy n
          (py_int (double_product (duration scenario_a) (sample_rate scenario_a)))
          (sample_rate scenario_a) ''white'' = Inr (noise, n1)"
    and l: "layers ''noise'' = Some noise"
    by auto
  have "noise = map (\<lambda>z. z * (1 / 10)) (fst (gauss_draws table_numpy n 198450))"
    using generate_noise_white [OF g] by (simp add: scenario_lengths)
  with l show ?thesis by simp
qed

theorem noise_layer_white_or_pink_witness:
  "(\<exists>layers n' r' noise.
      generate_synthesis_layers table_numpy counter_random 0 0 scenario_a = Inr (layers, n', r')
      \<and> wetness scenario_a \<le> 5
      \<and> layers ''noise'' = Some noise \<and> length noise = 198450
      \<and> noise ! 0 = 4967 / 100000 \<and> noise ! 1 = - (1383 / 100000) \<and> noise ! 3 = 1523 / 10000)
   \<and> (\<exists>layers n' r' pink.
      generate_synthesis_layers table_numpy counter_random 0 0 scenario_c = Inr (layers, n', r')
      \<and> 5 < wetness scenario_c
      \<and> layers ''noise'' = Some (map (\<lambda>c. Re c * (1 / 10)) pink))"
proof -
  obtain la na ra where
    a: "generate_synthesis_layers table_numpy counter_random 0 0 scenario_a = Inr (la, na, ra)"
    using scenario_a_layers [of 0 0] by blast
  obtain lc nc rc where
    c: "generate_synthesis_layers table_numpy counter_random 0 0 scenario_c = Inr (lc, nc, rc)"
    using scenario_c_layers [of 0 0] by blast
  have wa: "wetness scenario_a \<le> 5" and wc: "5 < wetness scenario_c"
    by (simp_all add: scenario_a_def scenario_c_def)
  let ?noise = "map (\<lambda>z. z * (1 / 10)) (fst (gauss_draws table_numpy 0 198450))"
  have n: "la ''noise'' = Some ?noise"
    using noise_layer_white_or_pink [OF a] wa
    by (simp add: Let_def scenario_lengths)
  have v: "length ?noise = 198450" "?noise ! 0 = 4967 / 100000"
    "?noise ! 1 = - (1383 / 100000)" "?noise ! 3 = 1523 / 10000"
    by (simp_all add: length_gauss_draws table_noise_nth seed_42_draws_def)
  have "\<exists>pink. lc ''noise'' = Some (map (\<lambda>c. Re c * (1 / 10)) pink)"
    using noise_layer_white_or_pink [OF c] wc
    by (auto simp: Let_def)
  then show ?thesis
    using a c wa wc n v by blast
qed

text \<open>
  C6 as stated fails: 0.1 is the standard deviation of the white noise, not a ceiling. On
  scenario A, with the draws that seed 42 gives, sample 3 of the noise layer is 0.1523.
\<close>

theorem white_noise_exceeds_ceiling:
  "valid_params scenario_a \<and> wetness scenario_a \<le> 5
   \<and> \<not> isl (generate_synthesis_layers table_numpy counter_random 0 0 scenario_a)
   \<and> the (fst (projr (generate_synthesis_layers table_numpy counter_random 0 0 scenario_a))
            ''noise'') ! 3 = 1523 / 10000
   \<and> \<not> \<bar>1523 / 10000\<bar> \<le> (1 / 10 :: real)"
proof -
  obtain la na ra where
    a: "generate_synthesis_layers table_numpy counter_random 0 0 scenario_a = Inr (la, na, ra)"
    using scenario_a_layers [of 0 0] by blast
  have "the (la ''noise'') ! 3 = 1523 / 10000"
    by (simp add: scenario_a_noise [OF a] length_gauss_draws table_noise_nth seed_42_draws_def)
  with a show ?thesis
    by (simp add: valid_params_def scenario_a_def)
qed

section \<open>A dry render\<close>

lemma normalize_succeeds:
  "a \<noteq> [] \<Longrightarrow> \<exists>a1. normalize a t = Inr a1 \<and> length a1 = length a"
  by (simp add: normalize_def abs_max_def)

lemma inplace_full_slice:
  assumes "slice_index j (length a) - slice_index i (length a) = length rhs"
  shows "\<exists>a'. inplace_slice f a i j rhs = Inr a' \<and> length a' = length a"
proof -
  have "slice_index i (length a) \<le> length a" and "slice_index j (length a) \<le> length a"
    by (auto simp: slice_index_def)
  then show ?thesis
    using assms by (auto simp: inplace_slice_def Let_def)
qed

lemma apply_fade_succeeds:
  assumes "1 \<le> fs" and "fs \<le> int (length a)"
  shows "\<exists>a'. apply_fade a fs = Inr a' \<and> length a' = length a"
proof -
  have i: "slice_index fs (length a) - slice_index 0 (length a) = length (linspace 0 1 (nat fs))"
    using assms by (auto simp: slice_index_def length_linspace)
  obtain a1 where a1: "inplace_slice (*) a 0 fs (linspace 0 1 (nat fs)) = Inr a1"
    and l1: "length a1 = length a"
    using inplace_full_slice [OF i, of "(*)"] by blast
  have o: "slice_index (int (length a1)) (length a1) - slice_index (- fs) (length a1)
      = length (linspace 1 0 (nat fs))"
    using assms l1 by (auto simp: slice_index_def length_linspace)
  obtain a2 where a2: "inplace_slice (*) a1 (- fs) (int (length a1)) (linspace 1 0 (nat fs)) = Inr a2"
    and l2: "length a2 = length a1"
    using inplace_full_slice [OF o, of "(*)"] by blast
  show ?thesis
    using assms a1 a2 l1 l2 by (simp add: apply_fade_def)
qed

lemma post_process_dry_succeeds:
  assumes "a \<noteq> []" and "1 \<le> py_int (5 / 100 * real_of_int (sample_rate p))"
    and "py_int (5 / 100 * real_of_int (sample_rate p)) \<le> int (length a)"
    and "\<not> reverb_amount p > 0"
  shows "\<exists>out. post_process N n a p = Inr (out, n) \<and> length out = length a"
proof -
  obtain a1 where a1: "normalize a (95 / 100) = Inr a1" and l1: "length a1 = length a"
    using normalize_succeeds [OF assms(1)] by blast
  have l2: "length (soft_limiter a1) = length a" by (simp add: soft_limiter_def l1)
  obtain a3 where
    a3: "apply_fade (soft_limiter a1) (py_int (5 / 100 * real_of_int (sample_rate p))) = Inr a3"
    and l3: "length a3 = length a"
    using apply_fade_succeeds [of "py_int (5 / 100 * real_of_int (sample_rate p))" "soft_limiter a1"]
      assms(2,3) l2 by auto
  show ?thesis
    using assms(4) a1 a3 l3 by (simp add: post_process_def Let_def)
qed

lemma layers_rumble:
  assumes "generate_synthesis_layers N P n r p = Inr (layers, n', r')"
  shows "\<exists>rumble. layers ''rumble'' = Some rumble"
proof -
  let ?len = "py_int (double_product (duration p) (sample_rate p))"
  from layers_cases [OF assms] obtain noise rumble r1 where
    c: "if 5 < wetness p
          then \<exists>bub. generate_bubbling P r1 ?len (sample_rate p) (wetness p) = Inr (bub, r')
                 \<and> layers = [''noise'' \<mapsto> noise, ''rumble'' \<mapsto> rumble, ''bubbling'' \<mapsto> bub]
          else layers = [''noise'' \<mapsto> noise, ''rumble'' \<mapsto> rumble]"
    by blast
  then show ?thesis
    by (auto split: if_splits)
qed

lemma mix_layers_succeeds:
  assumes "layers ''noise'' = Some noise" and "layers ''rumble'' = Some rumble"
  shows "\<exists>mixed. mix_layers base layers = Inr mixed \<and> length mixed = length base"
proof (cases "layers ''bubbling''")
  case None
  then show ?thesis using mix_layers_dry [OF assms None, of base] by simp
next
  case (Some bubbling)
  then show ?thesis using mix_layers_wet [OF assms Some, of base] by simp
qed

lemma select_rumbler:
  "select_and_load_samples counter_random small_engine (r, n) rumbler
     = Inr (replicate 44100 (1 / 2), Suc (Suc r), n)"
  by (simp add: select_and_load_samples_def select_samples_def small_engine_def randint_def
      counter_random_def)

lemma stretch_rumbler:
  "apply_transformations plain_dsp (replicate 44100 x) scenario_a = Inr (replicate 9800 x)"
  by (simp add: apply_transformations_def plain_dsp_def scenario_a_def resize_audio_def
      py_round_numeral)

lemma dry_render:
  assumes seed: "\<not> (randomness_seed p < 0 \<or> 2 ^ 32 \<le> randomness_seed p)"
    and sel: "select_and_load_samples P E
        (py_seed P (randomness_seed p) (fst g), np_seed N (randomness_seed p) (snd g)) (ptype p)
      = Inr (base, r1, n0)"
    and lay: "generate_synthesis_layers N P n0 r1 p = Inr (layers, n1, r2)"
    and tr: "apply_transformations D base p = Inr base'"
    and ne: "base' \<noteq> []"
    and f1: "1 \<le> py_int (5 / 100 * real_of_int (sample_rate p))"
    and f2: "py_int (5 / 100 * real_of_int (sample_rate p)) \<le> int (length base')"
    and dry: "\<not> reverb_amount p > 0"
  shows "\<exists>final. generate P N D E g p = Inr ((final, sample_rate p), r2, n1)
      \<and> length final = length base'"
proof -
  obtain noise where no: "layers ''noise'' = Some noise"
    using layers_noise [OF lay] by blast
  obtain rumble where ru: "layers ''rumble'' = Some rumble"
    using layers_rumble [OF lay] by blast
  obtain mixed where m: "mix_layers base' layers = Inr mixed"
    and lm: "length mixed = length base'"
    using mix_layers_succeeds [OF no ru, of base'] by blast
  have mne: "mixed \<noteq> []" using ne lm by auto
  have f2': "py_int (5 / 100 * real_of_int (sample_rate p)) \<le> int (length mixed)"
    using f2 lm by simp
  obtain out where pp: "post_process N n1 mixed p = Inr (out, n1)"
    and lo: "length out = length mixed"
    using post_process_dry_succeeds [OF mne f1 f2' dry, of N n1] by blast
  have "generate P N D E g p = Inr ((out, sample_rate p), r2, n1)"
    using seed by (simp add: generate_def Let_def sel lay tr m pp)
  with lo lm show ?thesis by simp
qed

lemma counter_seed: "py_seed counter_random s r = nat \<bar>s\<bar>"
  by (simp add: counter_random_def)

lemma table_seed: "np_seed table_numpy s n = 0"
  by (simp add: table_numpy_def)

lemma scenario_a_render:
  "\<exists>final st. generate counter_random table_numpy plain_dsp small_engine g scenario_a
       = Inr ((final, 44100), st) \<and> length final = 9800"
proof -
  have p: "randomness_seed scenario_a = 42" "ptype scenario_a = rumbler"
    "sample_rate scenario_a = 44100" "reverb_amount scenario_a = 0"
    by (simp_all add: scenario_a_def)
  obtain layers n1 r2 where
    l: "generate_synthesis_layers table_numpy counter_random 0 44 scenario_a = Inr (layers, n1, r2)"
    using scenario_a_layers [of 0 44] by blast
  have "\<exists>final. generate counter_random table_numpy plain_dsp small_engine g scenario_a
      = Inr ((final, sample_rate scenario_a), r2, n1)
      \<and> length final = length (replicate 9800 (1 / 2 :: real))"
  proof (rule dry_render [OF _ _ l stretch_rumbler])
    show "\<not> (randomness_seed scenario_a < 0 \<or> 2 ^ 32 \<le> randomness_seed scenario_a)"
      by (simp add: p)
    show "select_and_load_samples counter_random small_engine
        (py_seed counter_random (randomness_seed scenario_a) (fst g),
         np_seed table_numpy (randomness_seed scenario_a) (snd g)) (ptype scenario_a)
      = Inr (replicate 44100 (1 / 2), 44, 0)"
      by (simp add: p counter_seed table_seed select_rumbler)
    show "replicate 9800 (1 / 2 :: real) \<noteq> []" by simp
    show "1 \<le> py_int (5 / 100 * real_of_int (sample_rate scenario_a))"
      by (simp add: p py_int_def)
    show "py_int (5 / 100 * real_of_int (sample_rate scenario_a))
        \<le> int (length (replicate 9800 (1 / 2 :: real)))"
      by (simp add: p py_int_def)
    show "\<not> reverb_amount scenario_a > 0" by (simp add: p)
  qed
  then show ?thesis by (auto simp: p)
qed

lemma fl64_threshold: "double_product (duration threshold_params) (sample_rate threshold_params) = 1000"
  using fl64_eval [of 9 "5625983294653961 / 2 ^ 53 * 1601"]
  by (simp add: threshold_params_def double_product_def fl64_1601 powr_neg_numeral py_round_def)

lemma threshold_no_overflow:
  "\<not> product_overflows (duration threshold_params) (sample_rate threshold_params)"
  using fl64_threshold
  by (simp add: product_overflows_def f64_max_def) (simp add: threshold_params_def fl64_1601)

lemma threshold_layers:
  "\<exists>layers n' r'.
      generate_synthesis_layers table_numpy counter_random n r threshold_params = Inr (layers, n', r')"
proof -
  have "sample_rate threshold_params \<noteq> 0"
    by (simp add: threshold_params_def)
  moreover have "1000 \<le> py_int (double_product (duration threshold_params) (sample_rate threshold_params))"
    by (simp add: fl64_threshold py_int_def)
  ultimately show ?thesis
    by (intro layers_succeed counter_randint_ok table_numpy_fft_total threshold_no_overflow)
qed

lemma stretch_threshold:
  "apply_transformations plain_dsp (replicate 44100 x) threshold_params
     = Inr (replicate 44100 x @ replicate 1900710 0)"
  by (simp add: apply_transformations_def apply_lowpass_filter_def plain_dsp_def
      threshold_params_def resize_audio_def py_round_def)

lemma threshold_render:
  "\<exists>final st. generate counter_random table_numpy plain_dsp small_engine g threshold_params
       = Inr ((final, 1601), st) \<and> length final = 1944810"
proof -
  have p: "randomness_seed threshold_params = 7" "ptype threshold_params = rumbler"
    "sample_rate threshold_params = 1601" "reverb_amount threshold_params = 0"
    by (simp_all add: threshold_params_def)
  obtain layers n1 r2 where
    l: "generate_synthesis_layers table_numpy counter_random 0 9 threshold_params = Inr (layers, n1, r2)"
    using threshold_layers [of 0 9] by blast
  have "\<exists>final. generate counter_random table_numpy plain_dsp small_engine g threshold_params
      = Inr ((final, sample_rate threshold_params), r2, n1)
      \<and> length final = length (replicate 44100 (1 / 2 :: real) @ replicate 1900710 0)"
  proof (rule dry_render [OF _ _ l stretch_threshold])
    show "\<not> (randomness_seed threshold_params < 0 \<or> 2 ^ 32 \<le> randomness_seed threshold_params)"
      by (simp add: p)
    show "select_and_load_samples counter_random small_engine
        (py_seed counter_random (randomness_seed threshold_params) (fst g),
         np_seed table_numpy (randomness_seed threshold_params) (snd g)) (ptype threshold_params)
      = Inr (replicate 44100 (1 / 2), 9, 0)"
      by (simp add: p counter_seed table_seed select_rumbler)
    show "replicate 44100 (1 / 2 :: real) @ replicate 1900710 0 \<noteq> []" by simp
    show "1 \<le> py_int (5 / 100 * real_of_int (sample_rate threshold_params))"
      by (simp add: p py_int_def)
    show "py_int (5 / 100 * real_of_int (sample_rate threshold_params))
        \<le> int (length (replicate 44100 (1 / 2 :: real) @ replicate 1900710 0))"
      by (simp add: p py_int_def)
    show "\<not> reverb_amount threshold_params > 0" by (simp add: p)
  qed
  then show ?thesis by (auto simp: p)
qed

text \<open>
  C10 as stated fails: with the duration 0.6246096189881324 at 1601 Hz and a wetness
  of 10, which are valid parameters, the exact product of duration and sample rate is
  below 1000, the product that Python computes is 1000.0, the buffer has 1000 samples,
  \<open>random.randint(0, 0)\<close> returns and so does the render.
\<close>

theorem render_at_threshold:
  "valid_params threshold_params \<and> 5 < wetness threshold_params
   \<and> 0 < sample_rate threshold_params
   \<and> duration threshold_params * real_of_int (sample_rate threshold_params) < 1000
   \<and> \<not> isl (generate counter_random table_numpy plain_dsp small_engine (0, 0) threshold_params)
   \<and> py_int (double_product (duration threshold_params) (sample_rate threshold_params)) = 1000"
proof -
  obtain final st where
    "generate counter_random table_numpy plain_dsp small_engine (0, 0) threshold_params
       = Inr ((final, 1601), st)"
    using threshold_render [of "(0, 0)"] by blast
  then show ?thesis
    by (simp add: fl64_threshold py_int_def) (simp add: valid_params_def threshold_params_def)
qed

section \<open>Determinism of a render\<close>

text \<open>
  C1. Two executions of \<open>generate\<close> on the same engine with the same parameters, seed
  included, give the same result: the same samples and sample rate, or the same
  failure. The two global random generators are in whatever states \<open>g1\<close> and \<open>g2\<close>
  earlier calls have left them; \<open>generate\<close> seeds both from \<open>randomness_seed\<close> before
  it draws, and seeding leaves a generator in a state that depends on the seed alone.
  In particular a second render, started from the states \<open>g'\<close> in which a first one has
  left the generators, returns what the first has returned.
\<close>

theorem generate_deterministic:
  assumes "seeding_resets P N"
  shows "generate P N D E g1 p = generate P N D E g2 p
    \<and> (generate P N D E g1 p = Inr (out, g') \<longrightarrow> generate P N D E g' p = Inr (out, g'))"
proof -
  have eq: "generate P N D E g p = generate P N D E h p" for g h
  proof -
    have "py_seed P (randomness_seed p) (fst g) = py_seed P (randomness_seed p) (fst h)"
      and "np_seed N (randomness_seed p) (snd g) = np_seed N (randomness_seed p) (snd h)"
      using assms unfolding seeding_resets_def by blast+
    then show ?thesis by (simp add: generate_def)
  qed
  from eq [of g1 g2] eq [of g' g1] show ?thesis by simp
qed

lemma counter_table_seeding: "seeding_resets counter_random table_numpy"
  by (simp add: seeding_resets_def counter_random_def table_numpy_def)

theorem generate_deterministic_witness:
  "seeding_resets counter_random table_numpy
   \<and> generate counter_random table_numpy plain_dsp small_engine (0, 0) scenario_a
       = generate counter_random table_numpy plain_dsp small_engine (5, 3) scenario_a
   \<and> (\<exists>final st.
         generate counter_random table_numpy plain_dsp small_engine (0, 0) scenario_a
           = Inr ((final, 44100), st)
         \<and> length final = 9800
         \<and> generate counter_random table_numpy plain_dsp small_engine st scenario_a
           = Inr ((final, 44100), st))
   \<and> (\<exists>la na ra lb nb rb.
         generate_synthesis_layers table_numpy counter_random 0 0 scenario_a = Inr (la, na, ra)
         \<and> generate_synthesis_layers table_numpy counter_random 3 0 scenario_a = Inr (lb, nb, rb)
         \<and> the (la ''noise'') ! 0 = 4967 / 100000 \<and> the (lb ''noise'') ! 0 = 1523 / 10000)"
proof -
  let ?gen = "generate counter_random table_numpy plain_dsp small_engine"
  have a: "?gen (0, 0) scenario_a = ?gen (5, 3) scenario_a"
    using generate_deterministic [OF counter_table_seeding, THEN conjunct1] .
  obtain final st where run: "?gen (0, 0) scenario_a = Inr ((final, 44100), st)"
    and len: "length final = 9800"
    using scenario_a_render [of "(0, 0)"] by blast
  have again: "?gen st scenario_a = Inr ((final, 44100), st)"
    using generate_deterministic [OF counter_table_seeding, THEN conjunct2] run by blast
  obtain la na ra where
    la: "generate_synthesis_layers table_numpy counter_random 0 0 scenario_a = Inr (la, na, ra)"
    using scenario_a_layers [of 0 0] by blast
  obtain lb nb rb where
    lb: "generate_synthesis_layers table_numpy counter_random 3 0 scenario_a = Inr (lb, nb, rb)"
    using scenario_a_layers [of 3 0] by blast
  have "the (la ''noise'') ! 0 = 4967 / 100000"
    by (simp add: scenario_a_noise [OF la] length_gauss_draws table_noise_nth seed_42_draws_def)
  moreover have "the (lb ''noise'') ! 0 = 1523 / 10000"
    by (simp add: scenario_a_noise [OF lb] length_gauss_draws table_noise_nth seed_42_draws_def)
  ultimately have d: "\<exists>la na ra lb nb rb.
         generate_synthesis_layers table_numpy counter_random 0 0 scenario_a = Inr (la, na, ra)
         \<and> generate_synthesis_layers table_numpy counter_random 3 0 scenario_a = Inr (lb, nb, rb)
         \<and> the (la ''noise'') ! 0 = 4967 / 100000 \<and> the (lb ''noise'') ! 0 = 1523 / 10000"
    using la lb by blast
  have c: "\<exists>final st. ?gen (0, 0) scenario_a = Inr ((final, 44100), st)
         \<and> length final = 9800 \<and> ?gen st scenario_a = Inr ((final, 44100), st)"
    using run len again by blast
  show ?thesis
    using counter_table_seeding a c d by (intro conjI)
qed

section \<open>The limiter and the fade in double precision\<close>

lemma f64_max_ge_1: "1 \<le> f64_max"
  by (simp add: f64_max_def)

lemma fl64_abs_le:
  assumes "\<bar>x\<bar> \<le> c" and "fl64 c = c"
  shows "\<bar>fl64 x\<bar> \<le> c"
proof -
  have "fl64 (- c) \<le> fl64 x" and "fl64 x \<le> fl64 c"
    using assms(1) by (intro fl64_mono; linarith)+
  then show ?thesis using assms(2) by (simp add: fl64_minus abs_le_iff)
qed

lemma f64_of_real_within:
  assumes "\<bar>x\<bar> \<le> c" and "fl64 c = c" and "c \<le> f64_max"
  shows "f64_of_real x = Finite (fl64 x) \<and> \<bar>fl64 x\<bar> \<le> c"
proof -
  have b: "\<bar>fl64 x\<bar> \<le> c" using assms(1,2) by (rule fl64_abs_le)
  then have "\<not> f64_max < fl64 x" and "\<not> fl64 x < - f64_max"
    using assms(3) by linarith+
  with b show ?thesis by (simp add: f64_of_real_def)
qed

lemma fl64_tanh_le: "\<bar>fl64 (tanh x)\<bar> \<le> 1"
proof (rule fl64_abs_le)
  show "\<bar>tanh x\<bar> \<le> 1"
    using tanh_real_lt_1 [of x] tanh_real_gt_neg1 [of x] by (simp add: abs_le_iff)
  show "fl64 1 = 1" by (rule fl64_1)
qed

lemma f64_tanh_cases: "f64_tanh y = NaN \<or> (\<exists>t. f64_tanh y = Finite t \<and> \<bar>t\<bar> \<le> 1)"
  by (cases y) (simp_all add: fl64_tanh_le)

lemma fl64_c09: "fl64 (fl64 (9 / 10)) = fl64 (9 / 10)"
  by (simp only: fl64_9_10 fl64_c09_fix)

lemma c09_bounds: "0 \<le> fl64 (9 / 10)" "fl64 (9 / 10) \<le> f64_max"
  using f64_max_ge_1 by (simp_all add: fl64_9_10)

lemma peak_within_mul:
  assumes "peak_within c x" and "\<bar>v\<bar> \<le> 1" and "fl64 c = c" and "c \<le> f64_max"
  shows "peak_within c (f64_mul x (Finite v))"
proof (cases x)
  case (Finite u)
  with assms(1) have u: "\<bar>u\<bar> \<le> c" by simp
  have "\<bar>u * v\<bar> = \<bar>u\<bar> * \<bar>v\<bar>" by (simp add: abs_mult)
  also have "\<dots> \<le> \<bar>u\<bar> * 1" using assms(2) by (intro mult_left_mono) auto
  finally have "\<bar>u * v\<bar> \<le> c" using u by simp
  from f64_of_real_within [OF this assms(3,4)] show ?thesis
    by (simp add: Finite f64_mul_def)
next
  case NaN
  then show ?thesis by (simp add: f64_mul_def)
qed (use assms(1) in simp_all)

lemma limiter_sample:
  "peak_within (fl64 (9 / 10)) (f64_mul (f64_tanh y) (Finite (fl64 (9 / 10))))"
proof -
  let ?c = "fl64 (9 / 10)"
  from f64_tanh_cases [of y] show ?thesis
  proof
    assume "f64_tanh y = NaN"
    then show ?thesis by (simp add: f64_mul_def)
  next
    assume "\<exists>t. f64_tanh y = Finite t \<and> \<bar>t\<bar> \<le> 1"
    then obtain t where t: "f64_tanh y = Finite t" and b: "\<bar>t\<bar> \<le> 1" by blast
    have "\<bar>t * ?c\<bar> = \<bar>t\<bar> * ?c" using c09_bounds(1) by (simp add: abs_mult)
    also have "\<dots> \<le> 1 * ?c" using b c09_bounds(1) by (intro mult_right_mono) auto
    finally have "\<bar>t * ?c\<bar> \<le> ?c" by simp
    from f64_of_real_within [OF this fl64_c09 c09_bounds(2)] show ?thesis
      by (simp add: t f64_mul_def)
  qed
qed

lemma soft_limiter_f64_bound: "list_all (peak_within (fl64 (9 / 10))) (soft_limiter_f64 a)"
  unfolding soft_limiter_f64_def list_all_iff using limiter_sample by auto

lemma f64_exponent_eval:
  assumes "2 powr real_of_int e \<le> \<bar>x\<bar>" and "\<bar>x\<bar> < 2 powr (real_of_int e + 1)" and "- 1022 \<le> e"
  shows "f64_exponent x = e"
proof -
  have pos: "0 < \<bar>x\<bar>" using assms(1) by (smt (verit) powr_gt_zero)
  have "\<lfloor>log 2 \<bar>x\<bar>\<rfloor> = e"
    using assms(1,2) pos by (simp add: floor_log_eq_powr_iff)
  then show ?thesis using assms(3) by (simp add: f64_exponent_def)
qed

lemma fl64_rel_upper:
  assumes "0 < x" and "- 1022 < f64_exponent x"
  shows "fl64 x \<le> x * (1 + 1 / 2 ^ 53)"
proof -
  let ?e = "real_of_int (f64_exponent x)"
  let ?u = "2 powr (?e - 52)"
  have u: "0 < ?u" by simp
  have "fl64 x = real_of_int (py_round (x / ?u)) * ?u"
    using fl64_alt [of x] assms(1) by simp
  also have "\<dots> \<le> (x / ?u + 1 / 2) * ?u"
    using py_round_near [of "x / ?u"] by (intro mult_right_mono) auto
  also have "\<dots> = x + ?u / 2" using u by (simp add: field_simps)
  finally have a: "fl64 x \<le> x + ?u / 2" .
  have "?u = 2 powr ?e * 2 powr (- 52)"
    by (subst powr_add [symmetric]) simp
  also have "\<dots> \<le> x * 2 powr (- 52)"
    using f64_exponent_lower [OF assms] by (intro mult_right_mono) auto
  finally have "?u / 2 \<le> x * 2 powr (- 52) / 2" by simp
  also have "\<dots> = x / 2 ^ 53" by (simp add: powr_neg_numeral)
  finally have "?u / 2 \<le> x / 2 ^ 53" .
  with a show ?thesis by (simp add: algebra_simps)
qed

lemma f64_exponent_pow53: "f64_exponent (1 / 2 ^ 53) = - 53"
  by (rule f64_exponent_eval) (simp_all add: powr_neg_numeral)

lemma fl64_reciprocal:
  assumes "1 \<le> m" and "m \<le> 2 ^ 53"
  shows "0 \<le> fl64 (1 / real m) \<and> real m * fl64 (1 / real m) \<le> 1 + 1 / 2 ^ 53"
proof -
  let ?x = "1 / real m"
  have pos: "0 < ?x" using assms(1) by simp
  have "real m \<le> 2 ^ 53" using assms(2)
    by (metis of_nat_le_iff of_nat_numeral of_nat_power)
  then have "1 / 2 ^ 53 \<le> ?x" using assms(1) by (simp add: field_simps)
  then have "f64_exponent (1 / 2 ^ 53) \<le> f64_exponent ?x"
    by (intro f64_exponent_mono) auto
  then have e: "- 1022 < f64_exponent ?x" using f64_exponent_pow53 by linarith
  have "real m * fl64 ?x \<le> real m * (?x * (1 + 1 / 2 ^ 53))"
    using fl64_rel_upper [OF pos e] by (intro mult_left_mono) auto
  also have "\<dots> = 1 + 1 / 2 ^ 53" using assms(1) by simp
  finally show ?thesis using fl64_nonneg [of ?x] pos by simp
qed

lemma fl64_one_plus: "fl64 (1 + 1 / 2 ^ 53) = 1"
  using fl64_eval [of 0 "1 + 1 / 2 ^ 53"] by (simp add: powr_neg_numeral py_round_def)

lemma fl64_unit: "0 \<le> x \<Longrightarrow> x \<le> 1 \<Longrightarrow> 0 \<le> fl64 x \<and> fl64 x \<le> 1"
  using fl64_mono [of x 1] fl64_nonneg [of x] by (simp add: fl64_1)

lemma fade_step:
  assumes "1 \<le> m" and "m \<le> 2 ^ 53" and "i \<le> m"
  shows "0 \<le> fl64 (real i * fl64 (1 / real m)) \<and> fl64 (real i * fl64 (1 / real m)) \<le> 1"
proof -
  let ?s = "fl64 (1 / real m)"
  from fl64_reciprocal [OF assms(1,2)] have s: "0 \<le> ?s" and ms: "real m * ?s \<le> 1 + 1 / 2 ^ 53"
    by simp_all
  have "real i * ?s \<le> real m * ?s" using assms(3) s by (intro mult_right_mono) auto
  with ms have "real i * ?s \<le> 1 + 1 / 2 ^ 53" by linarith
  then have "fl64 (real i * ?s) \<le> fl64 (1 + 1 / 2 ^ 53)" by (rule fl64_mono)
  moreover have "0 \<le> fl64 (real i * ?s)" using s by (intro fl64_nonneg) simp
  ultimately show ?thesis using fl64_one_plus by linarith
qed

lemma length_linspace_f64: "length (linspace_f64 a b k) = k"
  by (simp add: linspace_f64_def Let_def)

lemma linspace_f64_up:
  assumes "k \<le> 2 ^ 53" and "y \<in> set (linspace_f64 0 1 k)"
  shows "0 \<le> y \<and> y \<le> 1"
proof (cases "k = 1")
  case True
  with assms(2) show ?thesis by (simp add: linspace_f64_def)
next
  case False
  with assms(2) obtain i where i: "i < k"
    and y: "y = (if i = k - 1 then 1 else fl64 (fl64 (real i * fl64 (fl64 1 / real (k - 1))) + 0))"
    by (auto simp: linspace_f64_def Let_def)
  show ?thesis
  proof (cases "i = k - 1")
    case True
    with y show ?thesis by simp
  next
    case ne: False
    with i have m: "1 \<le> k - 1" "k - 1 \<le> 2 ^ 53" "i \<le> k - 1" using assms(1) by simp_all
    from fade_step [OF m] have "0 \<le> fl64 (real i * fl64 (1 / real (k - 1)))"
      and "fl64 (real i * fl64 (1 / real (k - 1))) \<le> 1" by simp_all
    from fl64_unit [OF this] show ?thesis using y ne by (simp add: fl64_1)
  qed
qed

lemma linspace_f64_down:
  assumes "k \<le> 2 ^ 53" and "y \<in> set (linspace_f64 1 0 k)"
  shows "0 \<le> y \<and> y \<le> 1"
proof (cases "k = 1")
  case True
  with assms(2) show ?thesis by (simp add: linspace_f64_def)
next
  case False
  with assms(2) obtain i where i: "i < k"
    and y: "y = (if i = k - 1 then 0 else fl64 (fl64 (real i * fl64 (fl64 (- 1) / real (k - 1))) + 1))"
    by (auto simp: linspace_f64_def Let_def)
  show ?thesis
  proof (cases "i = k - 1")
    case True
    with y show ?thesis by simp
  next
    case ne: False
    with i have m: "1 \<le> k - 1" "k - 1 \<le> 2 ^ 53" "i \<le> k - 1" using assms(1) by simp_all
    let ?t = "fl64 (real i * fl64 (1 / real (k - 1)))"
    from fade_step [OF m] have t: "0 \<le> ?t" "?t \<le> 1" by simp_all
    have "fl64 (- 1) = - 1" using fl64_minus [of 1] by (simp add: fl64_1)
    then have "fl64 (real i * fl64 (fl64 (- 1) / real (k - 1))) = - ?t"
      using fl64_minus [of "1 / real (k - 1)"] fl64_minus [of "real i * fl64 (1 / real (k - 1))"]
      by simp
    then have "y = fl64 (1 - ?t)" using y ne by simp
    moreover have "0 \<le> 1 - ?t" "1 - ?t \<le> 1" using t by simp_all
    ultimately show ?thesis using fl64_unit [of "1 - ?t"] by simp
  qed
qed

lemma inplace_slice_preserves:
  assumes "inplace_slice f a i j rhs = Inr a'"
    and "\<forall>x\<in>set a. Q x"
    and "\<forall>x y. Q x \<longrightarrow> y \<in> set rhs \<longrightarrow> Q (f x y)"
  shows "\<forall>x\<in>set a'. Q x"
proof -
  define s where "s = slice_index i (length a)"
  define k where "k = slice_index j (length a) - s"
  have mid: "\<forall>x\<in>set (take k (drop s a)). Q x"
    using assms(2) by (auto dest!: in_set_takeD in_set_dropD)
  have pre: "\<forall>x\<in>set (take s a). Q x" and post: "\<forall>x\<in>set (drop (s + k) a). Q x"
    using assms(2) by (auto dest!: in_set_takeD in_set_dropD)
  have z: "\<forall>x\<in>set (map2 f (take k (drop s a)) rhs). Q x"
    using mid assms(3) by (auto elim!: in_set_zipE)
  have h: "\<forall>x\<in>set (map (\<lambda>x. f x (hd rhs)) (take k (drop s a))). Q x" if "length rhs = 1"
  proof -
    from that have "hd rhs \<in> set rhs" by (cases rhs) auto
    with assms(3) mid show ?thesis by auto
  qed
  from assms(1) have "a' = take s a @ map2 f (take k (drop s a)) rhs @ drop (s + k) a
      \<or> (length rhs = 1
          \<and> a' = take s a @ map (\<lambda>x. f x (hd rhs)) (take k (drop s a)) @ drop (s + k) a)"
    by (auto simp: inplace_slice_def Let_def s_def k_def split: if_splits)
  then show ?thesis
    using pre post z h by auto
qed

lemma inplace_slice_lengths:
  assumes "inplace_slice f a i j rhs = Inr a'"
  shows "length a' = length a \<and> (length rhs \<le> length a \<or> length rhs = 1)"
proof -
  have "slice_index i (length a) \<le> length a" and "slice_index j (length a) \<le> length a"
    by (auto simp: slice_index_def)
  then show ?thesis
    using assms by (auto simp: inplace_slice_def Let_def split: if_splits)
qed

lemma apply_fade_f64_bound:
  assumes "apply_fade_f64 a fs = Inr a'" and "length a \<le> 2 ^ 53"
    and "\<forall>x\<in>set a. peak_within c x" and "fl64 c = c" and "c \<le> f64_max"
  shows "\<forall>x\<in>set a'. peak_within c x"
proof -
  from assms(1) have nn: "\<not> fs < 0" by (auto simp: apply_fade_f64_def split: if_splits)
  from assms(1) nn obtain a1 where
    a1: "inplace_slice f64_mul a 0 fs (map Finite (linspace_f64 0 1 (nat fs))) = Inr a1"
    and a': "inplace_slice f64_mul a1 (- fs) (int (length a1)) (map Finite (linspace_f64 1 0 (nat fs)))
        = Inr a'"
    by (auto simp: apply_fade_f64_def Let_def split: sum.splits)
  from inplace_slice_lengths [OF a1] have "nat fs \<le> length a \<or> nat fs = 1"
    by (simp add: length_linspace_f64)
  with assms(2) have k: "nat fs \<le> 2 ^ 53" by auto
  have up: "\<forall>x y. peak_within c x \<longrightarrow> y \<in> set (map Finite (linspace_f64 0 1 (nat fs)))
      \<longrightarrow> peak_within c (f64_mul x y)"
  proof (intro allI impI)
    fix x y assume x: "peak_within c x" and "y \<in> set (map Finite (linspace_f64 0 1 (nat fs)))"
    then obtain v where y: "y = Finite v" and "v \<in> set (linspace_f64 0 1 (nat fs))" by auto
    from linspace_f64_up [OF k this(2)] have "\<bar>v\<bar> \<le> 1" by simp
    from peak_within_mul [OF x this assms(4,5)] show "peak_within c (f64_mul x y)"
      by (simp add: y)
  qed
  have down: "\<forall>x y. peak_within c x \<longrightarrow> y \<in> set (map Finite (linspace_f64 1 0 (nat fs)))
      \<longrightarrow> peak_within c (f64_mul x y)"
  proof (intro allI impI)
    fix x y assume x: "peak_within c x" and "y \<in> set (map Finite (linspace_f64 1 0 (nat fs)))"
    then obtain v where y: "y = Finite v" and "v \<in> set (linspace_f64 1 0 (nat fs))" by auto
    from linspace_f64_down [OF k this(2)] have "\<bar>v\<bar> \<le> 1" by simp
    from peak_within_mul [OF x this assms(4,5)] show "peak_within c (f64_mul x y)"
      by (simp add: y)
  qed
  have "\<forall>x\<in>set a1. peak_within c x"
    by (rule inplace_slice_preserves [OF a1 assms(3) up])
  then show ?thesis
    by (rule inplace_slice_preserves [OF a' _ down])
qed

lemma normalize_f64_length: "normalize_f64 a t = Inr a1 \<Longrightarrow> length a1 = length a"
  by (auto simp: normalize_f64_def split: sum.splits if_splits)

lemma post_process_f64_bound:
  assumes "post_process_f64 reverb a p = Inr out" and "\<not> reverb_amount p > 0"
    and "length a \<le> 2 ^ 53"
  shows "\<forall>x\<in>set out. peak_within (fl64 (9 / 10)) x"
proof -
  from assms(1,2) obtain a1 where
    n: "normalize_f64 a (fl64 (95 / 100)) = Inr a1"
    and f: "apply_fade_f64 (soft_limiter_f64 a1)
        (py_int (double_product (fl64 (5 / 100)) (sample_rate p))) = Inr out"
    by (auto simp: post_process_f64_def Let_def split: sum.splits if_splits)
  have l: "length (soft_limiter_f64 a1) \<le> 2 ^ 53"
    using normalize_f64_length [OF n] assms(3) by (simp add: soft_limiter_f64_def)
  have b: "\<forall>x\<in>set (soft_limiter_f64 a1). peak_within (fl64 (9 / 10)) x"
    using soft_limiter_f64_bound [of a1] by (simp add: list_all_iff)
  show ?thesis
    by (rule apply_fade_f64_bound [OF f l b fl64_c09 c09_bounds(2)])
qed

lemma apply_fade_f64_succeeds:
  assumes "1 \<le> fs" and "fs \<le> int (length a)"
  shows "\<exists>a'. apply_fade_f64 a fs = Inr a' \<and> length a' = length a"
proof -
  let ?up = "map Finite (linspace_f64 0 1 (nat fs))"
  let ?down = "map Finite (linspace_f64 1 0 (nat fs))"
  have i: "slice_index fs (length a) - slice_index 0 (length a) = length ?up"
    using assms by (auto simp: slice_index_def length_linspace_f64)
  obtain a1 where a1: "inplace_slice f64_mul a 0 fs ?up = Inr a1"
    and l1: "length a1 = length a"
    using inplace_full_slice [OF i, of f64_mul] by blast
  have o: "slice_index (int (length a1)) (length a1) - slice_index (- fs) (length a1)
      = length ?down"
    using assms l1 by (auto simp: slice_index_def length_linspace_f64)
  obtain a2 where a2: "inplace_slice f64_mul a1 (- fs) (int (length a1)) ?down = Inr a2"
    and l2: "length a2 = length a1"
    using inplace_full_slice [OF o, of f64_mul] by blast
  show ?thesis
    using assms a1 a2 l1 l2 by (simp add: apply_fade_f64_def)
qed

lemma normalize_f64_succeeds: "a \<noteq> [] \<Longrightarrow> \<exists>a1. normalize_f64 a t = Inr a1 \<and> length a1 = length a"
  by (simp add: normalize_f64_def abs_max_f64_def)

lemma post_process_f64_dry_succeeds:
  assumes "a \<noteq> []" and "\<not> product_overflows (fl64 (5 / 100)) (sample_rate p)"
    and "1 \<le> py_int (double_product (fl64 (5 / 100)) (sample_rate p))"
    and "py_int (double_product (fl64 (5 / 100)) (sample_rate p)) \<le> int (length a)"
    and "\<not> reverb_amount p > 0"
  shows "\<exists>out. post_process_f64 reverb a p = Inr out \<and> length out = length a"
proof -
  obtain a1 where a1: "normalize_f64 a (fl64 (95 / 100)) = Inr a1" and l1: "length a1 = length a"
    using normalize_f64_succeeds [OF assms(1)] by blast
  have l2: "length (soft_limiter_f64 a1) = length a" by (simp add: soft_limiter_f64_def l1)
  obtain a3 where
    a3: "apply_fade_f64 (soft_limiter_f64 a1)
        (py_int (double_product (fl64 (5 / 100)) (sample_rate p))) = Inr a3"
    and l3: "length a3 = length a"
    using apply_fade_f64_succeeds [of "py_int (double_product (fl64 (5 / 100)) (sample_rate p))"
        "soft_limiter_f64 a1"] assms(3,4) l2 by auto
  show ?thesis
    using assms(2,5) a1 a3 l3 by (simp add: post_process_f64_def Let_def)
qed

lemma fl64_limiter_input: "fl64 (16 * fl64 (12 / 10)) = 5404319552844595 / 2 ^ 48"
proof -
  have "16 * fl64 (12 / 10) = (5404319552844595 / 2 ^ 48 :: real)"
    unfolding fl64_12_10 by simp
  moreover have "fl64 (5404319552844595 / 2 ^ 48) = 5404319552844595 / 2 ^ 48"
    using fl64_eval [of 4 "5404319552844595 / 2 ^ 48"]
    by (simp add: powr_neg_numeral py_round_numeral)
  ultimately show ?thesis by (simp only:)
qed

lemma limiter_at_16: "soft_limiter_f64 [Finite 16] = [Finite (fl64 (9 / 10))]"
proof -
  have a: "f64_mul (Finite 16) (Finite (fl64 (12 / 10))) = Finite (5404319552844595 / 2 ^ 48)"
    unfolding f64_mul_def f64_of_real_def prod.case fsample.case fl64_limiter_input
    by (simp add: f64_max_def)
  have b: "f64_tanh (Finite (5404319552844595 / 2 ^ 48)) = Finite 1"
    using tanh_saturates by simp
  have c: "f64_mul (Finite 1) (Finite (fl64 (9 / 10))) = Finite (fl64 (9 / 10))"
    using fl64_c09 c09_bounds by (simp add: f64_mul_def f64_of_real_def)
  show ?thesis
    by (simp only: soft_limiter_f64_def list.map a b c)
qed

lemma fl64_pow_1029: "fl64 (2 ^ 1029) = 2 ^ 1029"
  using fl64_eval [of 1029 "2 ^ 1029"] by (simp add: py_round_numeral)

lemma normalize_overflows: "f64_div (Finite (fl64 (95 / 100))) (Finite (1 / 2 ^ 1030)) = PosInf"
proof -
  have "(2 :: real) ^ 1029 \<le> fl64 (95 / 100) / (1 / 2 ^ 1030)"
    unfolding fl64_95_100 by simp
  then have "fl64 (2 ^ 1029) \<le> fl64 (fl64 (95 / 100) / (1 / 2 ^ 1030))"
    by (rule fl64_mono)
  moreover have "f64_max < 2 ^ 1029" by (simp add: f64_max_def)
  ultimately have "f64_max < fl64 (fl64 (95 / 100) / (1 / 2 ^ 1030))"
    unfolding fl64_pow_1029 by linarith
  then show ?thesis
    unfolding f64_div_def f64_of_real_def by simp
qed

lemma normalize_tiny:
  "normalize_f64 [Finite (1 / 2 ^ 1030), Finite 0, Finite (- (1 / 2 ^ 1030))] (fl64 (95 / 100))
     = Inr [PosInf, NaN, NegInf]"
proof -
  have p: "abs_max_f64 [Finite (1 / 2 ^ 1030), Finite 0, Finite (- (1 / 2 ^ 1030))]
      = Inr (Finite (1 / 2 ^ 1030))"
    by (simp add: abs_max_f64_def f64_maximum_def)
  show ?thesis
    unfolding normalize_f64_def p sum.case normalize_overflows
    by (simp add: f64_mul_def)
qed

lemma limiter_at_infinity:
  "soft_limiter_f64 [PosInf, NaN, NegInf] = [Finite (fl64 (9 / 10)), NaN, Finite (- fl64 (9 / 10))]"
proof -
  have s: "0 < fl64 (12 / 10)" unfolding fl64_12_10 by simp
  have a: "f64_mul PosInf (Finite (fl64 (12 / 10))) = PosInf"
    "f64_mul NaN (Finite (fl64 (12 / 10))) = NaN"
    "f64_mul NegInf (Finite (fl64 (12 / 10))) = NegInf"
    using s by (simp_all add: f64_mul_def)
  have c: "f64_mul (Finite 1) (Finite (fl64 (9 / 10))) = Finite (fl64 (9 / 10))"
    using fl64_c09 c09_bounds by (simp add: f64_mul_def f64_of_real_def)
  have d: "f64_mul (Finite (- 1)) (Finite (fl64 (9 / 10))) = Finite (- fl64 (9 / 10))"
    using fl64_c09 c09_bounds by (simp add: f64_mul_def f64_of_real_def fl64_minus)
  have e: "f64_mul NaN (Finite (fl64 (9 / 10))) = NaN"
    by (simp add: f64_mul_def)
  show ?thesis
    by (simp only: soft_limiter_f64_def list.map a f64_tanh.simps c d e)
qed

lemma fade_samples_20:
  "\<not> product_overflows (fl64 (5 / 100)) 20" "py_int (double_product (fl64 (5 / 100)) 20) = 1"
proof -
  have "fl64 (fl64 (5 / 100) * 20) = 1"
    unfolding fl64_5_100
    using fl64_eval [of 0 "3602879701896397 / 2 ^ 56 * 20"]
    by (simp add: powr_neg_numeral py_round_def)
  then have d: "double_product (fl64 (5 / 100)) 20 = 1"
    unfolding double_product_def by (simp add: fl64_20)
  show "\<not> product_overflows (fl64 (5 / 100)) 20"
    unfolding product_overflows_def d by (simp add: fl64_20 f64_max_def)
  show "py_int (double_product (fl64 (5 / 100)) 20) = 1"
    unfolding d by (simp add: py_int_def)
qed

lemma fade_one_sample:
  "apply_fade_f64 [Finite (fl64 (9 / 10)), NaN, Finite (- fl64 (9 / 10))] 1
     = Inr [Finite 0, NaN, Finite (- fl64 (9 / 10))]"
proof -
  have z: "f64_mul (Finite (fl64 (9 / 10))) (Finite 0) = Finite 0"
    using f64_max_ge_1 by (simp add: f64_mul_def f64_of_real_def fl64_0)
  have o: "f64_mul (Finite (- fl64 (9 / 10))) (Finite 1) = Finite (- fl64 (9 / 10))"
    using fl64_c09 c09_bounds by (simp add: f64_mul_def f64_of_real_def fl64_minus)
  show ?thesis
    by (simp add: apply_fade_f64_def linspace_f64_def inplace_slice_def slice_index_def z o)
qed

lemma post_process_tiny:
  "post_process_f64 no_reverb [Finite (1 / 2 ^ 1030), Finite 0, Finite (- (1 / 2 ^ 1030))]
      (scenario_a\<lparr>sample_rate := 20\<rparr>)
     = Inr [Finite 0, NaN, Finite (- fl64 (9 / 10))]"
proof -
  have p: "sample_rate (scenario_a\<lparr>sample_rate := 20\<rparr>) = 20"
    "\<not> reverb_amount (scenario_a\<lparr>sample_rate := 20\<rparr>) > 0"
    by (simp_all add: scenario_a_def)
  show ?thesis
    unfolding post_process_f64_def normalize_tiny sum.case Let_def limiter_at_infinity p
    using fade_samples_20 by (simp add: fade_one_sample scenario_a_def)
qed

lemma fade_samples_44100:
  "\<not> product_overflows (fl64 (5 / 100)) 44100"
  "py_int (double_product (fl64 (5 / 100)) 44100) = 2205"
proof -
  have "fl64 (fl64 (5 / 100) * 44100) = 2205"
    unfolding fl64_5_100
    using fl64_eval [of 11 "3602879701896397 / 2 ^ 56 * 44100"]
    by (simp add: powr_neg_numeral py_round_def)
  then have d: "double_product (fl64 (5 / 100)) 44100 = 2205"
    unfolding double_product_def by (simp add: fl64_44100)
  show "\<not> product_overflows (fl64 (5 / 100)) 44100"
    unfolding product_overflows_def d by (simp add: fl64_44100 f64_max_def)
  show "py_int (double_product (fl64 (5 / 100)) 44100) = 2205"
    unfolding d by (simp add: py_int_def)
qed

text \<open>
  C9, as the engine has it. Whatever the input buffer, after the soft-limiter step
  \<open>tanh(x * 1.2) * 0.9\<close>, computed on doubles, every sample is NaN or has an absolute
  value of at most 0.9, the double; so when the reverb amount is 0, every sample of the
  output of the post-processor, which \<open>generate\<close> returns as it is, is NaN or has an
  absolute value of at most 0.9, whatever normalization has produced (for a buffer of
  at most \<open>2 ** 53\<close> samples, beyond which the points of \<open>np.linspace\<close> are not the
  ones modelled). The bound is reached: the double 0.9 is above nine tenths, and it is
  the value of the limiter wherever \<open>np.tanh\<close> is 1.0.
\<close>

theorem soft_limiter_peak:
  "list_all (peak_within (fl64 (9 / 10))) (soft_limiter_f64 a)
   \<and> (reverb_amount p = 0 \<longrightarrow> length a \<le> 2 ^ 53 \<longrightarrow> post_process_f64 reverb a p = Inr out
        \<longrightarrow> list_all (peak_within (fl64 (9 / 10))) out)
   \<and> fl64 (9 / 10) = 8106479329266893 / 2 ^ 53"
proof (intro conjI impI)
  show "list_all (peak_within (fl64 (9 / 10))) (soft_limiter_f64 a)"
    by (rule soft_limiter_f64_bound)
next
  assume "reverb_amount p = 0" and l: "length a \<le> 2 ^ 53"
    and run: "post_process_f64 reverb a p = Inr out"
  then have "\<not> reverb_amount p > 0" by simp
  from post_process_f64_bound [OF run this l]
  show "list_all (peak_within (fl64 (9 / 10))) out"
    by (simp add: list_all_iff)
next
  show "fl64 (9 / 10) = 8106479329266893 / 2 ^ 53"
    by (rule fl64_9_10)
qed

theorem soft_limiter_peak_witness:
  "list_all (peak_within (fl64 (9 / 10))) (soft_limiter_f64 [Finite (1 / 2), Finite (- 3), PosInf, NaN])
   \<and> reverb_amount scenario_a = 0
   \<and> length (replicate 9800 (Finite (1 / 2))) \<le> 2 ^ 53
   \<and> (\<exists>out. post_process_f64 no_reverb (replicate 9800 (Finite (1 / 2))) scenario_a = Inr out
         \<and> length out = 9800 \<and> list_all (peak_within (fl64 (9 / 10))) out)"
proof -
  let ?a = "replicate 9800 (Finite (1 / 2))"
  have p: "sample_rate scenario_a = 44100" "reverb_amount scenario_a = 0"
    by (simp_all add: scenario_a_def)
  have l: "length ?a \<le> 2 ^ 53" by simp
  have "\<exists>out. post_process_f64 no_reverb ?a scenario_a = Inr out \<and> length out = length ?a"
  proof (rule post_process_f64_dry_succeeds)
    show "?a \<noteq> []" by simp
    show "\<not> product_overflows (fl64 (5 / 100)) (sample_rate scenario_a)"
      unfolding p(1) by (rule fade_samples_44100(1))
    show "1 \<le> py_int (double_product (fl64 (5 / 100)) (sample_rate scenario_a))"
      unfolding p(1) fade_samples_44100(2) by simp
    show "py_int (double_product (fl64 (5 / 100)) (sample_rate scenario_a)) \<le> int (length ?a)"
      unfolding p(1) fade_samples_44100(2) by simp
    show "\<not> reverb_amount scenario_a > 0" by (simp add: p(2))
  qed
  then obtain out where run: "post_process_f64 no_reverb ?a scenario_a = Inr out"
    and len: "length out = 9800"
    by auto
  have b: "list_all (peak_within (fl64 (9 / 10))) out"
    using soft_limiter_peak [where p = scenario_a and a = ?a and reverb = no_reverb and out = out,
        THEN conjunct2, THEN conjunct1] p(2) l run
    by blast
  have a: "list_all (peak_within (fl64 (9 / 10)))
      (soft_limiter_f64 [Finite (1 / 2), Finite (- 3), PosInf, NaN])"
    using soft_limiter_peak [where a = "[Finite (1 / 2), Finite (- 3), PosInf, NaN]",
        THEN conjunct1] .
  show ?thesis
    using a p(2) l run len b by blast
qed

text \<open>
  C9 as stated fails: at the sample 16 the hyperbolic tangent of \<open>16 * 1.2\<close> rounds to
  1.0 and the limiter returns the double 0.9, which is not below nine tenths; and on a
  buffer whose peak is subnormal the normalization overflows, so that with a reverb
  amount of 0 the post-processor returns a NaN and a sample of magnitude 0.9.
\<close>

theorem limiter_reaches_the_bound:
  "soft_limiter_f64 [Finite 16] = [Finite (8106479329266893 / 2 ^ 53)]
   \<and> \<not> \<bar>8106479329266893 / 2 ^ 53\<bar> < (9 / 10 :: real)
   \<and> reverb_amount (scenario_a\<lparr>sample_rate := 20\<rparr>) = 0
   \<and> post_process_f64 no_reverb [Finite (1 / 2 ^ 1030), Finite 0, Finite (- (1 / 2 ^ 1030))]
        (scenario_a\<lparr>sample_rate := 20\<rparr>)
       = Inr [Finite 0, NaN, Finite (- (8106479329266893 / 2 ^ 53))]"
proof -
  have "soft_limiter_f64 [Finite 16] = [Finite (8106479329266893 / 2 ^ 53)]"
    unfolding limiter_at_16 fl64_9_10 ..
  moreover have "post_process_f64 no_reverb
        [Finite (1 / 2 ^ 1030), Finite 0, Finite (- (1 / 2 ^ 1030))] (scenario_a\<lparr>sample_rate := 20\<rparr>)
       = Inr [Finite 0, NaN, Finite (- (8106479329266893 / 2 ^ 53))]"
    unfolding post_process_tiny fl64_9_10 ..
  moreover have "\<not> \<bar>8106479329266893 / 2 ^ 53\<bar> < (9 / 10 :: real)" by simp
  moreover have "reverb_amount (scenario_a\<lparr>sample_rate := 20\<rparr>) = 0"
    by (simp add: scenario_a_def)
  ultimately show ?thesis by (intro conjI)
qed

end
